(* ===== verification/Ledger_Prelude.thy ===== *)
theory Ledger_Prelude
  imports Main "HOL-Library.Word" "HOL-Library.Sublist"
begin

text \<open>
  The vocabulary every component shares: the machine integers of the service (Rust's
  \<open>i64\<close>, \<open>i32\<close>, \<open>i16\<close>, \<open>u8\<close> and the \<open>uuid\<close> crate's 128-bit identifier are words of their
  width, read with \<open>sint\<close> or \<open>unat\<close>), the checked and wrapping operations the code uses on
  them, Rust's string operations on UTF-8 bytes (a \<open>string\<close> is a list of 8-bit \<open>char\<close>s), and
  decimal numerals (reading and printing).  The collections \<open>int_simps\<close>, \<open>text_simps\<close> and
  \<open>stmt_simps\<close> gather the rewrite rules the component proofs share.
\<close>

named_theorems int_simps \<open>checked machine arithmetic\<close>
named_theorems text_simps \<open>strings and decimal numerals\<close>
named_theorems stmt_simps \<open>database statements and the transaction monad\<close>

type_synonym u8 = "8 word"
type_synonym u16 = "16 word"
type_synonym i16 = "16 word"
type_synonym i32 = "32 word"
type_synonym i64 = "64 word"
type_synonym uuid = "128 word"
type_synonym timestamp = int

section \<open>Machine integers\<close>

text \<open>\<open>i64::try_from\<close> of a wider integer, and the checked operations on \<open>i64\<close>.\<close>

definition i64_min :: int where "i64_min = - (2 ^ 63)"

definition i64_max :: int where "i64_max = 2 ^ 63 - 1"

definition i64_try_from :: "int \<Rightarrow> i64 option" where
  "i64_try_from n = (if i64_min \<le> n \<and> n \<le> i64_max then Some (word_of_int n) else None)"

definition checked_add_i64 :: "i64 \<Rightarrow> i64 \<Rightarrow> i64 option" where
  "checked_add_i64 a b = i64_try_from (sint a + sint b)"

definition checked_sub_i64 :: "i64 \<Rightarrow> i64 \<Rightarrow> i64 option" where
  "checked_sub_i64 a b = i64_try_from (sint a - sint b)"

lemma sint_i64_ge: "i64_min \<le> sint (a :: i64)"
  using sint_ge [of a] by (simp add: i64_min_def)

lemma sint_i64_le: "sint (a :: i64) \<le> i64_max"
  using sint_lt [of a] by (simp add: i64_max_def)

lemma sint_word_of_int_i64:
  assumes "i64_min \<le> n" and "n \<le> i64_max"
  shows "sint (word_of_int n :: i64) = n"
  using assms by (simp add: i64_min_def i64_max_def signed_of_int signed_take_bit_int_eq_self)

lemma i64_try_from_eq_Some [int_simps]: "i64_try_from n = Some a \<longleftrightarrow> sint a = n"
proof
  assume "i64_try_from n = Some a"
  then show "sint a = n"
    by (auto simp: i64_try_from_def sint_word_of_int_i64 split: if_splits)
next
  assume "sint a = n"
  then show "i64_try_from n = Some a"
    using sint_i64_ge [of a] sint_i64_le [of a] by (auto simp: i64_try_from_def)
qed

lemma i64_try_from_eq_None [int_simps]: "i64_try_from n = None \<longleftrightarrow> n < i64_min \<or> i64_max < n"
  by (auto simp: i64_try_from_def)

lemma i64_try_from_sint [simp]: "i64_try_from (sint a) = Some a"
  by (simp add: i64_try_from_eq_Some)

lemma checked_add_i64_Some [int_simps]: "checked_add_i64 a b = Some c \<longleftrightarrow> sint c = sint a + sint b"
  by (simp add: checked_add_i64_def i64_try_from_eq_Some)

lemma checked_sub_i64_Some [int_simps]: "checked_sub_i64 a b = Some c \<longleftrightarrow> sint c = sint a - sint b"
  by (simp add: checked_sub_i64_def i64_try_from_eq_Some)

lemma checked_add_i64_None:
  "checked_add_i64 a b = None \<longleftrightarrow> sint a + sint b < i64_min \<or> i64_max < sint a + sint b"
  by (simp add: checked_add_i64_def i64_try_from_eq_None)

lemma checked_sub_i64_None:
  "checked_sub_i64 a b = None \<longleftrightarrow> sint a - sint b < i64_min \<or> i64_max < sint a - sint b"
  by (simp add: checked_sub_i64_def i64_try_from_eq_None)

text \<open>A debit covered by the balance cannot underflow.\<close>

lemma checked_sub_i64_covered:
  assumes "0 \<le> sint b" and "sint b \<le> sint a"
  shows "\<exists>c. checked_sub_i64 a b = Some c"
proof (cases "checked_sub_i64 a b")
  case None
  with assms sint_i64_le [of a] show ?thesis
    by (auto simp: checked_sub_i64_None i64_min_def)
qed simp

lemma sint_succ_i64:
  assumes "sint (v :: i64) < i64_max"
  shows "sint (v + 1) = sint v + 1"
proof -
  have "v + 1 = word_of_int (sint v + 1)" by simp
  moreover have "i64_min \<le> sint v + 1" using sint_i64_ge [of v] by simp
  ultimately show ?thesis using assms sint_word_of_int_i64 [of "sint v + 1"] by simp
qed

text \<open>
  \<open>i128\<close> locals are kept as \<open>int\<close> with the wrap-around of the release build (no overflow
  checks) written out; \<open>checked_mul\<close> and \<open>checked_add\<close> on them are explicit.
\<close>

definition i128_max :: int where "i128_max = 2 ^ 127 - 1"

definition in_i128 :: "int \<Rightarrow> bool" where
  "in_i128 n \<longleftrightarrow> - (2 ^ 127) \<le> n \<and> n \<le> i128_max"

definition wrap_i128 :: "int \<Rightarrow> int" where
  "wrap_i128 n = (n + 2 ^ 127) mod 2 ^ 128 - 2 ^ 127"

definition checked_i128 :: "int \<Rightarrow> int option" where
  "checked_i128 n = (if in_i128 n then Some n else None)"

definition pow10_i128 :: "nat \<Rightarrow> int" where
  "pow10_i128 e = wrap_i128 (10 ^ e)"

lemma wrap_i128_id: "in_i128 n \<Longrightarrow> wrap_i128 n = n"
  by (simp add: wrap_i128_def in_i128_def i128_max_def)

lemma ten_power_mono: "e \<le> k \<Longrightarrow> (10::int) ^ e \<le> 10 ^ k"
  by (rule power_increasing) auto

lemma pow10_i128_small:
  assumes "e \<le> 38"
  shows "pow10_i128 e = 10 ^ e"
proof -
  have "(10::int) ^ e \<le> 10 ^ 38" using assms by (rule ten_power_mono)
  then have "in_i128 (10 ^ e)"
    by (simp add: in_i128_def i128_max_def order_trans [of _ 0])
  then show ?thesis by (simp add: pow10_i128_def wrap_i128_id)
qed


section \<open>Rust strings as UTF-8 bytes\<close>

definition is_ascii_digit :: "char \<Rightarrow> bool" where
  "is_ascii_digit c \<longleftrightarrow> 48 \<le> (of_char c :: nat) \<and> (of_char c :: nat) \<le> 57"

definition is_ascii_hexdigit :: "char \<Rightarrow> bool" where
  "is_ascii_hexdigit c \<longleftrightarrow> is_ascii_digit c
     \<or> 65 \<le> (of_char c :: nat) \<and> (of_char c :: nat) \<le> 70
     \<or> 97 \<le> (of_char c :: nat) \<and> (of_char c :: nat) \<le> 102"

definition is_ascii_alphanumeric :: "char \<Rightarrow> bool" where
  "is_ascii_alphanumeric c \<longleftrightarrow> is_ascii_digit c
     \<or> 65 \<le> (of_char c :: nat) \<and> (of_char c :: nat) \<le> 90
     \<or> 97 \<le> (of_char c :: nat) \<and> (of_char c :: nat) \<le> 122"

text \<open>Bytes \<open>0x21..=0x7e\<close>, the range of keys and request identifiers.\<close>

definition is_visible_ascii :: "char \<Rightarrow> bool" where
  "is_visible_ascii c \<longleftrightarrow> 33 \<le> (of_char c :: nat) \<and> (of_char c :: nat) \<le> 126"

text \<open>What \<open>HeaderValue::to_str\<close> reads: visible ASCII bytes, spaces and tabs.\<close>

definition is_blank :: "char \<Rightarrow> bool" where
  "is_blank c \<longleftrightarrow> c = CHR 0x20 \<or> c = CHR 0x09"

definition header_text :: "string \<Rightarrow> bool" where
  "header_text s \<longleftrightarrow> list_all (\<lambda>c. is_visible_ascii c \<or> is_blank c) s"

definition to_ascii_uppercase_char :: "char \<Rightarrow> char" where
  "to_ascii_uppercase_char c =
     (if 97 \<le> (of_char c :: nat) \<and> (of_char c :: nat) \<le> 122
      then char_of (of_char c - 32 :: nat) else c)"

definition to_ascii_uppercase :: "string \<Rightarrow> string" where
  "to_ascii_uppercase s = List.map to_ascii_uppercase_char s"

definition eq_ignore_ascii_case :: "string \<Rightarrow> string \<Rightarrow> bool" where
  "eq_ignore_ascii_case s t \<longleftrightarrow> to_ascii_uppercase s = to_ascii_uppercase t"

definition strip_prefix :: "string \<Rightarrow> string \<Rightarrow> string option" where
  "strip_prefix p s = (if prefix p s then Some (drop (length p) s) else None)"

definition split_once :: "char \<Rightarrow> string \<Rightarrow> (string \<times> string) option" where
  "split_once c s =
     (if c \<in> set s then Some (takeWhile (\<lambda>x. x \<noteq> c) s, tl (dropWhile (\<lambda>x. x \<noteq> c) s)) else None)"

text \<open>
  The code points with the Unicode property White_Space, UTF-8 encoded: what \<open>str::trim\<close>
  removes at both ends.
\<close>

definition white_space :: "string list" where
  "white_space =
     [[CHR 0x09], [CHR 0x0A], [CHR 0x0B], [CHR 0x0C], [CHR 0x0D], [CHR 0x20],
      [CHR 0xC2, CHR 0x85], [CHR 0xC2, CHR 0xA0], [CHR 0xE1, CHR 0x9A, CHR 0x80],
      [CHR 0xE2, CHR 0x80, CHR 0x80], [CHR 0xE2, CHR 0x80, CHR 0x81],
      [CHR 0xE2, CHR 0x80, CHR 0x82], [CHR 0xE2, CHR 0x80, CHR 0x83],
      [CHR 0xE2, CHR 0x80, CHR 0x84], [CHR 0xE2, CHR 0x80, CHR 0x85],
      [CHR 0xE2, CHR 0x80, CHR 0x86], [CHR 0xE2, CHR 0x80, CHR 0x87],
      [CHR 0xE2, CHR 0x80, CHR 0x88], [CHR 0xE2, CHR 0x80, CHR 0x89],
      [CHR 0xE2, CHR 0x80, CHR 0x8A], [CHR 0xE2, CHR 0x80, CHR 0xA8],
      [CHR 0xE2, CHR 0x80, CHR 0xA9], [CHR 0xE2, CHR 0x80, CHR 0xAF],
      [CHR 0xE2, CHR 0x81, CHR 0x9F], [CHR 0xE3, CHR 0x80, CHR 0x80]]"

function drop_seqs :: "string list \<Rightarrow> string \<Rightarrow> string" where
  "drop_seqs ws s =
     (case find (\<lambda>w. w \<noteq> [] \<and> prefix w s) ws of
        None \<Rightarrow> s
      | Some w \<Rightarrow> drop_seqs ws (drop (length w) s))"
  by pat_completeness auto
termination
  by (relation "measure (\<lambda>(ws, s). length s)")
    (auto simp: find_Some_iff prefix_def)

declare drop_seqs.simps [simp del]

definition trim_start :: "string \<Rightarrow> string" where
  "trim_start s = drop_seqs white_space s"

definition trim_end :: "string \<Rightarrow> string" where
  "trim_end s = rev (drop_seqs (List.map rev white_space) (rev s))"

definition trim :: "string \<Rightarrow> string" where
  "trim s = trim_end (trim_start s)"

lemma drop_seqs_id:
  assumes "\<And>w. w \<in> set ws \<Longrightarrow> w \<noteq> [] \<Longrightarrow> \<not> prefix w s"
  shows "drop_seqs ws s = s"
proof -
  have "find (\<lambda>w. w \<noteq> [] \<and> prefix w s) ws = None"
    using assms by (auto simp: find_None_iff)
  then show ?thesis by (simp add: drop_seqs.simps)
qed

text \<open>Visible ASCII bytes neither start nor end a white-space sequence.\<close>

lemma trim_start_plain:
  assumes "is_visible_ascii c"
  shows "trim_start (c # s) = c # s"
proof -
  have "\<forall>w \<in> set white_space. case w of [] \<Rightarrow> True | x # _ \<Rightarrow> \<not> is_visible_ascii x"
    by (simp add: white_space_def is_visible_ascii_def)
  then have "\<And>w. w \<in> set white_space \<Longrightarrow> w \<noteq> [] \<Longrightarrow> \<not> prefix w (c # s)"
    using assms by (auto simp: prefix_Cons split: list.splits)
  then show ?thesis by (simp add: trim_start_def drop_seqs_id)
qed

lemma trim_end_plain:
  assumes "is_visible_ascii c"
  shows "trim_end (s @ [c]) = s @ [c]"
proof -
  have "\<forall>w \<in> set (List.map rev white_space). case w of [] \<Rightarrow> True | x # _ \<Rightarrow> \<not> is_visible_ascii x"
    by (simp add: white_space_def is_visible_ascii_def)
  then have "\<And>w. w \<in> set (List.map rev white_space) \<Longrightarrow> w \<noteq> [] \<Longrightarrow> \<not> prefix w (c # rev s)"
    using assms by (fastforce simp: prefix_Cons split: list.splits)
  then have "drop_seqs (List.map rev white_space) (c # rev s) = c # rev s"
    by (rule drop_seqs_id)
  then show ?thesis by (simp add: trim_end_def)
qed

lemma trim_plain:
  assumes "s \<noteq> []" and "is_visible_ascii (hd s)" and "is_visible_ascii (last s)"
  shows "trim s = s"
proof -
  have "trim_start s = s" using assms(1,2) trim_start_plain by (cases s) auto
  moreover have "trim_end s = s"
    using assms(1,3) trim_end_plain [of "last s" "butlast s"] by simp
  ultimately show ?thesis by (simp add: trim_def)
qed

lemma is_visible_ascii_digit [simp]: "is_ascii_digit c \<Longrightarrow> is_visible_ascii c"
  by (simp add: is_visible_ascii_def is_ascii_digit_def)

lemma split_once_None [text_simps]: "split_once c s = None \<longleftrightarrow> c \<notin> set s"
  by (simp add: split_once_def)

lemma split_once_append [text_simps]:
  assumes "c \<notin> set s"
  shows "split_once c (s @ c # t) = Some (s, t)"
proof -
  have "takeWhile (\<lambda>x. x \<noteq> c) (s @ c # t) = s" and "dropWhile (\<lambda>x. x \<noteq> c) (s @ c # t) = c # t"
    using assms by (auto simp: takeWhile_append dropWhile_append)
  then show ?thesis by (simp add: split_once_def)
qed

lemma split_once_SomeD:
  assumes "split_once c s = Some (a, b)"
  shows "s = a @ c # b \<and> c \<notin> set a"
proof -
  from assms have c: "c \<in> set s" and a: "a = takeWhile (\<lambda>x. x \<noteq> c) s"
    and b: "b = tl (dropWhile (\<lambda>x. x \<noteq> c) s)"
    by (auto simp: split_once_def split: if_splits)
  from c have "dropWhile (\<lambda>x. x \<noteq> c) s \<noteq> []" by (auto simp: dropWhile_eq_Nil_conv)
  then have "dropWhile (\<lambda>x. x \<noteq> c) s = c # b"
    using b hd_dropWhile [of "\<lambda>x. x \<noteq> c" s] by (cases "dropWhile (\<lambda>x. x \<noteq> c) s") auto
  then have "s = a @ c # b" using a takeWhile_dropWhile_id [of "\<lambda>x. x \<noteq> c" s] by simp
  moreover have "c \<notin> set a" using a by (auto dest: set_takeWhileD)
  ultimately show ?thesis by simp
qed


section \<open>Decimal numerals\<close>

definition digit_value :: "char \<Rightarrow> nat" where
  "digit_value c = of_char c - 48"

definition digit_char :: "nat \<Rightarrow> char" where
  "digit_char d = char_of (48 + d)"

definition digits_val :: "string \<Rightarrow> nat" where
  "digits_val s = foldl (\<lambda>n c. 10 * n + digit_value c) 0 s"

text \<open>Display of a natural number, and zero padding on the left (Rust's \<open>{:0width$}\<close>).\<close>

fun show_nat :: "nat \<Rightarrow> string" where
  "show_nat n = (if n < 10 then [digit_char n] else show_nat (n div 10) @ [digit_char (n mod 10)])"

declare show_nat.simps [simp del]

definition pad_zeros :: "nat \<Rightarrow> string \<Rightarrow> string" where
  "pad_zeros width s = replicate (width - length s) CHR ''0'' @ s"

definition show_int :: "int \<Rightarrow> string" where
  "show_int n = (if n < 0 then CHR ''-'' # show_nat (nat (- n)) else show_nat (nat n))"

text \<open>
  \<open>str::parse\<close> for Rust's integer types: an optional \<open>+\<close>, for signed types an optional
  \<open>-\<close>, at least one digit, and the value within the type's range.
\<close>

definition parse_digits :: "string \<Rightarrow> nat option" where
  "parse_digits s = (if s \<noteq> [] \<and> list_all is_ascii_digit s then Some (digits_val s) else None)"

definition in_range :: "int \<Rightarrow> int \<Rightarrow> int \<Rightarrow> int option" where
  "in_range lo hi n = (if lo \<le> n \<and> n \<le> hi then Some n else None)"

definition parse_signed :: "int \<Rightarrow> int \<Rightarrow> string \<Rightarrow> int option" where
  "parse_signed lo hi s =
     (case s of
        [] \<Rightarrow> None
      | c # cs \<Rightarrow>
          (if c = CHR ''+'' then Option.bind (parse_digits cs) (\<lambda>n. in_range lo hi (int n))
           else if c = CHR ''-'' then Option.bind (parse_digits cs) (\<lambda>n. in_range lo hi (- int n))
           else Option.bind (parse_digits s) (\<lambda>n. in_range lo hi (int n))))"

definition parse_unsigned :: "int \<Rightarrow> string \<Rightarrow> int option" where
  "parse_unsigned hi s =
     (case s of
        [] \<Rightarrow> None
      | c # cs \<Rightarrow>
          (if c = CHR ''+'' then Option.bind (parse_digits cs) (\<lambda>n. in_range 0 hi (int n))
           else Option.bind (parse_digits s) (\<lambda>n. in_range 0 hi (int n))))"

definition parse_i64 :: "string \<Rightarrow> int option" where
  "parse_i64 = parse_signed i64_min i64_max"

definition parse_i128 :: "string \<Rightarrow> int option" where
  "parse_i128 = parse_signed (- (2 ^ 127)) i128_max"

lemma digit_char_digit [simp]: "d < 10 \<Longrightarrow> is_ascii_digit (digit_char d)"
  by (simp add: is_ascii_digit_def digit_char_def)

lemma digit_value_char [simp]: "d < 10 \<Longrightarrow> digit_value (digit_char d) = d"
  by (simp add: digit_value_def digit_char_def)

lemma digit_value_lt: "is_ascii_digit c \<Longrightarrow> digit_value c < 10"
  by (auto simp: is_ascii_digit_def digit_value_def)

lemma digit_char_value: "is_ascii_digit c \<Longrightarrow> digit_char (digit_value c) = c"
  by (simp add: is_ascii_digit_def digit_value_def digit_char_def)

lemma digit_char_numerals [text_simps]:
  "digit_char 0 = CHR ''0''" "digit_char (Suc 0) = CHR ''1''" "digit_char 2 = CHR ''2''"
  "digit_char 3 = CHR ''3''" "digit_char 4 = CHR ''4''" "digit_char 5 = CHR ''5''"
  "digit_char 6 = CHR ''6''" "digit_char 7 = CHR ''7''" "digit_char 8 = CHR ''8''"
  "digit_char 9 = CHR ''9''"
  by (simp_all add: digit_char_def char_of_def bit_Suc_0_iff)

lemma digits_val_Nil [simp]: "digits_val [] = 0"
  by (simp add: digits_val_def)

lemma digits_val_snoc [simp]: "digits_val (s @ [c]) = 10 * digits_val s + digit_value c"
  by (simp add: digits_val_def)

lemma digits_val_append: "digits_val (s @ t) = digits_val s * 10 ^ length t + digits_val t"
proof (induction t rule: rev_induct)
  case (snoc c t)
  then show ?case
    by (simp add: digits_val_snoc [of "s @ t", simplified] algebra_simps)
qed simp

lemma digits_val_zeros [simp]: "digits_val (replicate n CHR ''0'') = 0"
proof (induction n)
  case (Suc n)
  have "replicate (Suc n) CHR ''0'' = replicate n CHR ''0'' @ [CHR ''0'']"
    by (simp add: replicate_append_same)
  with Suc show ?case by (simp only: digits_val_snoc) (simp add: digit_value_def)
qed simp

lemma digits_val_pad [simp]: "digits_val (pad_zeros w s) = digits_val s"
  by (simp add: pad_zeros_def digits_val_append)

lemma digits_val_bound: "list_all is_ascii_digit s \<Longrightarrow> digits_val s < 10 ^ length s"
proof (induction s rule: rev_induct)
  case (snoc c s)
  then have "digits_val s < 10 ^ length s" and "digit_value c < 10"
    by (auto intro: digit_value_lt)
  then have "10 * digits_val s + digit_value c < 10 * 10 ^ length s" by linarith
  then show ?case by simp
qed simp

lemma show_nat_digits [simp]: "list_all is_ascii_digit (show_nat n)"
  by (induction n rule: show_nat.induct) (simp add: show_nat.simps)

lemma show_nat_not_Nil [simp]: "show_nat n \<noteq> []"
  by (simp add: show_nat.simps [of n])

lemma digits_val_show_nat [simp]: "digits_val (show_nat n) = n"
proof (induction n rule: show_nat.induct)
  case (1 n)
  show ?case
  proof (cases "n < 10")
    case True
    then show ?thesis by (simp add: show_nat.simps [of n] digits_val_snoc [of "[]", simplified])
  next
    case False
    with 1 show ?thesis by (simp add: show_nat.simps [of n])
  qed
qed

lemma show_nat_inject [simp]: "show_nat m = show_nat n \<longleftrightarrow> m = n"
  by (metis digits_val_show_nat)

lemma show_int_nonneg [text_simps]: "0 \<le> n \<Longrightarrow> show_int n = show_nat (nat n)"
  by (simp add: show_int_def)

lemma show_nat_length_le:
  assumes "n < 10 ^ k" and "0 < k"
  shows "length (show_nat n) \<le> k"
  using assms
proof (induction n arbitrary: k rule: show_nat.induct)
  case (1 n k)
  show ?case
  proof (cases "n < 10")
    case True
    with 1 show ?thesis by (simp add: show_nat.simps [of n])
  next
    case False
    from "1.prems" False have "k \<noteq> 1" by (auto simp: not_less)
    with "1.prems" obtain j where k: "k = Suc j" and j: "0 < j"
      by (cases k) auto
    with 1 have "n div 10 < 10 ^ j" by (simp add: less_mult_imp_div_less mult.commute)
    with 1 False j have "length (show_nat (n div 10)) \<le> j" by simp
    with False k show ?thesis by (simp add: show_nat.simps [of n])
  qed
qed

lemma pad_zeros_digits [simp]: "list_all is_ascii_digit s \<Longrightarrow> list_all is_ascii_digit (pad_zeros w s)"
  by (auto simp: pad_zeros_def list_all_iff is_ascii_digit_def set_replicate_conv_if)

lemma pad_zeros_length: "length s \<le> w \<Longrightarrow> length (pad_zeros w s) = w"
  by (simp add: pad_zeros_def)

lemma parse_digits_show_nat [simp]: "parse_digits (show_nat n) = Some n"
  by (simp add: parse_digits_def)

lemma not_digit_chars [simp]:
  "\<not> is_ascii_digit CHR ''.''" "\<not> is_ascii_digit CHR ''-''" "\<not> is_ascii_digit CHR ''+''"
  by (simp_all add: is_ascii_digit_def)

lemma digits_not_in: "list_all is_ascii_digit s \<Longrightarrow> \<not> is_ascii_digit c \<Longrightarrow> c \<notin> set s"
  by (auto simp: list_all_iff)

text \<open>On a non-empty digit string, parsing fails exactly when the value is out of range.\<close>

lemma parse_signed_digits:
  assumes "s \<noteq> []" and "list_all is_ascii_digit s"
  shows "parse_signed lo hi s = in_range lo hi (int (digits_val s))"
proof (cases s)
  case (Cons c cs)
  with assms have "is_ascii_digit c" by simp
  then have "c \<noteq> CHR ''+''" and "c \<noteq> CHR ''-''" by auto
  with Cons assms show ?thesis by (simp add: parse_signed_def parse_digits_def)
qed (use assms in simp)

lemma parse_signed_range:
  "parse_signed lo hi s = Some n \<Longrightarrow> lo \<le> n \<and> n \<le> hi"
  by (auto simp: parse_signed_def in_range_def bind_eq_Some_conv split: list.splits if_splits)

lemma parse_signed_show_int:
  assumes "lo \<le> n" and "n \<le> hi"
  shows "parse_signed lo hi (show_int n) = Some n"
proof (cases "n < 0")
  case True
  with assms show ?thesis by (simp add: show_int_def parse_signed_def in_range_def)
next
  case False
  with assms show ?thesis by (simp add: show_int_def parse_signed_digits in_range_def)
qed

end
