(* ===== verification/Money.thy ===== *)
theory Money
  imports Ledger_Prelude "HOL-Library.Signed_Division"
begin

text \<open>
  Component \<open>money\<close> (\<open>src/money.rs\<close>): the currency allow-list, the parser from decimal
  strings to signed 64-bit minor units, and the printer back.  The \<open>i128\<close> locals of the code
  are \<open>int\<close>s with the release build's wrap-around; \<open>format_minor_units\<close> is \<open>None\<close> where the
  code divides by a factor that has wrapped to zero (a panic).
\<close>

section \<open>Currencies\<close>

record Currency =
  cur_code :: string
  cur_scale :: u8

definition CURRENCIES :: "Currency list" where
  "CURRENCIES =
     [\<lparr>cur_code = ''PLN'', cur_scale = 2\<rparr>,
      \<lparr>cur_code = ''EUR'', cur_scale = 2\<rparr>,
      \<lparr>cur_code = ''USD'', cur_scale = 2\<rparr>,
      \<lparr>cur_code = ''JPY'', cur_scale = 0\<rparr>]"

definition currency :: "string \<Rightarrow> Currency option" where
  "currency input =
     (let normalized = to_ascii_uppercase (trim input)
      in find (\<lambda>c. cur_code c = normalized) CURRENCIES)"

lemma currency_in_list: "currency s = Some c \<Longrightarrow> c \<in> set CURRENCIES"
  by (auto simp: currency_def find_Some_iff)

lemma currency_cases:
  assumes "currency s = Some c"
  shows "(cur_code c = ''PLN'' \<and> cur_scale c = 2) \<or> (cur_code c = ''EUR'' \<and> cur_scale c = 2)
       \<or> (cur_code c = ''USD'' \<and> cur_scale c = 2) \<or> (cur_code c = ''JPY'' \<and> cur_scale c = 0)"
  using currency_in_list [OF assms] by (auto simp: CURRENCIES_def)

section \<open>Parsing and printing minor units\<close>

datatype MoneyError = Malformed | TooManyFractionalDigits | Negative | Overflow

text \<open>The second half of \<open>parse_minor_units\<close>, once the two digit groups are separated.\<close>

definition scale_decimal :: "bool \<Rightarrow> string \<Rightarrow> string \<Rightarrow> u8 \<Rightarrow> MoneyError + i64" where
  "scale_decimal negative whole fractional scale =
     (if unat scale < length fractional then Inl TooManyFractionalDigits
      else
        let factor = pow10_i128 (unat scale) in
        case parse_i128 whole of
          None \<Rightarrow> Inl Overflow
        | Some whole_n \<Rightarrow>
            (case (if fractional = [] then Some 0
                   else map_option (\<lambda>f. wrap_i128 (f * pow10_i128 (unat scale - length fractional)))
                          (parse_i128 fractional)) of
               None \<Rightarrow> Inl Overflow
             | Some fractional_n \<Rightarrow>
                 (case Option.bind (checked_i128 (whole_n * factor))
                         (\<lambda>value. checked_i128 (value + fractional_n)) of
                    None \<Rightarrow> Inl Overflow
                  | Some amount \<Rightarrow>
                      (case i64_try_from (if negative then wrap_i128 (- amount) else amount) of
                         None \<Rightarrow> Inl Overflow
                       | Some result \<Rightarrow> Inr result))))"

definition parse_minor_units :: "string \<Rightarrow> u8 \<Rightarrow> MoneyError + i64" where
  "parse_minor_units input scale =
     (if input = [] \<or> trim input \<noteq> input then Inl Malformed
      else
        let (negative, digits) =
              (case strip_prefix ''-'' input of Some rest \<Rightarrow> (True, rest) | None \<Rightarrow> (False, input));
            (whole, fractional) =
              (case split_once CHR ''.'' digits of Some p \<Rightarrow> p | None \<Rightarrow> (digits, []))
        in
          if whole = [] \<or> (CHR ''.'' \<in> set digits \<and> fractional = [])
             \<or> \<not> list_all is_ascii_digit whole \<or> \<not> list_all is_ascii_digit fractional
             \<or> 1 < count_list digits CHR ''.''
          then Inl Malformed
          else scale_decimal negative whole fractional scale)"

definition parse_initial_balance :: "string \<Rightarrow> u8 \<Rightarrow> MoneyError + i64" where
  "parse_initial_balance input scale =
     (case parse_minor_units input scale of
        Inl e \<Rightarrow> Inl e
      | Inr amount \<Rightarrow> if sint amount < 0 then Inl Negative else Inr amount)"

definition format_minor_units :: "i64 \<Rightarrow> u8 \<Rightarrow> string option" where
  "format_minor_units amount scale =
     (let value = sint amount;
          negative = (value < 0);
          absolute = \<bar>value\<bar>;
          factor = pow10_i128 (unat scale)
      in if factor = 0 then None
         else
           let whole = absolute sdiv factor;
               fractional = absolute smod factor
           in Some ((if negative then ''-'' else [])
                    @ show_int whole
                    @ (if 0 < unat scale
                       then CHR ''.'' # pad_zeros (unat scale) (show_int fractional)
                       else [])))"

section \<open>What the grammar accepts\<close>

text \<open>
  A decimal numeral: an optional minus sign, at least one digit, and optionally a point
  followed by at least one digit.
\<close>

definition decimal_syntax :: "string \<Rightarrow> bool \<Rightarrow> string \<Rightarrow> string \<Rightarrow> bool" where
  "decimal_syntax s negative whole fractional \<longleftrightarrow>
     whole \<noteq> [] \<and> list_all is_ascii_digit whole \<and> list_all is_ascii_digit fractional \<and>
     s = (if negative then ''-'' else []) @ whole
         @ (if fractional = [] then [] else CHR ''.'' # fractional)"

text \<open>The exact value of a numeral in minor units of the given scale.\<close>

definition decimal_minor :: "bool \<Rightarrow> string \<Rightarrow> string \<Rightarrow> nat \<Rightarrow> int" where
  "decimal_minor negative whole fractional scale =
     (if negative then -1 else 1) *
     (int (digits_val whole) * 10 ^ scale
      + int (digits_val fractional) * 10 ^ (scale - length fractional))"

lemma digit_head_not_minus:
  assumes "whole \<noteq> []" and "list_all is_ascii_digit whole"
  shows "strip_prefix ''-'' (whole @ t) = None"
  using assms by (cases whole) (auto simp: strip_prefix_def)

lemma decimal_syntax_trim:
  assumes "decimal_syntax s negative whole fractional"
  shows "s \<noteq> []" and "trim s = s"
proof -
  let ?tail = "if fractional = [] then [] else CHR ''.'' # fractional"
  have s: "s = (if negative then ''-'' else []) @ whole @ ?tail"
    and w: "whole \<noteq> []" "list_all is_ascii_digit whole" "list_all is_ascii_digit fractional"
    using assms by (auto simp: decimal_syntax_def)
  then show "s \<noteq> []" by simp
  moreover have "is_visible_ascii (hd s)"
    using s w by (cases whole) (auto simp: is_visible_ascii_def is_ascii_digit_def)
  moreover have "is_visible_ascii (last s)"
  proof (cases "fractional = []")
    case True
    then have "last s = last whole" using s w by simp
    then show ?thesis using w by (auto simp: list_all_iff)
  next
    case False
    then have "last s = last fractional" using s w by simp
    then show ?thesis using w False by (auto simp: list_all_iff)
  qed
  ultimately show "trim s = s" by (rule trim_plain)
qed


lemma split_decimal_digits:
  assumes "whole \<noteq> []" and "list_all is_ascii_digit whole" and "list_all is_ascii_digit fractional"
  defines "digits \<equiv> whole @ (if fractional = [] then [] else CHR ''.'' # fractional)"
  shows "(case split_once CHR ''.'' digits of Some p \<Rightarrow> p | None \<Rightarrow> (digits, [])) = (whole, fractional)"
    and "CHR ''.'' \<in> set digits \<longleftrightarrow> fractional \<noteq> []"
    and "count_list digits CHR ''.'' \<le> 1"
proof -
  have w: "CHR ''.'' \<notin> set whole" and f: "CHR ''.'' \<notin> set fractional"
    using assms(2,3) by (auto dest: digits_not_in [where c = "CHR ''.''"])
  show "(case split_once CHR ''.'' digits of Some p \<Rightarrow> p | None \<Rightarrow> (digits, [])) = (whole, fractional)"
    using w by (auto simp: digits_def split_once_append split_once_None [THEN iffD2])
  show "CHR ''.'' \<in> set digits \<longleftrightarrow> fractional \<noteq> []"
    using w by (simp add: digits_def)
  show "count_list digits CHR ''.'' \<le> 1"
    using w f by (simp add: digits_def count_list_0_iff [THEN iffD2])
qed

lemma parse_decimal:
  assumes "decimal_syntax s negative whole fractional"
  shows "parse_minor_units s scale = scale_decimal negative whole fractional scale"
proof -
  let ?digits = "whole @ (if fractional = [] then [] else CHR ''.'' # fractional)"
  have s: "s = (if negative then ''-'' else []) @ ?digits"
    and w: "whole \<noteq> []" "list_all is_ascii_digit whole" "list_all is_ascii_digit fractional"
    using assms by (auto simp: decimal_syntax_def)
  have sign: "(case strip_prefix ''-'' s of Some rest \<Rightarrow> (True, rest) | None \<Rightarrow> (False, s)) = (negative, ?digits)"
  proof (cases negative)
    case True
    with s show ?thesis by (simp add: strip_prefix_def)
  next
    case False
    then have "strip_prefix ''-'' s = None" using s w digit_head_not_minus by simp
    with False s show ?thesis by simp
  qed
  note parts = split_decimal_digits [OF w]
  show ?thesis
    unfolding parse_minor_units_def Let_def sign split_conv parts(1)
    using decimal_syntax_trim [OF assms] w parts(2,3) by simp
qed

text \<open>Conversely, everything that is not a numeral is refused as malformed.\<close>

lemma parse_not_decimal:
  assumes "\<nexists>negative whole fractional. decimal_syntax s negative whole fractional"
  shows "parse_minor_units s scale = Inl Malformed"
proof (rule ccontr)
  assume ok: "parse_minor_units s scale \<noteq> Inl Malformed"
  obtain negative digits where
    sign: "(case strip_prefix ''-'' s of Some rest \<Rightarrow> (True, rest) | None \<Rightarrow> (False, s)) = (negative, digits)"
    by (cases "(case strip_prefix ''-'' s of Some rest \<Rightarrow> (True, rest) | None \<Rightarrow> (False, s))")
  obtain whole fractional where
    split: "(case split_once CHR ''.'' digits of Some p \<Rightarrow> p | None \<Rightarrow> (digits, [])) = (whole, fractional)"
    by (cases "(case split_once CHR ''.'' digits of Some p \<Rightarrow> p | None \<Rightarrow> (digits, []))")
  have w: "whole \<noteq> []" "list_all is_ascii_digit whole" "list_all is_ascii_digit fractional"
    and dot: "CHR ''.'' \<in> set digits \<longrightarrow> fractional \<noteq> []"
    using ok unfolding parse_minor_units_def Let_def sign split_conv split
    by (auto split: if_splits)
  have "s = (if negative then ''-'' else []) @ digits"
    using sign by (auto simp: strip_prefix_def prefix_def split: if_splits)
  moreover have "digits = whole @ (if fractional = [] then [] else CHR ''.'' # fractional)"
    using split dot by (cases "split_once CHR ''.'' digits") (auto simp: split_once_None dest: split_once_SomeD)
  ultimately have "decimal_syntax s negative whole fractional"
    using w by (simp add: decimal_syntax_def)
  with assms show False by blast
qed

lemma parse_minor_units_cases:
  obtains (malformed) "\<nexists>negative whole fractional. decimal_syntax s negative whole fractional"
      "parse_minor_units s scale = Inl Malformed"
  | (decimal) negative whole fractional where "decimal_syntax s negative whole fractional"
      "parse_minor_units s scale = scale_decimal negative whole fractional scale"
  using parse_decimal parse_not_decimal by blast


section \<open>Exactness\<close>

text \<open>
  For every scale up to 38 (the schema allows 0 to 18) no intermediate wraps, and the parser
  computes the exact value or reports an overflow.
\<close>

lemma out_of_i64:
  assumes "i128_max < v \<or> \<not> in_i128 v" and "0 \<le> v"
  shows "i64_try_from v = None" and "i64_try_from (- v) = None"
  using assms by (auto simp: i64_try_from_eq_None i64_min_def i64_max_def i128_max_def in_i128_def)

lemma fractional_part:
  assumes "list_all is_ascii_digit f" and "length f \<le> k" and "k \<le> 38"
  defines "g \<equiv> int (digits_val f) * 10 ^ (k - length f)"
  shows "(if f = [] then Some 0
          else map_option (\<lambda>x. wrap_i128 (x * pow10_i128 (k - length f))) (parse_i128 f)) = Some g"
    and "0 \<le> g" and "g < 10 ^ k"
proof -
  have F: "int (digits_val f) < 10 ^ length f"
    using digits_val_bound [OF assms(1)] by (metis of_nat_less_iff of_nat_numeral of_nat_power)
  have "(10::int) ^ length f \<le> 10 ^ 38" using assms(2,3) by (intro ten_power_mono) simp
  with F have "int (digits_val f) < 10 ^ 38" by linarith
  then have in128: "int (digits_val f) \<le> i128_max"
    by (simp add: i128_max_def)
  have "g < 10 ^ length f * 10 ^ (k - length f)"
    unfolding g_def using F by (intro mult_strict_right_mono) simp_all
  then show g: "g < 10 ^ k" using assms(2) by (simp flip: power_add)
  show "0 \<le> g" by (simp add: g_def)
  have "(10::int) ^ k \<le> 10 ^ 38" using assms(3) by (rule ten_power_mono)
  with g have "in_i128 g" using \<open>0 \<le> g\<close> by (simp add: in_i128_def i128_max_def)
  then show "(if f = [] then Some 0
          else map_option (\<lambda>x. wrap_i128 (x * pow10_i128 (k - length f))) (parse_i128 f)) = Some g"
    using assms(1,3) in128
    by (simp add: parse_i128_def parse_signed_digits in_range_def pow10_i128_small wrap_i128_id g_def)
qed

lemma scale_decimal_exact:
  assumes "whole \<noteq> []" and "list_all is_ascii_digit whole" and "list_all is_ascii_digit fractional"
    and "unat scale \<le> 38"
  shows "scale_decimal negative whole fractional scale =
    (if unat scale < length fractional then Inl TooManyFractionalDigits
     else case i64_try_from (decimal_minor negative whole fractional (unat scale)) of
            None \<Rightarrow> Inl Overflow
          | Some a \<Rightarrow> Inr a)"
proof (cases "unat scale < length fractional")
  case True
  then show ?thesis by (simp add: scale_decimal_def)
next
  case False
  define k W g where "k = unat scale" and "W = int (digits_val whole)"
    and "g = int (digits_val fractional) * 10 ^ (k - length fractional)"
  note fp = fractional_part [OF assms(3), of k, folded g_def]
  have k: "length fractional \<le> k" "k \<le> 38" using False assms(4) by (simp_all add: k_def)
  have pw: "(1::int) \<le> 10 ^ k" by simp
  have W: "0 \<le> W" "parse_i128 whole = in_range (- (2 ^ 127)) i128_max W"
    using assms(1,2) by (simp_all add: W_def parse_i128_def parse_signed_digits)
  have dm: "decimal_minor negative whole fractional k = (if negative then - (W * 10 ^ k + g) else W * 10 ^ k + g)"
    by (simp add: decimal_minor_def W_def g_def)
  have big: "W \<le> W * 10 ^ k" using W(1) pw mult_left_mono [OF pw W(1)] by simp
  show ?thesis
  proof (cases "W \<le> i128_max \<and> in_i128 (W * 10 ^ k) \<and> in_i128 (W * 10 ^ k + g)")
    case True
    have "0 \<le> W * 10 ^ k" using W(1) by simp
    with True have "in_i128 (- (W * 10 ^ k + g))"
      using fp(2) [OF k] unfolding in_i128_def i128_max_def by linarith
    then show ?thesis
      unfolding scale_decimal_def Let_def k_def [symmetric] fp(1) [OF k] dm
      using True False W k
      by (simp add: k_def [symmetric] in_range_def pow10_i128_small checked_i128_def wrap_i128_id)
  next
    case no: False
    have nn: "0 \<le> W * 10 ^ k + g" using W(1) fp(2) k by simp
    have "i128_max < W * 10 ^ k + g \<or> \<not> in_i128 (W * 10 ^ k + g)"
      using no big W(1) fp(2) k by (auto simp: in_i128_def i128_max_def)
    from out_of_i64 [OF this nn] have "i64_try_from (decimal_minor negative whole fractional k) = None"
      by (simp add: dm)
    then show ?thesis
      unfolding scale_decimal_def Let_def k_def [symmetric] fp(1) [OF k]
      using no False W k
      by (auto simp: k_def [symmetric] in_range_def pow10_i128_small checked_i128_def)
  qed
qed

text \<open>The printer on every scale up to 38.\<close>

lemma format_minor_units_exact:
  assumes "unat scale \<le> 38"
  shows "format_minor_units x scale =
     Some ((if sint x < 0 then ''-'' else [])
       @ show_nat (nat (\<bar>sint x\<bar> div 10 ^ unat scale))
       @ (if 0 < unat scale
          then CHR ''.'' # pad_zeros (unat scale) (show_nat (nat (\<bar>sint x\<bar> mod 10 ^ unat scale)))
          else []))"
  using assms
  by (simp add: format_minor_units_def pow10_i128_small Let_def show_int_nonneg
      pos_imp_zdiv_nonneg_iff signed_divide_int_def signed_modulo_int_def sgn_if)

lemma format_minor_units_total: "unat scale \<le> 38 \<Longrightarrow> format_minor_units x scale \<noteq> None"
  by (simp add: format_minor_units_exact)


lemma format_decimal_syntax:
  assumes "unat scale \<le> 38"
  obtains s whole fractional where "format_minor_units x scale = Some s"
    and "decimal_syntax s (sint x < 0) whole fractional" and "length fractional = unat scale"
    and "decimal_minor (sint x < 0) whole fractional (unat scale) = sint x"
proof -
  define k where "k = unat scale"
  define A where "A = \<bar>sint x\<bar>"
  define whole where "whole = show_nat (nat (A div 10 ^ k))"
  define fractional where
    "fractional = (if 0 < k then pad_zeros k (show_nat (nat (A mod 10 ^ k))) else [])"
  have A: "0 \<le> A" "A div 10 ^ k \<ge> 0" "A mod 10 ^ k \<ge> 0" "A mod 10 ^ k < 10 ^ k"
    by (simp_all add: A_def pos_imp_zdiv_nonneg_iff)
  have "nat (A mod 10 ^ k) < 10 ^ k"
    using A(3,4) by (simp add: nat_less_iff)
  then have len: "length fractional = k"
    by (auto simp: fractional_def intro!: pad_zeros_length show_nat_length_le)
  have "format_minor_units x scale =
    Some ((if sint x < 0 then ''-'' else []) @ whole
          @ (if fractional = [] then [] else CHR ''.'' # fractional))"
    using len by (auto simp: format_minor_units_exact [OF assms] whole_def fractional_def k_def A_def)
  moreover have "decimal_syntax ((if sint x < 0 then ''-'' else []) @ whole
          @ (if fractional = [] then [] else CHR ''.'' # fractional)) (sint x < 0) whole fractional"
    by (simp add: decimal_syntax_def whole_def fractional_def)
  moreover have "decimal_minor (sint x < 0) whole fractional k = sint x"
  proof -
    have "int (digits_val fractional) = A mod 10 ^ k"
      using A(3) by (auto simp: fractional_def)
    moreover have "int (digits_val whole) = A div 10 ^ k"
      using A(2) by (simp add: whole_def)
    ultimately have "decimal_minor (sint x < 0) whole fractional k = (if sint x < 0 then -1 else 1) * A"
      using len by (simp add: decimal_minor_def div_mult_mod_eq)
    then show ?thesis by (simp add: A_def)
  qed
  ultimately show thesis using that len by (simp add: k_def)
qed

lemma decimal_syntax_exact:
  assumes "decimal_syntax s negative whole fractional" and "unat scale \<le> 38"
  shows "scale_decimal negative whole fractional scale =
    (if unat scale < length fractional then Inl TooManyFractionalDigits
     else case i64_try_from (decimal_minor negative whole fractional (unat scale)) of
            None \<Rightarrow> Inl Overflow
          | Some a \<Rightarrow> Inr a)"
  using assms by (intro scale_decimal_exact) (auto simp: decimal_syntax_def)

section \<open>Properties\<close>

lemma format_parse:
  assumes "unat scale \<le> 38" and "format_minor_units x scale = Some s"
  shows "parse_minor_units s scale = Inr x"
proof -
  obtain s' w f where s': "format_minor_units x scale = Some s'"
    and d: "decimal_syntax s' (sint x < 0) w f" and "length f = unat scale"
    and "decimal_minor (sint x < 0) w f (unat scale) = sint x"
    by (rule format_decimal_syntax [OF assms(1)])
  moreover have "s' = s" using s' assms(2) by simp
  ultimately show ?thesis
    using assms(1) parse_decimal [of s _ w f scale] by (simp add: decimal_syntax_exact)
qed

lemma parse_Inr_iff:
  assumes "unat scale \<le> 38"
  shows "parse_minor_units s scale = Inr x \<longleftrightarrow>
    (\<exists>negative whole fractional. decimal_syntax s negative whole fractional
       \<and> length fractional \<le> unat scale
       \<and> sint x = decimal_minor negative whole fractional (unat scale))"
proof (cases rule: parse_minor_units_cases [of s scale])
  case malformed
  then show ?thesis by auto
next
  case (decimal n w f)
  have "parse_minor_units s scale = Inr x \<longleftrightarrow> length f \<le> unat scale \<and> sint x = decimal_minor n w f (unat scale)"
    if "decimal_syntax s n w f" for n w f
    using that assms
    by (auto simp: parse_decimal [OF that] decimal_syntax_exact i64_try_from_eq_Some [symmetric]
        split: option.splits)
  with decimal(1) show ?thesis by blast
qed


text \<open>
  C25: Printing an \<open>i64\<close> amount at any scale up to 38 never panics, and parsing the printed
  numeral at the same scale gives the amount back, negative amounts and \<open>i64::MIN\<close> included.
\<close>

theorem money_format_parse_roundtrip:
  assumes "unat scale \<le> 38"
  shows "\<exists>s. format_minor_units x scale = Some s \<and> parse_minor_units s scale = Inr x"
  using format_minor_units_total [OF assms, of x] format_parse [OF assms] by auto

theorem money_format_parse_roundtrip_witness:
  "format_minor_units (-1) 2 = Some ''-0.01'' \<and> parse_minor_units ''-0.01'' 2 = Inr (-1)"
proof -
  have f: "format_minor_units (-1) 2 = Some ''-0.01''"
    by (simp add: format_minor_units_exact pad_zeros_def show_nat.simps text_simps)
  show ?thesis using money_format_parse_roundtrip [of 2 "-1"] f by simp
qed

text \<open>
  C26: Parsing never rounds: it succeeds exactly on the decimal numerals with at most \<open>scale\<close>
  fractional digits whose exact value in minor units is a signed 64-bit integer, and returns
  that value.
\<close>

theorem parse_minor_units_exact:
  assumes "unat scale \<le> 38"
  shows "parse_minor_units s scale = Inr x \<longleftrightarrow>
    (\<exists>negative whole fractional. decimal_syntax s negative whole fractional
       \<and> length fractional \<le> unat scale
       \<and> sint x = decimal_minor negative whole fractional (unat scale))"
  using assms by (rule parse_Inr_iff)

theorem parse_minor_units_exact_witness:
  "parse_minor_units ''10.2'' 2 = Inr 1020"
proof -
  have "decimal_syntax ''10.2'' False ''10'' ''2'' \<and> length ''2'' \<le> unat (2::u8)
     \<and> sint (1020::i64) = decimal_minor False ''10'' ''2'' (unat (2::u8))"
    by (simp add: decimal_syntax_def decimal_minor_def is_ascii_digit_def digits_val_def digit_value_def)
  then show ?thesis using parse_minor_units_exact [of 2 "''10.2''" 1020] by auto
qed

text \<open>
  Every rejection has its own cause: \<open>Malformed\<close> exactly outside the grammar,
  \<open>TooManyFractionalDigits\<close> exactly when the numeral is finer than the scale, \<open>Overflow\<close>
  exactly when the value leaves the \<open>i64\<close> range; \<open>parse_minor_units\<close> never answers \<open>Negative\<close>.
\<close>

theorem parse_minor_units_errors:
  assumes "unat scale \<le> 38"
  shows "(parse_minor_units s scale = Inl Malformed \<longleftrightarrow> (\<nexists>n w f. decimal_syntax s n w f))
    \<and> (parse_minor_units s scale = Inl TooManyFractionalDigits \<longleftrightarrow>
         (\<exists>n w f. decimal_syntax s n w f \<and> unat scale < length f))
    \<and> (parse_minor_units s scale = Inl Overflow \<longleftrightarrow>
         (\<exists>n w f. decimal_syntax s n w f \<and> length f \<le> unat scale
            \<and> (decimal_minor n w f (unat scale) < i64_min \<or> i64_max < decimal_minor n w f (unat scale))))
    \<and> parse_minor_units s scale \<noteq> Inl Negative"
proof (cases rule: parse_minor_units_cases [of s scale])
  case malformed
  then show ?thesis by auto
next
  case (decimal n w f)
  have "(parse_minor_units s scale = Inl TooManyFractionalDigits \<longleftrightarrow> unat scale < length f)
    \<and> (parse_minor_units s scale = Inl Overflow \<longleftrightarrow> length f \<le> unat scale
         \<and> (decimal_minor n w f (unat scale) < i64_min \<or> i64_max < decimal_minor n w f (unat scale)))
    \<and> parse_minor_units s scale \<noteq> Inl Malformed \<and> parse_minor_units s scale \<noteq> Inl Negative"
    if "decimal_syntax s n w f" for n w f
    using that assms
    by (auto simp: parse_decimal [OF that] decimal_syntax_exact i64_try_from_eq_None [symmetric]
        split: option.splits)
  with decimal(1) show ?thesis by blast
qed

theorem parse_minor_units_errors_witness:
  "parse_minor_units ''1.'' 2 = Inl Malformed \<and> parse_minor_units ''1.001'' 2 = Inl TooManyFractionalDigits
   \<and> parse_minor_units ''92233720368547758.08'' 2 = Inl Overflow"
proof -
  have "decimal_syntax ''1.001'' False ''1'' ''001'' \<and> unat (2::u8) < length ''001''"
    and "decimal_syntax ''92233720368547758.08'' False ''92233720368547758'' ''08''
       \<and> length ''08'' \<le> unat (2::u8)
       \<and> i64_max < decimal_minor False ''92233720368547758'' ''08'' (unat (2::u8))"
    by (simp_all add: decimal_syntax_def decimal_minor_def is_ascii_digit_def digits_val_def
        digit_value_def i64_max_def)
  moreover have "parse_minor_units ''1.'' 2 = Inl Malformed"
    by (rule parse_not_decimal)
      (auto simp: decimal_syntax_def Cons_eq_append_conv append_eq_Cons_conv split: if_splits)
  moreover have s: "unat (2::u8) \<le> 38" by simp
  ultimately show ?thesis
    using parse_minor_units_errors [OF s, of "''1.001''"]
      parse_minor_units_errors [OF s, of "''92233720368547758.08''"] by metis
qed

lemma parse_initial_balance_Inr:
  "parse_initial_balance s scale = Inr x \<longleftrightarrow> parse_minor_units s scale = Inr x \<and> 0 \<le> sint x"
  by (auto simp: parse_initial_balance_def not_less split: sum.splits if_splits)

end
