(* ===== verification/Fx.thy ===== *)
theory Fx
  imports Money
begin

text \<open>
  Component \<open>fx\<close>, arithmetic half (\<open>src/fx.rs\<close>): exact decimal rates, the half-up division,
  the fee and the destination amount.  \<open>BigInt\<close> is \<open>int\<close>; its division truncates (\<open>sdiv\<close>,
  \<open>smod\<close>).  The selection of the rate and the fee rule is in theory \<open>Fx_Configuration\<close>.
\<close>

section \<open>Rates and rounding\<close>

datatype ArithmeticError =
    InvalidRate | InvalidScale | InvalidAmount | ArithmeticOverflow | DestinationTooSmall

record ExactRate =
  coefficient :: int
  rate_scale :: u8

definition parse_exact_rate :: "string \<Rightarrow> ArithmeticError + ExactRate" where
  "parse_exact_rate input =
     (let (whole, fractional) =
            (case split_once CHR ''.'' input of Some p \<Rightarrow> p | None \<Rightarrow> (input, []))
      in
        if whole = [] \<or> \<not> list_all is_ascii_digit whole \<or> \<not> list_all is_ascii_digit fractional
           \<or> 18 < length whole \<or> 12 < length fractional \<or> 30 < length whole + length fractional
           \<or> 1 < count_list input CHR ''.''
        then Inl InvalidRate
        else
          (case parse_digits (whole @ fractional) of
             None \<Rightarrow> Inl InvalidRate
           | Some n \<Rightarrow>
               if int n \<le> 0 then Inl InvalidRate
               else Inr \<lparr>coefficient = int n, rate_scale = of_nat (length fractional)\<rparr>))"

definition pow10 :: "u8 \<Rightarrow> int" where
  "pow10 scale = 10 ^ unat scale"

definition half_up_divide :: "int \<Rightarrow> int \<Rightarrow> ArithmeticError + int" where
  "half_up_divide numerator denominator =
     (if denominator \<le> 0 then Inl InvalidAmount
      else
        let quotient = numerator sdiv denominator;
            remainder = numerator smod denominator
        in Inr (if denominator \<le> remainder * 2 then quotient + 1 else quotient))"

section \<open>Fees and destination amounts\<close>

record FeeCalculation =
  fee_minor :: i64
  total_source_debit_minor :: i64

definition calculate_fee :: "i64 \<Rightarrow> i32 \<Rightarrow> ArithmeticError + FeeCalculation" where
  "calculate_fee source_minor fee_bps =
     (if sint source_minor \<le> 0 \<or> \<not> (0 \<le> sint fee_bps \<and> sint fee_bps \<le> 10000) then Inl InvalidAmount
      else
        (case half_up_divide (sint source_minor * sint fee_bps) 10000 of
           Inl e \<Rightarrow> Inl e
         | Inr fee \<Rightarrow>
             (case i64_try_from fee of
                None \<Rightarrow> Inl ArithmeticOverflow
              | Some fee \<Rightarrow>
                  (case checked_add_i64 source_minor fee of
                     None \<Rightarrow> Inl ArithmeticOverflow
                   | Some debit \<Rightarrow> Inr \<lparr>fee_minor = fee, total_source_debit_minor = debit\<rparr>))))"

definition calculate_destination :: "i64 \<Rightarrow> u8 \<Rightarrow> u8 \<Rightarrow> ExactRate \<Rightarrow> ArithmeticError + i64" where
  "calculate_destination source_minor source_scale destination_scale rate =
     (if sint source_minor \<le> 0 then Inl InvalidAmount
      else if 18 < unat source_scale \<or> 18 < unat destination_scale then Inl InvalidScale
      else
        let numerator = sint source_minor * coefficient rate * pow10 destination_scale;
            denominator = pow10 (rate_scale rate) * pow10 source_scale
        in
          (case half_up_divide numerator denominator of
             Inl e \<Rightarrow> Inl e
           | Inr rounded \<Rightarrow>
               if rounded = 0 then Inl DestinationTooSmall
               else (case i64_try_from rounded of
                       None \<Rightarrow> Inl ArithmeticOverflow
                     | Some amount \<Rightarrow> Inr amount)))"

section \<open>Half-up rounding\<close>

text \<open>The reference: the integer nearest to \<open>n / d\<close>, a tie rounded up.\<close>

definition half_up :: "int \<Rightarrow> int \<Rightarrow> int" where
  "half_up n d = (2 * n + d) div (2 * d)"

lemma half_up_nearest:
  assumes "0 < d"
  shows "2 * d * half_up n d \<le> 2 * n + d" and "2 * n + d < 2 * d * (half_up n d + 1)"
proof -
  have "(2 * n + d) mod (2 * d) = 2 * n + d - 2 * d * half_up n d"
    by (simp add: half_up_def minus_mult_div_eq_mod)
  moreover have "0 \<le> (2 * n + d) mod (2 * d)" "(2 * n + d) mod (2 * d) < 2 * d"
    using assms by simp_all
  ultimately show "2 * d * half_up n d \<le> 2 * n + d" "2 * n + d < 2 * d * (half_up n d + 1)"
    by (simp_all add: algebra_simps)
qed

lemma half_up_unique:
  assumes "0 < d" and "2 * d * q \<le> 2 * n + d" and "2 * n + d < 2 * d * (q + 1)"
  shows "half_up n d = q"
proof -
  have "2 * d * q < 2 * d * (half_up n d + 1)" "2 * d * half_up n d < 2 * d * (q + 1)"
    using assms half_up_nearest [OF assms(1), of n] by linarith+
  then show ?thesis using assms(1) by simp
qed

lemma half_up_nonneg: "0 \<le> n \<Longrightarrow> 0 < d \<Longrightarrow> 0 \<le> half_up n d"
  by (simp add: half_up_def pos_imp_zdiv_nonneg_iff)

lemma half_up_mono: "n \<le> m \<Longrightarrow> 0 < d \<Longrightarrow> half_up n d \<le> half_up m d"
  by (simp add: half_up_def zdiv_mono1)

lemma half_up_exact: "0 < d \<Longrightarrow> half_up (q * d) d = q"
  by (rule half_up_unique) (simp_all add: algebra_simps)

lemma half_up_divide_eq:
  assumes "0 \<le> n" and "0 < d"
  shows "half_up_divide n d = Inr (half_up n d)"
proof -
  have nd: "n sdiv d = n div d" "n smod d = n mod d"
    using assms by (cases "n = 0"; simp add: signed_divide_int_def signed_modulo_int_def minus_mult_div_eq_mod [symmetric] mult.commute)+
  have m: "0 \<le> n mod d" "n mod d < d" "n = d * (n div d) + n mod d"
    using assms(2) by simp_all
  have "half_up n d = (if d \<le> n mod d * 2 then n div d + 1 else n div d)"
  proof (rule half_up_unique [OF assms(2)])
    have "2 * n = 2 * d * (n div d) + 2 * (n mod d)" using m(3) by (metis distrib_left mult.assoc)
    then show "2 * d * (if d \<le> n mod d * 2 then n div d + 1 else n div d) \<le> 2 * n + d"
      and "2 * n + d < 2 * d * ((if d \<le> n mod d * 2 then n div d + 1 else n div d) + 1)"
      using m(1,2) by (auto simp: algebra_simps)
  qed
  then show ?thesis using assms(2) by (simp add: half_up_divide_def nd)
qed


lemma half_up_scale: "0 < k \<Longrightarrow> half_up (k * n) (k * d) = half_up n d"
proof -
  have "2 * (k * n) + k * d = k * (2 * n + d)" and "2 * (k * d) = k * (2 * d)"
    by (simp_all add: algebra_simps)
  moreover assume "0 < k"
  ultimately show ?thesis unfolding half_up_def by simp
qed

section \<open>The fee\<close>

lemma fee_le_source:
  assumes "0 \<le> s" and "0 \<le> b" and "b \<le> 10000"
  shows "0 \<le> half_up (s * b) 10000" and "half_up (s * b) 10000 \<le> s"
proof -
  show "0 \<le> half_up (s * b) 10000" using assms by (simp add: half_up_nonneg)
  have "half_up (s * b) 10000 \<le> half_up (s * 10000) 10000"
    using assms by (intro half_up_mono mult_left_mono) simp_all
  then show "half_up (s * b) 10000 \<le> s" using half_up_exact [of 10000 s] by simp
qed

lemma calculate_fee_eq:
  assumes "0 < sint s" and "0 \<le> sint b" and "sint b \<le> 10000"
  shows "calculate_fee s b =
    (case i64_try_from (sint s + half_up (sint s * sint b) 10000) of
       None \<Rightarrow> Inl ArithmeticOverflow
     | Some debit \<Rightarrow> Inr \<lparr>fee_minor = word_of_int (half_up (sint s * sint b) 10000),
                          total_source_debit_minor = debit\<rparr>)"
proof -
  define fee where "fee = half_up (sint s * sint b) 10000"
  have "0 \<le> fee" "fee \<le> sint s" using fee_le_source [of "sint s" "sint b"] assms by (simp_all add: fee_def)
  then have r: "i64_min \<le> fee" "fee \<le> i64_max"
    using sint_i64_le [of s] by (simp_all add: i64_min_def)
  then have "i64_try_from fee = Some (word_of_int fee)" by (simp add: i64_try_from_def)
  then show ?thesis
    using assms r
    by (simp add: calculate_fee_def half_up_divide_eq fee_def [symmetric] checked_add_i64_def
        sint_word_of_int_i64 split: option.splits)
qed

lemma calculate_fee_Inr:
  "calculate_fee s b = Inr f \<longleftrightarrow>
     0 < sint s \<and> 0 \<le> sint b \<and> sint b \<le> 10000
     \<and> sint (fee_minor f) = half_up (sint s * sint b) 10000
     \<and> sint (total_source_debit_minor f) = sint s + half_up (sint s * sint b) 10000"
  (is "?l \<longleftrightarrow> ?r")
proof (cases "0 < sint s \<and> 0 \<le> sint b \<and> sint b \<le> 10000")
  case True
  define fee where "fee = half_up (sint s * sint b) 10000"
  have "0 \<le> fee" "fee \<le> sint s" using fee_le_source [of "sint s" "sint b"] True by (simp_all add: fee_def)
  then have f: "sint (word_of_int fee :: i64) = fee"
    using sint_i64_le [of s] by (intro sint_word_of_int_i64) (simp_all add: i64_min_def)
  have "fee_minor f = word_of_int fee \<longleftrightarrow> sint (fee_minor f) = fee"
    using f by (metis signed_word_eqI)
  then show ?thesis
    using True by (cases f) (auto simp: calculate_fee_eq fee_def i64_try_from_eq_Some [symmetric] split: option.splits)
next
  case False
  then show ?thesis by (auto simp: calculate_fee_def)
qed

section \<open>The destination amount\<close>

text \<open>The exact conversion as a fraction of integers.\<close>

definition conversion :: "int \<Rightarrow> nat \<Rightarrow> nat \<Rightarrow> ExactRate \<Rightarrow> int \<times> int" where
  "conversion s source_scale destination_scale rate =
     (s * coefficient rate * 10 ^ destination_scale, 10 ^ unat (rate_scale rate) * 10 ^ source_scale)"

lemma calculate_destination_Inr:
  assumes "0 < coefficient rate"
  shows "calculate_destination s ss ds rate = Inr d \<longleftrightarrow>
     0 < sint s \<and> unat ss \<le> 18 \<and> unat ds \<le> 18 \<and> 0 < sint d
     \<and> sint d = half_up (fst (conversion (sint s) (unat ss) (unat ds) rate))
                        (snd (conversion (sint s) (unat ss) (unat ds) rate))"
proof (cases "0 < sint s \<and> unat ss \<le> 18 \<and> unat ds \<le> 18")
  case True
  let ?n = "fst (conversion (sint s) (unat ss) (unat ds) rate)"
  let ?d = "snd (conversion (sint s) (unat ss) (unat ds) rate)"
  have nd: "0 \<le> ?n" "0 < ?d" using True assms by (simp_all add: conversion_def)
  have "calculate_destination s ss ds rate =
     (if half_up ?n ?d = 0 then Inl DestinationTooSmall
      else case i64_try_from (half_up ?n ?d) of None \<Rightarrow> Inl ArithmeticOverflow | Some a \<Rightarrow> Inr a)"
    using True half_up_divide_eq [OF nd]
    by (simp add: calculate_destination_def conversion_def pow10_def Let_def)
  then show ?thesis
    using True half_up_nonneg [OF nd]
    by (auto simp: i64_try_from_eq_Some [symmetric] split: option.splits)
      (auto simp: i64_try_from_eq_Some)
next
  case False
  then show ?thesis by (auto simp: calculate_destination_def)
qed

section \<open>Rates\<close>

lemma parse_exact_rate_Inr:
  assumes "parse_exact_rate s = Inr r"
  shows "0 < coefficient r" and "coefficient r < 10 ^ 30" and "unat (rate_scale r) \<le> 12"
proof -
  obtain w f where wf: "(case split_once CHR ''.'' s of Some p \<Rightarrow> p | None \<Rightarrow> (s, [])) = (w, f)"
    by (cases "(case split_once CHR ''.'' s of Some p \<Rightarrow> p | None \<Rightarrow> (s, []))")
  have *: "list_all is_ascii_digit (w @ f)" "length f \<le> 12" "length (w @ f) \<le> 30"
    "0 < int (digits_val (w @ f))"
    "r = \<lparr>coefficient = int (digits_val (w @ f)), rate_scale = of_nat (length f)\<rparr>"
    using assms unfolding parse_exact_rate_def Let_def wf
    by (auto simp: parse_digits_def split: if_splits)
  have "digits_val (w @ f) < 10 ^ length (w @ f)" using *(1) by (rule digits_val_bound)
  also have "(10::nat) ^ length (w @ f) \<le> 10 ^ 30" using *(3) by (intro power_increasing) simp_all
  finally have "int (digits_val (w @ f)) < 10 ^ 30" by simp
  then show "coefficient r < 10 ^ 30" and "0 < coefficient r" using * by simp_all
  show "unat (rate_scale r) \<le> 12" using * by (simp add: unat_of_nat)
qed

text \<open>How PostgreSQL prints a \<open>NUMERIC(30, 12)\<close> column: twelve fractional digits.\<close>

definition numeric_text :: "int \<Rightarrow> string" where
  "numeric_text c =
     show_nat (nat (c div 10 ^ 12)) @ CHR ''.'' # pad_zeros 12 (show_nat (nat (c mod 10 ^ 12)))"

lemma parse_numeric_text:
  assumes "0 < c" and "c < 10 ^ 30"
  shows "parse_exact_rate (numeric_text c) = Inr \<lparr>coefficient = c, rate_scale = 12\<rparr>"
proof -
  define w f where "w = show_nat (nat (c div 10 ^ 12))" and "f = pad_zeros 12 (show_nat (nat (c mod 10 ^ 12)))"
  have t: "numeric_text c = w @ CHR ''.'' # f" by (simp add: numeric_text_def w_def f_def)
  have digits: "w \<noteq> []" "list_all is_ascii_digit w" "list_all is_ascii_digit f"
    by (simp_all add: w_def f_def)
  have "nat (c mod 10 ^ 12) < 10 ^ 12" by (simp add: nat_less_iff)
  then have lf: "length f = 12" by (auto simp: f_def intro!: pad_zeros_length show_nat_length_le)
  have "c div 10 ^ 12 < 10 ^ 18" using assms(2) by simp
  then have lw: "length w \<le> 18"
    by (auto simp: w_def nat_less_iff intro!: show_nat_length_le)
  have "int (digits_val (w @ f)) = (c div 10 ^ 12) * 10 ^ 12 + c mod 10 ^ 12"
    using assms(1) lf by (simp add: digits_val_append w_def f_def pos_imp_zdiv_nonneg_iff)
  then have val: "int (digits_val (w @ f)) = c" by simp
  have dots: "CHR ''.'' \<notin> set w" "CHR ''.'' \<notin> set f"
    using digits by (auto dest: digits_not_in [where c = "CHR ''.''"])
  then have "split_once CHR ''.'' (numeric_text c) = Some (w, f)"
    and "count_list (numeric_text c) CHR ''.'' = 1"
    by (simp_all add: t split_once_append count_list_0_iff [THEN iffD2])
  then show ?thesis
    using digits lf lw val assms by (simp add: parse_exact_rate_def parse_digits_def del: digits_val_pad)
qed


section \<open>Properties\<close>

text \<open>
  C19: \<open>calculate_fee\<close> on every input: the guard errors exactly outside a positive principal
  and 0 to 10000 basis points; the overflow error exactly when principal plus fee leaves
  \<open>i64\<close>; otherwise the fee is principal times basis points over 10000 rounded half-up once,
  lies between 0 and the principal, and the total debit is the exact sum.
\<close>

theorem calculate_fee_spec:
  "(calculate_fee s b = Inl InvalidAmount \<longleftrightarrow> sint s \<le> 0 \<or> sint b < 0 \<or> 10000 < sint b)
   \<and> (calculate_fee s b = Inl ArithmeticOverflow \<longleftrightarrow>
        0 < sint s \<and> 0 \<le> sint b \<and> sint b \<le> 10000
        \<and> i64_max < sint s + half_up (sint s * sint b) 10000)
   \<and> (\<forall>f. calculate_fee s b = Inr f \<longleftrightarrow>
        0 < sint s \<and> 0 \<le> sint b \<and> sint b \<le> 10000
        \<and> sint (fee_minor f) = half_up (sint s * sint b) 10000
        \<and> 0 \<le> sint (fee_minor f) \<and> sint (fee_minor f) \<le> sint s
        \<and> sint (total_source_debit_minor f) = sint s + sint (fee_minor f))"
proof (cases "0 < sint s \<and> 0 \<le> sint b \<and> sint b \<le> 10000")
  case True
  then have fee: "0 \<le> half_up (sint s * sint b) 10000" "half_up (sint s * sint b) 10000 \<le> sint s"
    using fee_le_source by simp_all
  then have "i64_min \<le> sint s + half_up (sint s * sint b) 10000"
    using True by (simp add: i64_min_def)
  with True fee show ?thesis
    by (auto simp: calculate_fee_Inr)
      (auto simp: calculate_fee_eq i64_try_from_eq_None i64_try_from_def not_less split: option.splits if_splits)
next
  case False
  then show ?thesis by (auto simp: calculate_fee_Inr) (auto simp: calculate_fee_def)
qed

text \<open>
  C18: With a rate the service parsed, a conversion succeeds exactly for a positive amount and
  scales up to 18 whose quotient, rounded half-up once at the final division, is a positive
  \<open>i64\<close>; it is then within half a minor unit of the exact rational value, whatever the size
  of the intermediates.
\<close>

theorem calculate_destination_spec:
  assumes "parse_exact_rate text = Inr rate"
  defines "n \<equiv> \<lambda>s ss ds. fst (conversion (sint s) (unat ss) (unat ds) rate)"
    and "d \<equiv> \<lambda>s ss ds. snd (conversion (sint s) (unat ss) (unat ds) rate)"
  shows "calculate_destination s ss ds rate = Inr a \<longleftrightarrow>
       0 < sint s \<and> unat ss \<le> 18 \<and> unat ds \<le> 18 \<and> 0 < sint a
       \<and> 2 * d s ss ds * sint a \<le> 2 * n s ss ds + d s ss ds
       \<and> 2 * n s ss ds + d s ss ds < 2 * d s ss ds * (sint a + 1)"
proof -
  have "0 < d s ss ds" by (simp add: d_def conversion_def)
  then have "sint a = half_up (n s ss ds) (d s ss ds) \<longleftrightarrow>
       2 * d s ss ds * sint a \<le> 2 * n s ss ds + d s ss ds
       \<and> 2 * n s ss ds + d s ss ds < 2 * d s ss ds * (sint a + 1)"
    using half_up_nearest half_up_unique by metis
  then show ?thesis
    using calculate_destination_Inr [OF parse_exact_rate_Inr(1) [OF assms(1)], of s ss ds a]
    by (simp add: n_def d_def)
qed

lemma parse_half: "parse_exact_rate ''0.5'' = Inr \<lparr>coefficient = 5, rate_scale = 1\<rparr>"
  by (simp add: parse_exact_rate_def split_once_def parse_digits_def is_ascii_digit_def
      digits_val_def digit_value_def)

theorem calculate_destination_spec_witness:
  "calculate_destination 1 0 0 \<lparr>coefficient = 5, rate_scale = 1\<rparr> = Inr 1"
  using calculate_destination_spec [OF parse_half, of 1 0 0 1] by (simp add: conversion_def)

text \<open>
  A positive rate stored in the \<open>NUMERIC(30, 12)\<close> column is always accepted back, with
  its exact coefficient, so a persisted rate never makes a transfer fail as an invalid
  configuration.
\<close>

lemma persisted_rate_parses:
  assumes "0 < c" and "c < 10 ^ 30"
  shows "parse_exact_rate (numeric_text c) = Inr \<lparr>coefficient = c, rate_scale = 12\<rparr>"
  using assms by (rule parse_numeric_text)

lemma persisted_rate_parses_witness:
  "parse_exact_rate (numeric_text 1083500000000) = Inr \<lparr>coefficient = 1083500000000, rate_scale = 12\<rparr>"
  by (rule persisted_rate_parses) simp_all

text \<open>
  Trailing zeros of a rate carry no money: a coefficient and scale multiplied by the same
  power of ten convert every amount to the same result.
\<close>

lemma conversion_ignores_trailing_zeros:
  assumes "0 < coefficient r" and "unat (rate_scale r') = unat (rate_scale r) + z"
    and "coefficient r' = coefficient r * 10 ^ z"
  shows "calculate_destination s ss ds r' = calculate_destination s ss ds r"
proof (cases "0 < sint s \<and> unat ss \<le> 18 \<and> unat ds \<le> 18")
  case True
  define n d where "n = sint s * coefficient r * 10 ^ unat ds"
    and "d = 10 ^ unat (rate_scale r) * (10::int) ^ unat ss"
  have nd: "0 \<le> n" "0 < d" "0 \<le> 10 ^ z * n" "0 < 10 ^ z * d"
    using True assms(1) by (simp_all add: n_def d_def)
  have num: "sint s * coefficient r' * 10 ^ unat ds = 10 ^ z * n"
    and den: "10 ^ unat (rate_scale r') * 10 ^ unat ss = 10 ^ z * d"
    using assms(2,3) by (simp_all add: n_def d_def power_add mult_ac)
  have "half_up_divide (10 ^ z * n) (10 ^ z * d) = half_up_divide n d"
    using nd half_up_scale [of "10 ^ z" n d] by (simp add: half_up_divide_eq)
  then show ?thesis
    unfolding calculate_destination_def pow10_def Let_def num den
    by (simp only: n_def [symmetric] d_def [symmetric])
next
  case False
  then show ?thesis by (auto simp: calculate_destination_def)
qed

lemma conversion_ignores_trailing_zeros_witness:
  "calculate_destination 100 2 2 \<lparr>coefficient = 1250, rate_scale = 3\<rparr>
     = calculate_destination 100 2 2 \<lparr>coefficient = 125, rate_scale = 2\<rparr>"
  by (rule conversion_ignores_trailing_zeros [where z = 1]) simp_all

end
