(* ===== verification/Json.thy ===== *)
theory Json
  imports Ledger_Prelude "HOL-Library.List_Lexorder" "HOL-Library.Char_ord"
begin

text \<open>
  Response bodies: \<open>serde_json::Value\<close>, and the serialisation of a \<open>#[derive(Serialize)]\<close>
  struct.  \<open>serde_json\<close>'s map is a \<open>BTreeMap\<close>, so an object lists its members in the byte
  order of their names; the \<open>jsonb\<close> column stores a value and gives the same value back.
\<close>

datatype Value =
    JNull | JBool bool | JNumber int | JString string
  | JArray "Value list" | JObject "(string \<times> Value) list"

text \<open>A struct with named fields; an \<open>Option\<close> field is \<open>null\<close> when absent.\<close>

definition to_value :: "(string \<times> Value) list \<Rightarrow> Value" where
  "to_value fields = JObject (sort_key fst fields)"

definition opt_value :: "('a \<Rightarrow> Value) \<Rightarrow> 'a option \<Rightarrow> Value" where
  "opt_value f x = (case x of None \<Rightarrow> JNull | Some a \<Rightarrow> f a)"

definition json_get :: "string \<Rightarrow> Value \<Rightarrow> Value option" where
  "json_get name v = (case v of JObject fields \<Rightarrow> map_of fields name | _ \<Rightarrow> None)"

text \<open>
  Reading a member of a serialised struct back: field order does not matter as long as the
  field names are distinct, which they are in every response type.
\<close>

lemma map_of_sort_key:
  assumes "distinct (map fst fields)"
  shows "map_of (sort_key fst fields) = map_of fields"
proof -
  have "distinct (map fst (sort_key fst fields))"
    using assms by (simp add: distinct_map)
  moreover have "set (sort_key fst fields) = set fields" by simp
  ultimately show ?thesis using assms by (metis map_of_inject_set)
qed

lemma json_get_to_value [text_simps]:
  "distinct (map fst fields) \<Longrightarrow> json_get name (to_value fields) = map_of fields name"
  by (simp add: json_get_def to_value_def map_of_sort_key)

end
