(* ===== verification/Observability.thy ===== *)
theory Observability
  imports Json
begin

text \<open>
  Component \<open>observability\<close> (\<open>src/observability.rs\<close>): the label enumerations of the metrics, the
  metrics the handlers record (a counter increment or a histogram sample, with its labels; the
  measured durations are not modelled), request identifiers and the HTTP labels.
  \<open>TransactionObservation\<close> is in theory \<open>Txn\<close>, beside the transaction it observes.
\<close>

section \<open>Label enumerations\<close>

datatype FinancialOperation = Operation_Transfer | Operation_FxTransfer | Operation_Reversal

datatype TerminalOutcome = Terminal_Success | Terminal_Rejected | Terminal_InternalError

datatype PoolAcquireOutcome = Pool_Success | Pool_Failure

datatype ReadinessOutcome = Readiness_Ready | Readiness_NotReady

datatype ReadinessReason =
  Readiness_None | Readiness_DatabaseUnavailable | Readiness_InternalError

datatype IdempotencyOutcome = Idempotency_Owner | Idempotency_Replay | Idempotency_Conflict

datatype FinancialReason =
    Reason_None | Reason_InternalError | Reason_SameSourceAndDestination
  | Reason_AccountUnavailable | Reason_InsufficientFunds | Reason_RateUnavailable
  | Reason_RateConfigurationAmbiguous | Reason_FeeRuleUnavailable
  | Reason_FeeRuleConfigurationAmbiguous | Reason_DestinationAmountTooSmall
  | Reason_IdempotencyConflict | Reason_ReversalOfReversal | Reason_TransferAlreadyReversed
  | Reason_ArithmeticOverflow | Reason_MalformedAmount | Reason_TooManyFractionalDigits
  | Reason_NonPositiveAmount | Reason_AmountOverflow | Reason_MalformedAccountId
  | Reason_MalformedTransferId | Reason_InvalidJson | Reason_NotFound | Reason_BadRequest
  | Reason_Unauthorized | Reason_Forbidden | Reason_Conflict | Reason_ServiceUnavailable
  | Reason_InvalidRequest

definition pool_acquire_as_str :: "PoolAcquireOutcome \<Rightarrow> string" where
  "pool_acquire_as_str x = (case x of Pool_Success \<Rightarrow> ''success'' | Pool_Failure \<Rightarrow> ''failure'')"

definition readiness_outcome_as_str :: "ReadinessOutcome \<Rightarrow> string" where
  "readiness_outcome_as_str x =
     (case x of Readiness_Ready \<Rightarrow> ''ready'' | Readiness_NotReady \<Rightarrow> ''not_ready'')"

definition readiness_reason_as_str :: "ReadinessReason \<Rightarrow> string" where
  "readiness_reason_as_str x =
     (case x of Readiness_None \<Rightarrow> ''none''
      | Readiness_DatabaseUnavailable \<Rightarrow> ''database_unavailable''
      | Readiness_InternalError \<Rightarrow> ''internal_error'')"

definition terminal_outcome_as_str :: "TerminalOutcome \<Rightarrow> string" where
  "terminal_outcome_as_str x =
     (case x of Terminal_Success \<Rightarrow> ''success'' | Terminal_Rejected \<Rightarrow> ''rejected''
      | Terminal_InternalError \<Rightarrow> ''internal_error'')"

definition idempotency_outcome_as_str :: "IdempotencyOutcome \<Rightarrow> string" where
  "idempotency_outcome_as_str x =
     (case x of Idempotency_Owner \<Rightarrow> ''owner'' | Idempotency_Replay \<Rightarrow> ''replay''
      | Idempotency_Conflict \<Rightarrow> ''conflict'')"

definition financial_reason_as_str :: "FinancialReason \<Rightarrow> string" where
  "financial_reason_as_str x =
     (case x of
        Reason_None \<Rightarrow> ''none''
      | Reason_InternalError \<Rightarrow> ''internal_error''
      | Reason_SameSourceAndDestination \<Rightarrow> ''same_source_and_destination''
      | Reason_AccountUnavailable \<Rightarrow> ''account_unavailable''
      | Reason_InsufficientFunds \<Rightarrow> ''insufficient_funds''
      | Reason_RateUnavailable \<Rightarrow> ''rate_unavailable''
      | Reason_RateConfigurationAmbiguous \<Rightarrow> ''rate_configuration_ambiguous''
      | Reason_FeeRuleUnavailable \<Rightarrow> ''fee_rule_unavailable''
      | Reason_FeeRuleConfigurationAmbiguous \<Rightarrow> ''fee_rule_configuration_ambiguous''
      | Reason_DestinationAmountTooSmall \<Rightarrow> ''destination_amount_too_small''
      | Reason_IdempotencyConflict \<Rightarrow> ''idempotency_conflict''
      | Reason_ReversalOfReversal \<Rightarrow> ''reversal_of_reversal''
      | Reason_TransferAlreadyReversed \<Rightarrow> ''transfer_already_reversed''
      | Reason_ArithmeticOverflow \<Rightarrow> ''arithmetic_overflow''
      | Reason_MalformedAmount \<Rightarrow> ''malformed_amount''
      | Reason_TooManyFractionalDigits \<Rightarrow> ''too_many_fractional_digits''
      | Reason_NonPositiveAmount \<Rightarrow> ''non_positive_amount''
      | Reason_AmountOverflow \<Rightarrow> ''amount_overflow''
      | Reason_MalformedAccountId \<Rightarrow> ''malformed_account_id''
      | Reason_MalformedTransferId \<Rightarrow> ''malformed_transfer_id''
      | Reason_InvalidJson \<Rightarrow> ''invalid_json''
      | Reason_NotFound \<Rightarrow> ''not_found''
      | Reason_BadRequest \<Rightarrow> ''bad_request''
      | Reason_Unauthorized \<Rightarrow> ''unauthorized''
      | Reason_Forbidden \<Rightarrow> ''forbidden''
      | Reason_Conflict \<Rightarrow> ''conflict''
      | Reason_ServiceUnavailable \<Rightarrow> ''service_unavailable''
      | Reason_InvalidRequest \<Rightarrow> ''invalid_request'')"

definition financial_operation_as_str :: "FinancialOperation \<Rightarrow> string" where
  "financial_operation_as_str x =
     (case x of Operation_Transfer \<Rightarrow> ''transfer'' | Operation_FxTransfer \<Rightarrow> ''fx_transfer''
      | Operation_Reversal \<Rightarrow> ''reversal'')"

section \<open>Recorded metrics\<close>

datatype Metric =
    Counter string "(string \<times> string) list"
  | Histogram string "(string \<times> string) list"

definition operation_completed_metric ::
  "FinancialOperation \<Rightarrow> TerminalOutcome \<Rightarrow> FinancialReason \<Rightarrow> Metric" where
  "operation_completed_metric op outcome reason =
     Counter ''ledger_operations_total''
       [(''operation'', financial_operation_as_str op),
        (''outcome'', terminal_outcome_as_str outcome),
        (''reason'', financial_reason_as_str reason)]"

definition transaction_duration_metric :: "FinancialOperation \<Rightarrow> TerminalOutcome \<Rightarrow> Metric" where
  "transaction_duration_metric op outcome =
     Histogram ''ledger_database_transaction_duration_seconds''
       [(''operation'', financial_operation_as_str op),
        (''outcome'', terminal_outcome_as_str outcome)]"

definition idempotency_metric :: "FinancialOperation \<Rightarrow> IdempotencyOutcome \<Rightarrow> Metric" where
  "idempotency_metric op outcome =
     Counter ''ledger_idempotency_outcomes_total''
       [(''operation'', financial_operation_as_str op),
        (''outcome'', idempotency_outcome_as_str outcome)]"

definition record_operation_without_transaction ::
  "FinancialOperation \<Rightarrow> TerminalOutcome \<Rightarrow> FinancialReason \<Rightarrow> Metric list" where
  "record_operation_without_transaction op outcome reason =
     [operation_completed_metric op outcome reason]"

definition record_transfer_pool_acquire :: "PoolAcquireOutcome \<Rightarrow> Metric list" where
  "record_transfer_pool_acquire outcome =
     [Histogram ''ledger_database_pool_acquire_duration_seconds''
        [(''operation'', financial_operation_as_str Operation_Transfer),
         (''outcome'', pool_acquire_as_str outcome)]]"

definition record_readiness_check :: "ReadinessOutcome \<Rightarrow> ReadinessReason \<Rightarrow> Metric list" where
  "record_readiness_check outcome reason =
     [Counter ''ledger_readiness_checks_total''
        [(''outcome'', readiness_outcome_as_str outcome), (''reason'', readiness_reason_as_str reason)],
      Histogram ''ledger_readiness_check_duration_seconds''
        [(''outcome'', readiness_outcome_as_str outcome)]]"

section \<open>Requests\<close>

definition valid_request_id :: "string \<Rightarrow> bool" where
  "valid_request_id value \<longleftrightarrow>
     1 \<le> length value \<and> length value \<le> 128 \<and> list_all is_visible_ascii value"

text \<open>
  The request identifier of a response: the client's, when it sent exactly one valid
  \<open>x-request-id\<close>, and a fresh one otherwise.  \<open>HeaderValue::to_str\<close> and \<open>Uuid::to_string\<close> are
  parameters (crates \<open>http\<close> and \<open>uuid\<close>).
\<close>

definition effective_request_id ::
  "(string \<Rightarrow> string option) \<Rightarrow> string list \<Rightarrow> string \<Rightarrow> string" where
  "effective_request_id to_str values new_request_id =
     (case values of
        [value] \<Rightarrow>
          (case to_str value of
             Some value \<Rightarrow> if valid_request_id value then value else new_request_id
           | None \<Rightarrow> new_request_id)
      | _ \<Rightarrow> new_request_id)"

definition status_class :: "nat \<Rightarrow> string" where
  "status_class status =
     (if status div 100 = 2 then ''2xx'' else if status div 100 = 3 then ''3xx''
      else if status div 100 = 4 then ''4xx'' else ''5xx'')"

definition http_methods :: "string list" where
  "http_methods =
     [''GET'', ''POST'', ''PUT'', ''PATCH'', ''DELETE'', ''HEAD'', ''OPTIONS'', ''CONNECT'', ''TRACE'']"

definition normalized_method :: "string \<Rightarrow> string" where
  "normalized_method m = (if m \<in> set http_methods then m else ''OTHER'')"

text \<open>The middleware around every route: what it records and the header it adds.\<close>

record HttpRequest =
  req_method :: string
  matched_path :: "string option"
  request_id_headers :: "string list"

definition observe_request ::
  "(string \<Rightarrow> string option) \<Rightarrow> string \<Rightarrow> HttpRequest \<Rightarrow> nat \<Rightarrow> string \<times> Metric list" where
  "observe_request to_str fresh_id req response_status =
     (let request_id = effective_request_id to_str (request_id_headers req) fresh_id;
          method = normalized_method (req_method req);
          route = (case matched_path req of Some p \<Rightarrow> p | None \<Rightarrow> ''unmatched'')
      in (request_id,
          [Counter ''ledger_http_requests_total''
             [(''method'', method), (''route'', route), (''status_class'', status_class response_status)],
           Histogram ''ledger_http_request_duration_seconds'' [(''method'', method), (''route'', route)]]))"

section \<open>Bounded labels\<close>

lemma financial_operation_as_str_inject:
  "financial_operation_as_str a = financial_operation_as_str b \<longleftrightarrow> a = b"
  by (cases a; cases b) (simp_all add: financial_operation_as_str_def)

lemma terminal_outcome_as_str_inject:
  "terminal_outcome_as_str a = terminal_outcome_as_str b \<longleftrightarrow> a = b"
  by (cases a; cases b) (simp_all add: terminal_outcome_as_str_def)

text \<open>Every identifier of a response is a valid header value: one to 128 visible bytes.\<close>

lemma effective_request_id_valid:
  assumes "valid_request_id fresh_id"
  shows "valid_request_id (effective_request_id to_str values fresh_id)"
  using assms by (auto simp: effective_request_id_def split: list.splits option.splits)

end
