(* ===== verification/Api_Error.thy ===== *)
theory Api_Error
  imports Observability
begin

text \<open>
  Component \<open>api_error\<close> (\<open>src/api_error.rs\<close>): the errors of the handlers, the response each
  becomes (status, stable code, client message) and the metric labels each is counted under.
  The source of an internal error (an \<open>anyhow::Error\<close>) is kept as the failure it wraps.
\<close>

section \<open>Errors\<close>

text \<open>The failures the handlers wrap as internal errors: SQLx errors, the service's own
  consistency checks, and the conversions that cannot fail on stored rows.\<close>

datatype SqlError =
    ConnectionLost | CheckViolation | UniqueViolation | ForeignKeyViolation
  | OutOfRange | RowNotFound

datatype failure =
    Sqlx SqlError | Anyhow string | TryFromInt | InvalidStatusCode

datatype AppError =
    BadRequest "Value option"
  | Validation string string
  | Unauthorized
  | Forbidden
  | NotFound
  | Conflict
  | IdempotencyConflict
  | AccountUnavailable
  | Business string string
  | ServiceUnavailable
  | Internal failure

record ApiErrorBody =
  error_code :: string
  error_message :: string
  error_details :: "Value option"
  error_request_id :: "string option"

definition ErrorEnvelope_new :: "string \<Rightarrow> string \<Rightarrow> Value option \<Rightarrow> ApiErrorBody" where
  "ErrorEnvelope_new c message details =
     \<lparr>error_code = c, error_message = message, error_details = details,
      error_request_id = None\<rparr>"

definition financial_reason_table :: "(string \<times> FinancialReason) list" where
  "financial_reason_table =
    [(''same_source_and_destination'', Reason_SameSourceAndDestination),
     (''account_unavailable'', Reason_AccountUnavailable),
     (''insufficient_funds'', Reason_InsufficientFunds),
     (''rate_unavailable'', Reason_RateUnavailable),
     (''rate_configuration_ambiguous'', Reason_RateConfigurationAmbiguous),
     (''fee_rule_unavailable'', Reason_FeeRuleUnavailable),
     (''fee_rule_configuration_ambiguous'', Reason_FeeRuleConfigurationAmbiguous),
     (''destination_amount_too_small'', Reason_DestinationAmountTooSmall),
     (''idempotency_conflict'', Reason_IdempotencyConflict),
     (''reversal_of_reversal'', Reason_ReversalOfReversal),
     (''transfer_already_reversed'', Reason_TransferAlreadyReversed),
     (''arithmetic_overflow'', Reason_ArithmeticOverflow),
     (''malformed_amount'', Reason_MalformedAmount),
     (''too_many_fractional_digits'', Reason_TooManyFractionalDigits),
     (''non_positive_amount'', Reason_NonPositiveAmount),
     (''amount_overflow'', Reason_AmountOverflow),
     (''malformed_account_id'', Reason_MalformedAccountId),
     (''malformed_transfer_id'', Reason_MalformedTransferId),
     (''invalid_json'', Reason_InvalidJson)]"

definition financial_reason :: "string \<Rightarrow> FinancialReason" where
  "financial_reason c =
     (case map_of financial_reason_table c of Some r \<Rightarrow> r | None \<Rightarrow> Reason_InvalidRequest)"

definition financial_metric_outcome :: "AppError \<Rightarrow> TerminalOutcome \<times> FinancialReason" where
  "financial_metric_outcome e =
     (case e of
        Internal _ \<Rightarrow> (Terminal_InternalError, Reason_InternalError)
      | IdempotencyConflict \<Rightarrow> (Terminal_Rejected, Reason_IdempotencyConflict)
      | AccountUnavailable \<Rightarrow> (Terminal_Rejected, Reason_AccountUnavailable)
      | Business c _ \<Rightarrow> (Terminal_Rejected, financial_reason c)
      | Validation c _ \<Rightarrow> (Terminal_Rejected, financial_reason c)
      | NotFound \<Rightarrow> (Terminal_Rejected, Reason_NotFound)
      | BadRequest _ \<Rightarrow> (Terminal_Rejected, Reason_BadRequest)
      | Unauthorized \<Rightarrow> (Terminal_Rejected, Reason_Unauthorized)
      | Forbidden \<Rightarrow> (Terminal_Rejected, Reason_Forbidden)
      | Conflict \<Rightarrow> (Terminal_Rejected, Reason_Conflict)
      | ServiceUnavailable \<Rightarrow> (Terminal_Rejected, Reason_ServiceUnavailable))"

definition response_parts :: "AppError \<Rightarrow> nat \<times> ApiErrorBody" where
  "response_parts e =
     (case e of
        BadRequest details \<Rightarrow>
          (400, ErrorEnvelope_new ''bad_request'' ''The request is invalid'' details)
      | Validation c m \<Rightarrow> (400, ErrorEnvelope_new c m None)
      | Unauthorized \<Rightarrow>
          (401, ErrorEnvelope_new ''unauthorized'' ''Authentication is required'' None)
      | Forbidden \<Rightarrow>
          (403, ErrorEnvelope_new ''forbidden'' ''You are not allowed to perform this action'' None)
      | NotFound \<Rightarrow>
          (404, ErrorEnvelope_new ''not_found'' ''The requested resource was not found'' None)
      | Conflict \<Rightarrow>
          (409, ErrorEnvelope_new ''conflict'' ''The request conflicts with current state'' None)
      | IdempotencyConflict \<Rightarrow>
          (409, ErrorEnvelope_new ''idempotency_conflict''
                  ''The Idempotency-Key was already used for a different request'' None)
      | AccountUnavailable \<Rightarrow>
          (404, ErrorEnvelope_new ''account_unavailable''
                  ''The requested account is unavailable'' None)
      | Business c m \<Rightarrow> (422, ErrorEnvelope_new c m None)
      | ServiceUnavailable \<Rightarrow>
          (503, ErrorEnvelope_new ''service_unavailable''
                  ''Service is temporarily unavailable'' None)
      | Internal _ \<Rightarrow>
          (500, ErrorEnvelope_new ''internal_error'' ''An internal error occurred'' None))"

section \<open>What an error discloses and how it is counted\<close>

lemma financial_reason_label:
  "financial_reason_as_str (financial_reason c) =
     (if c \<in> set (List.map fst financial_reason_table) then c else ''invalid_request'')"
proof (cases "map_of financial_reason_table c")
  case None
  then have "c \<notin> set (map fst financial_reason_table)" by (simp add: map_of_eq_None_iff)
  with None show ?thesis by (simp add: financial_reason_def financial_reason_as_str_def)
next
  case (Some r)
  have "\<forall>(k, r) \<in> set financial_reason_table. financial_reason_as_str r = k"
    by (simp add: financial_reason_table_def financial_reason_as_str_def)
  moreover have "(c, r) \<in> set financial_reason_table" using Some by (rule map_of_SomeD)
  ultimately have "financial_reason_as_str r = c" and "c \<in> set (map fst financial_reason_table)"
    by (auto intro: rev_image_eqI)
  with Some show ?thesis by (simp add: financial_reason_def)
qed

end
