(* ===== verification/Ledger_Table.thy ===== *)
theory Ledger_Table
  imports Ledger_Prelude
begin

text \<open>
  Tables as lists of rows in insertion order, with the statement forms the service uses: a
  lookup by key, a filtered selection, an insert and an update by key.  The interface
  \<open>keyed_table\<close> is a table with a primary key: its laws are what a lookup returns after an
  insert and after an update, and that both keep the keys distinct.
\<close>

definition find_by :: "('r \<Rightarrow> 'k) \<Rightarrow> 'k \<Rightarrow> 'r list \<Rightarrow> 'r option" where
  "find_by key k rows = find (\<lambda>r. key r = k) rows"

definition update_by :: "('r \<Rightarrow> 'k) \<Rightarrow> 'k \<Rightarrow> ('r \<Rightarrow> 'r) \<Rightarrow> 'r list \<Rightarrow> 'r list" where
  "update_by key k f rows = map (\<lambda>r. if key r = k then f r else r) rows"

text \<open>\<open>ORDER BY id\<close>: UUIDs compare as unsigned big-endian integers.\<close>

definition order_by_id :: "('r \<Rightarrow> uuid) \<Rightarrow> 'r list \<Rightarrow> 'r list" where
  "order_by_id key rows = sort_key (\<lambda>r. unat (key r)) rows"

lemma find_by_Nil [simp]: "find_by key k [] = None"
  by (simp add: find_by_def)

lemma find_by_Cons [simp]:
  "find_by key k (r # rows) = (if key r = k then Some r else find_by key k rows)"
  by (simp add: find_by_def)

lemma find_by_append:
  "find_by key k (rows @ rows') =
     (case find_by key k rows of Some r \<Rightarrow> Some r | None \<Rightarrow> find_by key k rows')"
  by (induction rows) auto

lemma find_by_SomeD:
  assumes "find_by key k rows = Some r"
  shows "r \<in> set rows \<and> key r = k"
  using assms by (induction rows) (auto split: if_splits)

lemma find_by_None_iff: "find_by key k rows = None \<longleftrightarrow> k \<notin> key ` set rows"
  by (induction rows) auto

lemma find_by_key_in: "find_by key k rows = Some r \<Longrightarrow> k \<in> key ` set rows"
  by (auto dest: find_by_SomeD)

lemma find_by_eq_Some_iff:
  assumes "distinct (map key rows)"
  shows "find_by key k rows = Some r \<longleftrightarrow> r \<in> set rows \<and> key r = k"
  using assms by (induction rows) (auto simp: image_iff)

lemma find_by_update_other:
  assumes "\<And>r. key r = k' \<Longrightarrow> key (f r) = k'" and "k \<noteq> k'"
  shows "find_by key k (update_by key k' f rows) = find_by key k rows"
  using assms by (induction rows) (auto simp: update_by_def)

lemma find_by_update_same:
  assumes "\<And>r. key r = k \<Longrightarrow> key (f r) = k"
  shows "find_by key k (update_by key k f rows) = map_option f (find_by key k rows)"
  using assms by (induction rows) (auto simp: update_by_def)

lemma map_key_update_by:
  assumes "\<And>r. key r = k \<Longrightarrow> key (f r) = k"
  shows "map key (update_by key k f rows) = map key rows"
  using assms by (induction rows) (auto simp: update_by_def)

lemma update_by_absent: "k \<notin> key ` set rows \<Longrightarrow> update_by key k f rows = rows"
  by (induction rows) (auto simp: update_by_def)

lemma update_by_append:
  "update_by key k f (rows @ rows') = update_by key k f rows @ update_by key k f rows'"
  by (simp add: update_by_def)

lemma set_update_by:
  "set (update_by key k f rows) = (\<lambda>r. if key r = k then f r else r) ` set rows"
  by (simp add: update_by_def)

lemma list_all_update_by:
  assumes "distinct (map key rows)" and "find_by key k rows = Some r"
    and "list_all P rows" and "P (f r)"
  shows "list_all P (update_by key k f rows)"
  using assms
proof (induction rows)
  case (Cons x rows)
  show ?case
  proof (cases "key x = k")
    case True
    then have "update_by key k f rows = rows"
      using Cons.prems(1) by (intro update_by_absent) auto
    then show ?thesis using True Cons.prems by (simp add: update_by_def)
  next
    case False
    then show ?thesis using Cons by (simp add: update_by_def)
  qed
qed simp

text \<open>A sum over a table changes by what the one updated row changes.\<close>

lemma sum_list_update_by:
  fixes v :: "'r \<Rightarrow> int"
  assumes "distinct (map key rows)" and "find_by key k rows = Some r"
  shows "(\<Sum>x\<leftarrow>update_by key k f rows. v x) = (\<Sum>x\<leftarrow>rows. v x) + (v (f r) - v r)"
  using assms
proof (induction rows)
  case (Cons x rows)
  show ?case
  proof (cases "key x = k")
    case True
    then have "update_by key k f rows = rows"
      using Cons.prems(1) by (intro update_by_absent) auto
    then show ?thesis using True Cons.prems(2) by (simp add: update_by_def)
  next
    case False
    then show ?thesis using Cons by (simp add: update_by_def)
  qed
qed simp

lemma set_order_by_id [simp]: "set (order_by_id key rows) = set rows"
  by (simp add: order_by_id_def)

lemma length_order_by_id [simp]: "length (order_by_id key rows) = length rows"
  by (simp add: order_by_id_def)

text \<open>\<open>WHERE id = ANY($1)\<close> for two distinct keys returns both rows exactly when both exist.\<close>

lemma filter_two_keys:
  assumes "distinct (map key rows)" and "a \<noteq> b"
  shows "length (filter (\<lambda>r. key r \<in> {a, b}) rows) = 2
     \<longleftrightarrow> (\<exists>x y. find_by key a rows = Some x \<and> find_by key b rows = Some y)"
proof -
  have one: "length (filter (\<lambda>r. key r = k) rows) = (if find_by key k rows = None then 0 else 1)" for k
    using assms(1)
  proof (induction rows)
    case (Cons x rows)
    show ?case
    proof (cases "key x = k")
      case True
      then have "filter (\<lambda>r. key r = k) rows = []"
        using Cons.prems by (auto simp: filter_empty_conv dest: sym intro: rev_image_eqI)
      then show ?thesis using True by simp
    qed (use Cons in auto)
  qed simp
  have "length (filter (\<lambda>r. key r \<in> {a, b}) rows) =
      length (filter (\<lambda>r. key r = a) rows) + length (filter (\<lambda>r. key r = b) rows)"
    using assms(2) by (induction rows) auto
  then show ?thesis using one [of a] one [of b] by (auto split: if_splits)
qed

lemma find_in_selection:
  assumes "distinct (map key rows)" and "k \<in> ks"
  shows "find (\<lambda>r. key r = k) (order_by_id key' (filter (\<lambda>r. key r \<in> ks) rows))
       = find_by key k rows"
proof -
  let ?sel = "order_by_id key' (filter (\<lambda>r. key r \<in> ks) rows)"
  have "distinct (map key (filter (\<lambda>r. key r \<in> ks) rows))"
    using assms(1) by (rule distinct_map_filter)
  then have "distinct (map key ?sel)"
    by (auto simp: order_by_id_def distinct_map)
  then have "find_by key k ?sel = Some r \<longleftrightarrow> find_by key k rows = Some r" for r
    using assms by (auto simp: find_by_eq_Some_iff)
  then show ?thesis
    by (metis find_by_def option.exhaust)
qed

section \<open>The interface\<close>

locale keyed_table =
  fixes rows :: "'db \<Rightarrow> 'r list"
    and key :: "'r \<Rightarrow> 'k"
    and insert_row :: "'r \<Rightarrow> 'db \<Rightarrow> 'db"
    and update_row :: "'k \<Rightarrow> ('r \<Rightarrow> 'r) \<Rightarrow> 'db \<Rightarrow> 'db"
  assumes rows_insert: "rows (insert_row r d) = rows d @ [r]"
    and rows_update: "rows (update_row k f d) = update_by key k f (rows d)"
begin

definition lookup_row :: "'k \<Rightarrow> 'db \<Rightarrow> 'r option" where
  "lookup_row k d = find_by key k (rows d)"

definition keys_distinct :: "'db \<Rightarrow> bool" where
  "keys_distinct d \<longleftrightarrow> distinct (map key (rows d))"

lemma lookup_insert:
  assumes "lookup_row (key r) d = None"
  shows "lookup_row k (insert_row r d) = (if k = key r then Some r else lookup_row k d)"
  using assms by (auto simp: lookup_row_def rows_insert find_by_append split: option.splits)

lemma lookup_update:
  assumes "\<And>r. key (f r) = key r"
  shows "lookup_row k (update_row k' f d) =
    (if k = k' then map_option f (lookup_row k d) else lookup_row k d)"
  using assms
  by (simp add: lookup_row_def rows_update find_by_update_same find_by_update_other)

lemma keys_distinct_insert:
  "keys_distinct d \<Longrightarrow> lookup_row (key r) d = None \<Longrightarrow> keys_distinct (insert_row r d)"
  by (auto simp: keys_distinct_def rows_insert lookup_row_def find_by_None_iff)

lemma keys_distinct_update:
  assumes "\<And>r. key (f r) = key r"
  shows "keys_distinct (update_row k f d) \<longleftrightarrow> keys_distinct d"
  using assms by (simp add: keys_distinct_def rows_update map_key_update_by)

lemma sum_update:
  fixes v :: "'r \<Rightarrow> int"
  assumes "keys_distinct d" and "lookup_row k d = Some r"
  shows "(\<Sum>x\<leftarrow>rows (update_row k f d). v x) = (\<Sum>x\<leftarrow>rows d. v x) + (v (f r) - v r)"
  using assms sum_list_update_by [of key "rows d" k r v f]
  by (simp add: keys_distinct_def lookup_row_def rows_update)

end

end
