(* ===== verification/Database.thy ===== *)
theory Database
  imports Money Fx Api_Error Ledger_Table
begin

text \<open>
  The PostgreSQL schema of \<open>src/migrations/*.sql\<close> and the statements the service executes, as
  functions on a database (a record of tables).  A statement returns an SQL error or its result
  and the new database.  An insert checks the primary key, the unique index, the foreign keys
  and the \<open>CHECK\<close> constraints of its table.  \<open>timestamptz\<close> is microseconds (\<open>int\<close>),
  \<open>numeric(30, 12)\<close> is its integer coefficient at scale 12, \<open>text\<close> collates as \<open>C\<close>.  Statements
  act on one transaction's view; the transaction itself is in theory \<open>Txn\<close>.
\<close>

section \<open>Enumerations\<close>

datatype AccountStatus = Active | Inactive

datatype TransferKind = Kind_Transfer | Kind_FxTransfer | Kind_Reversal

datatype EntryDirection = Debit | Credit

definition status_text :: "AccountStatus \<Rightarrow> string" where
  "status_text s = (case s of Active \<Rightarrow> ''active'' | Inactive \<Rightarrow> ''inactive'')"

definition kind_text :: "TransferKind \<Rightarrow> string" where
  "kind_text k =
     (case k of Kind_Transfer \<Rightarrow> ''transfer'' | Kind_FxTransfer \<Rightarrow> ''fx_transfer''
      | Kind_Reversal \<Rightarrow> ''reversal'')"

definition direction_text :: "EntryDirection \<Rightarrow> string" where
  "direction_text x = (case x of Debit \<Rightarrow> ''debit'' | Credit \<Rightarrow> ''credit'')"

lemma status_text_inject [simp]: "status_text a = status_text b \<longleftrightarrow> a = b"
  by (cases a; cases b) (simp_all add: status_text_def)

lemma kind_text_inject [simp]: "kind_text a = kind_text b \<longleftrightarrow> a = b"
  by (cases a; cases b) (simp_all add: kind_text_def)

lemma status_text_active [simp]: "status_text s = ''active'' \<longleftrightarrow> s = Active"
  by (cases s) (simp_all add: status_text_def)

lemma kind_text_reversal [simp]: "kind_text k = ''reversal'' \<longleftrightarrow> k = Kind_Reversal"
  by (cases k) (simp_all add: kind_text_def)

section \<open>Rows\<close>

record AccountRow =
  acc_id :: uuid
  owner_id :: string
  acc_currency :: string
  currency_scale :: i16
  balance_minor :: i64
  acc_status :: AccountStatus
  acc_version :: i64
  acc_created_at :: timestamp
  acc_updated_at :: timestamp

record TransferRow =
  tr_id :: uuid
  tr_source :: uuid
  tr_destination :: uuid
  tr_source_currency :: string
  tr_destination_currency :: string
  source_amount_minor :: i64
  destination_amount_minor :: i64
  fee_amount_minor :: i64
  total_debit_minor :: i64
  tr_fee_bps :: "i32 option"
  tr_exchange_rate :: "int option"
  tr_exchange_rate_id :: "uuid option"
  tr_kind :: TransferKind
  reverses :: "uuid option"
  initiated_by :: string
  tr_created_at :: timestamp

record EntryRow =
  en_id :: uuid
  en_account :: uuid
  en_transfer :: uuid
  en_counterparty :: uuid
  direction :: EntryDirection
  en_kind :: TransferKind
  amount_minor :: i64
  en_currency :: string
  principal_minor :: "i64 option"
  entry_fee_minor :: "i64 option"
  en_created_at :: timestamp

record IdempotencyRow =
  client :: string
  operation :: string
  idem_key :: string
  fingerprint :: string
  http_status :: "i32 option"
  response_body :: "Value option"
  resource_id :: "uuid option"
  idem_created_at :: timestamp
  expires_at :: timestamp

record RateRow =
  ra_id :: uuid
  ra_source :: string
  ra_destination :: string
  ra_rate :: int
  ra_from :: timestamp
  ra_until :: timestamp

record FeeRow =
  fr_id :: uuid
  fr_source :: "string option"
  fr_destination :: "string option"
  fr_bps :: i32
  fr_from :: timestamp
  fr_until :: timestamp

record Database =
  accounts :: "AccountRow list"
  transfers :: "TransferRow list"
  account_entries :: "EntryRow list"
  idempotency_records :: "IdempotencyRow list"
  exchange_rates :: "RateRow list"
  fx_fee_rules :: "FeeRow list"

definition idem_row_key :: "IdempotencyRow \<Rightarrow> string \<times> string \<times> string" where
  "idem_row_key r = (client r, operation r, idem_key r)"

section \<open>CHECK constraints\<close>

text \<open>\<open>~ '[^[:space:]]'\<close>: some character is not white space.\<close>

definition pg_space :: "char \<Rightarrow> bool" where
  "pg_space c \<longleftrightarrow> c \<in> {CHR 0x09, CHR 0x0A, CHR 0x0B, CHR 0x0C, CHR 0x0D, CHR 0x20}"

definition nonblank :: "string \<Rightarrow> bool" where
  "nonblank s \<longleftrightarrow> (\<exists>c \<in> set s. \<not> pg_space c)"

text \<open>\<open>char(3)\<close> with \<open>~ '^[A-Z]{3}$'\<close>.\<close>

definition currency_code_ok :: "string \<Rightarrow> bool" where
  "currency_code_ok s \<longleftrightarrow>
     length s = 3 \<and> list_all (\<lambda>c. 65 \<le> (of_char c :: nat) \<and> (of_char c :: nat) \<le> 90) s"

definition account_check :: "AccountRow \<Rightarrow> bool" where
  "account_check r \<longleftrightarrow>
     nonblank (owner_id r) \<and> currency_code_ok (acc_currency r)
     \<and> 0 \<le> sint (currency_scale r) \<and> sint (currency_scale r) \<le> 18 \<and> 0 \<le> sint (acc_version r)"

definition transfer_check :: "TransferRow \<Rightarrow> bool" where
  "transfer_check r \<longleftrightarrow>
     currency_code_ok (tr_source_currency r) \<and> currency_code_ok (tr_destination_currency r)
     \<and> 0 < sint (source_amount_minor r) \<and> 0 < sint (destination_amount_minor r)
     \<and> 0 \<le> sint (fee_amount_minor r) \<and> 0 < sint (total_debit_minor r)
     \<and> nonblank (initiated_by r) \<and> tr_source r \<noteq> tr_destination r
     \<and> reverses r \<noteq> Some (tr_id r)"

definition entry_check :: "EntryRow \<Rightarrow> bool" where
  "entry_check r \<longleftrightarrow>
     0 < sint (amount_minor r) \<and> currency_code_ok (en_currency r)
     \<and> (case principal_minor r of None \<Rightarrow> True | Some p \<Rightarrow> 0 < sint p)
     \<and> (case entry_fee_minor r of None \<Rightarrow> True | Some f \<Rightarrow> 0 \<le> sint f)
     \<and> en_account r \<noteq> en_counterparty r"

definition idempotency_check :: "IdempotencyRow \<Rightarrow> bool" where
  "idempotency_check r \<longleftrightarrow>
     nonblank (client r) \<and> nonblank (operation r) \<and> nonblank (idem_key r) \<and> nonblank (fingerprint r)
     \<and> idem_created_at r < expires_at r
     \<and> (http_status r = None \<and> response_body r = None \<and> resource_id r = None
        \<or> http_status r \<noteq> None \<and> response_body r \<noteq> None \<and> resource_id r \<noteq> None)
     \<and> (case http_status r of None \<Rightarrow> True | Some s \<Rightarrow> 200 \<le> sint s \<and> sint s \<le> 299)"

definition rate_check :: "RateRow \<Rightarrow> bool" where
  "rate_check r \<longleftrightarrow>
     currency_code_ok (ra_source r) \<and> currency_code_ok (ra_destination r)
     \<and> 0 < ra_rate r \<and> ra_rate r < 10 ^ 30
     \<and> ra_source r \<noteq> ra_destination r \<and> ra_from r < ra_until r"

definition fee_check :: "FeeRow \<Rightarrow> bool" where
  "fee_check r \<longleftrightarrow>
     0 \<le> sint (fr_bps r) \<and> sint (fr_bps r) \<le> 10000
     \<and> (fr_source r = None) = (fr_destination r = None)
     \<and> (case fr_source r of None \<Rightarrow> True | Some c \<Rightarrow> currency_code_ok c)
     \<and> (case fr_destination r of None \<Rightarrow> True | Some c \<Rightarrow> currency_code_ok c)
     \<and> (fr_source r = None \<or> fr_source r \<noteq> fr_destination r)
     \<and> fr_from r < fr_until r"

section \<open>Statements\<close>

type_synonym 'a statement = "Database \<Rightarrow> SqlError + ('a \<times> Database)"

definition insert_account :: "AccountRow \<Rightarrow> unit statement" where
  "insert_account r d =
     (if \<not> account_check r then Inl CheckViolation
      else if find_by acc_id (acc_id r) (accounts d) \<noteq> None then Inl UniqueViolation
      else Inr ((), d\<lparr>accounts := accounts d @ [r]\<rparr>))"

definition insert_transfer :: "TransferRow \<Rightarrow> unit statement" where
  "insert_transfer r d =
     (if \<not> transfer_check r then Inl CheckViolation
      else if find_by tr_id (tr_id r) (transfers d) \<noteq> None then Inl UniqueViolation
      else if reverses r \<noteq> None \<and> (\<exists>t \<in> set (transfers d). reverses t = reverses r)
      then Inl UniqueViolation
      else if find_by acc_id (tr_source r) (accounts d) = None
           \<or> find_by acc_id (tr_destination r) (accounts d) = None
           \<or> (case reverses r of None \<Rightarrow> False | Some o' \<Rightarrow> find_by tr_id o' (transfers d) = None)
           \<or> (case tr_exchange_rate_id r of None \<Rightarrow> False
              | Some q \<Rightarrow> find_by ra_id q (exchange_rates d) = None)
      then Inl ForeignKeyViolation
      else Inr ((), d\<lparr>transfers := transfers d @ [r]\<rparr>))"

definition insert_entry :: "EntryRow \<Rightarrow> unit statement" where
  "insert_entry r d =
     (if \<not> entry_check r then Inl CheckViolation
      else if find_by en_id (en_id r) (account_entries d) \<noteq> None then Inl UniqueViolation
      else if find_by acc_id (en_account r) (accounts d) = None
           \<or> find_by acc_id (en_counterparty r) (accounts d) = None
           \<or> find_by tr_id (en_transfer r) (transfers d) = None
      then Inl ForeignKeyViolation
      else Inr ((), d\<lparr>account_entries := account_entries d @ [r]\<rparr>))"

text \<open>
  \<open>INSERT INTO idempotency_records ... ON CONFLICT DO NOTHING\<close>: the number of rows inserted.
\<close>

definition insert_idempotency :: "IdempotencyRow \<Rightarrow> nat statement" where
  "insert_idempotency r d =
     (if \<not> idempotency_check r then Inl CheckViolation
      else if find_by idem_row_key (idem_row_key r) (idempotency_records d) \<noteq> None then Inr (0, d)
      else Inr (1, d\<lparr>idempotency_records := idempotency_records d @ [r]\<rparr>))"

definition select_idempotency :: "string \<times> string \<times> string \<Rightarrow> IdempotencyRow option statement" where
  "select_idempotency k d = Inr (find_by idem_row_key k (idempotency_records d), d)"

text \<open>The response columns of a record; the updated row must satisfy its \<open>CHECK\<close>s.\<close>

definition set_response :: "i32 \<Rightarrow> Value \<Rightarrow> uuid \<Rightarrow> IdempotencyRow \<Rightarrow> IdempotencyRow" where
  "set_response s b u r =
     r\<lparr>http_status := Some s, response_body := Some b, resource_id := Some u\<rparr>"

definition update_idempotency ::
  "string \<times> string \<times> string \<Rightarrow> i32 \<Rightarrow> Value \<Rightarrow> uuid \<Rightarrow> unit statement" where
  "update_idempotency k s b u d =
     (case find_by idem_row_key k (idempotency_records d) of
        None \<Rightarrow> Inr ((), d)
      | Some r \<Rightarrow>
          if \<not> idempotency_check (set_response s b u r) then Inl CheckViolation
          else Inr ((), d\<lparr>idempotency_records :=
                 update_by idem_row_key k (set_response s b u) (idempotency_records d)\<rparr>))"

text \<open>
  \<open>UPDATE accounts SET balance_minor = $1, version = version + 1, updated_at = now()\<close>: the
  \<open>bigint\<close> addition raises an error when it overflows.
\<close>

definition set_balance :: "i64 \<Rightarrow> timestamp \<Rightarrow> AccountRow \<Rightarrow> AccountRow" where
  "set_balance b now r =
     r\<lparr>balance_minor := b, acc_version := acc_version r + 1, acc_updated_at := now\<rparr>"

definition update_balance :: "uuid \<Rightarrow> i64 \<Rightarrow> timestamp \<Rightarrow> unit statement" where
  "update_balance k b now d =
     (case find_by acc_id k (accounts d) of
        None \<Rightarrow> Inr ((), d)
      | Some r \<Rightarrow>
          if checked_add_i64 (acc_version r) 1 = None then Inl OutOfRange
          else if \<not> account_check (set_balance b now r) then Inl CheckViolation
          else Inr ((), d\<lparr>accounts := update_by acc_id k (set_balance b now) (accounts d)\<rparr>))"

definition select_account :: "uuid \<Rightarrow> AccountRow option statement" where
  "select_account k d = Inr (find_by acc_id k (accounts d), d)"

definition select_owned_account :: "uuid \<Rightarrow> string \<Rightarrow> AccountRow option statement" where
  "select_owned_account k owner d =
     Inr ((case find_by acc_id k (accounts d) of
             Some r \<Rightarrow> if owner_id r = owner then Some r else None
           | None \<Rightarrow> None), d)"

text \<open>\<open>SELECT ... FROM accounts WHERE id = ANY($1) ORDER BY id FOR UPDATE\<close>.\<close>

definition select_accounts_for_update :: "uuid list \<Rightarrow> AccountRow list statement" where
  "select_accounts_for_update ks d =
     Inr (order_by_id acc_id (filter (\<lambda>r. acc_id r \<in> set ks) (accounts d)), d)"

definition select_transfer :: "uuid \<Rightarrow> TransferRow option statement" where
  "select_transfer k d = Inr (find_by tr_id k (transfers d), d)"

definition exists_reversal :: "uuid \<Rightarrow> bool statement" where
  "exists_reversal k d = Inr (list_ex (\<lambda>t. reverses t = Some k) (transfers d), d)"

text \<open>\<open>CAST($n AS numeric)\<close> of a decimal numeral with at most twelve fractional digits.\<close>

definition cast_numeric :: "string \<Rightarrow> int option" where
  "cast_numeric s =
     (case parse_exact_rate s of
        Inr r \<Rightarrow> Some (coefficient r * 10 ^ (12 - unat (rate_scale r))) | Inl _ \<Rightarrow> None)"

lemma cast_numeric_text: "0 < c \<Longrightarrow> c < 10 ^ 30 \<Longrightarrow> cast_numeric (numeric_text c) = Some c"
  by (simp add: cast_numeric_def parse_numeric_text)

section \<open>The schema as an invariant\<close>

text \<open>Every committed database satisfies the constraints the migrations declare.\<close>

definition keys_ok :: "Database \<Rightarrow> bool" where
  "keys_ok d \<longleftrightarrow>
     distinct (map acc_id (accounts d)) \<and> distinct (map tr_id (transfers d))
     \<and> distinct (map en_id (account_entries d))
     \<and> distinct (map idem_row_key (idempotency_records d))
     \<and> distinct (map ra_id (exchange_rates d)) \<and> distinct (map fr_id (fx_fee_rules d))
     \<and> distinct (filter (\<lambda>x. x \<noteq> None) (map reverses (transfers d)))"

definition checks_ok :: "Database \<Rightarrow> bool" where
  "checks_ok d \<longleftrightarrow>
     list_all account_check (accounts d) \<and> list_all transfer_check (transfers d)
     \<and> list_all entry_check (account_entries d)
     \<and> list_all idempotency_check (idempotency_records d)
     \<and> list_all rate_check (exchange_rates d) \<and> list_all fee_check (fx_fee_rules d)"

definition transfer_refs_ok :: "Database \<Rightarrow> TransferRow \<Rightarrow> bool" where
  "transfer_refs_ok d t \<longleftrightarrow>
     tr_source t \<in> acc_id ` set (accounts d) \<and> tr_destination t \<in> acc_id ` set (accounts d)
     \<and> (case reverses t of None \<Rightarrow> True | Some o' \<Rightarrow> o' \<in> tr_id ` set (transfers d))
     \<and> (case tr_exchange_rate_id t of None \<Rightarrow> True | Some q \<Rightarrow> q \<in> ra_id ` set (exchange_rates d))"

definition entry_refs_ok :: "Database \<Rightarrow> EntryRow \<Rightarrow> bool" where
  "entry_refs_ok d e \<longleftrightarrow>
     en_account e \<in> acc_id ` set (accounts d) \<and> en_counterparty e \<in> acc_id ` set (accounts d)
     \<and> en_transfer e \<in> tr_id ` set (transfers d)"

definition refs_ok :: "Database \<Rightarrow> bool" where
  "refs_ok d \<longleftrightarrow>
     list_all (transfer_refs_ok d) (transfers d) \<and> list_all (entry_refs_ok d) (account_entries d)"

definition schema_ok :: "Database \<Rightarrow> bool" where
  "schema_ok d \<longleftrightarrow> keys_ok d \<and> checks_ok d \<and> refs_ok d"

definition insert_account_row :: "AccountRow \<Rightarrow> Database \<Rightarrow> Database" where
  "insert_account_row r d = d\<lparr>accounts := accounts d @ [r]\<rparr>"

definition update_account_row :: "uuid \<Rightarrow> (AccountRow \<Rightarrow> AccountRow) \<Rightarrow> Database \<Rightarrow> Database" where
  "update_account_row k f d = d\<lparr>accounts := update_by acc_id k f (accounts d)\<rparr>"

definition insert_idempotency_row :: "IdempotencyRow \<Rightarrow> Database \<Rightarrow> Database" where
  "insert_idempotency_row r d = d\<lparr>idempotency_records := idempotency_records d @ [r]\<rparr>"

definition update_idempotency_row ::
  "string \<times> string \<times> string \<Rightarrow> (IdempotencyRow \<Rightarrow> IdempotencyRow) \<Rightarrow> Database \<Rightarrow> Database" where
  "update_idempotency_row k f d =
     d\<lparr>idempotency_records := update_by idem_row_key k f (idempotency_records d)\<rparr>"

interpretation account_table:
  keyed_table accounts acc_id insert_account_row update_account_row
  by unfold_locales (simp_all add: insert_account_row_def update_account_row_def)

interpretation idempotency_table:
  keyed_table idempotency_records idem_row_key insert_idempotency_row update_idempotency_row
  by unfold_locales (simp_all add: insert_idempotency_row_def update_idempotency_row_def)

text \<open>The two tables under the names the component proofs use.\<close>

lemma account_lookup_eq: "account_table.lookup_row k d = find_by acc_id k (accounts d)"
  by (simp add: account_table.lookup_row_def)

lemma idempotency_lookup_eq:
  "idempotency_table.lookup_row k d = find_by idem_row_key k (idempotency_records d)"
  by (simp add: idempotency_table.lookup_row_def)

lemma set_balance_id [simp]: "acc_id (set_balance b now r) = acc_id r"
  by (simp add: set_balance_def)

lemma set_response_key [simp]: "idem_row_key (set_response s b u r) = idem_row_key r"
  by (simp add: set_response_def idem_row_key_def)

section \<open>Every statement preserves the schema\<close>

lemma refs_mono:
  assumes "acc_id ` set (accounts d) \<subseteq> acc_id ` set (accounts d')"
    and "tr_id ` set (transfers d) \<subseteq> tr_id ` set (transfers d')"
    and "ra_id ` set (exchange_rates d) \<subseteq> ra_id ` set (exchange_rates d')"
  shows "transfer_refs_ok d t \<Longrightarrow> transfer_refs_ok d' t" and "entry_refs_ok d e \<Longrightarrow> entry_refs_ok d' e"
  using assms unfolding transfer_refs_ok_def entry_refs_ok_def
  by (auto split: option.splits)

lemma refs_ok_mono:
  assumes "refs_ok d" and "acc_id ` set (accounts d) \<subseteq> acc_id ` set (accounts d')"
    and "transfers d' = transfers d" and "account_entries d' = account_entries d"
    and "exchange_rates d' = exchange_rates d"
  shows "refs_ok d'"
  using assms refs_mono [of d d'] by (simp add: refs_ok_def list_all_iff)

lemma insert_account_schema:
  assumes "schema_ok d" and "insert_account r d = Inr (u, d')"
  shows "schema_ok d'"
proof -
  have d': "d' = d\<lparr>accounts := accounts d @ [r]\<rparr>" and "account_check r"
    and "acc_id r \<notin> acc_id ` set (accounts d)"
    using assms(2) by (simp_all add: insert_account_def find_by_None_iff split: if_splits)
  then have "keys_ok d'" and "checks_ok d'"
    using assms(1) by (simp_all add: schema_ok_def keys_ok_def checks_ok_def)
  moreover have "refs_ok d'"
    by (rule refs_ok_mono [of d]) (use assms(1) in \<open>auto simp: d' schema_ok_def\<close>)
  ultimately show ?thesis by (simp add: schema_ok_def)
qed

lemma insert_transfer_schema:
  assumes "schema_ok d" and "insert_transfer r d = Inr (u, d')"
  shows "schema_ok d'"
proof -
  have d': "d' = d\<lparr>transfers := transfers d @ [r]\<rparr>" and chk: "transfer_check r"
    and new: "tr_id r \<notin> tr_id ` set (transfers d)"
    and rev: "reverses r = None \<or> (\<forall>t \<in> set (transfers d). reverses t \<noteq> reverses r)"
    and fk: "transfer_refs_ok d r"
    using assms(2)
    by (auto simp: insert_transfer_def transfer_refs_ok_def find_by_None_iff
        split: if_splits option.splits dest: find_by_key_in)
  have "keys_ok d'"
    using assms(1) new rev by (auto simp: d' schema_ok_def keys_ok_def)
  moreover have "checks_ok d'" using assms(1) chk by (simp add: d' schema_ok_def checks_ok_def)
  moreover have "refs_ok d'"
    using assms(1) fk refs_mono [of d d'] by (auto simp: schema_ok_def refs_ok_def list_all_iff d')
  ultimately show ?thesis by (simp add: schema_ok_def)
qed

lemma insert_entry_schema:
  assumes "schema_ok d" and "insert_entry r d = Inr (u, d')"
  shows "schema_ok d'"
proof -
  have d': "d' = d\<lparr>account_entries := account_entries d @ [r]\<rparr>" and "entry_check r"
    and "en_id r \<notin> en_id ` set (account_entries d)" and fk: "entry_refs_ok d r"
    using assms(2)
    by (auto simp: insert_entry_def entry_refs_ok_def find_by_None_iff
        split: if_splits dest: find_by_key_in)
  then have "keys_ok d'" and "checks_ok d'"
    using assms(1) by (simp_all add: schema_ok_def keys_ok_def checks_ok_def)
  moreover have "refs_ok d'"
    using assms(1) fk refs_mono [of d d'] by (auto simp: schema_ok_def refs_ok_def list_all_iff d')
  ultimately show ?thesis by (simp add: schema_ok_def)
qed

lemma insert_idempotency_schema:
  assumes "schema_ok d" and "insert_idempotency r d = Inr (n, d')"
  shows "schema_ok d'"
proof (cases "d' = d")
  case False
  then have d': "d' = d\<lparr>idempotency_records := idempotency_records d @ [r]\<rparr>"
    and "idempotency_check r" and "idem_row_key r \<notin> idem_row_key ` set (idempotency_records d)"
    using assms(2)
    by (auto simp: insert_idempotency_def find_by_None_iff split: if_splits)
  then have "keys_ok d'" and "checks_ok d'"
    using assms(1) by (simp_all add: schema_ok_def keys_ok_def checks_ok_def)
  moreover have "refs_ok d'"
    by (rule refs_ok_mono [of d]) (use assms(1) in \<open>auto simp: d' schema_ok_def\<close>)
  ultimately show ?thesis by (simp add: schema_ok_def)
qed (use assms in simp)

lemma update_idempotency_schema:
  assumes "schema_ok d" and "update_idempotency k s b u d = Inr (x, d')"
  shows "schema_ok d'"
proof (cases "find_by idem_row_key k (idempotency_records d)")
  case (Some r)
  then have d': "d' = d\<lparr>idempotency_records :=
        update_by idem_row_key k (set_response s b u) (idempotency_records d)\<rparr>"
    and chk: "idempotency_check (set_response s b u r)"
    using assms(2) by (auto simp: update_idempotency_def split: if_splits)
  have "keys_ok d'"
    using assms(1) by (simp add: d' schema_ok_def keys_ok_def map_key_update_by)
  moreover have "checks_ok d'"
    using assms(1) Some chk
    by (simp add: d' schema_ok_def checks_ok_def keys_ok_def list_all_update_by)
  moreover have "refs_ok d'"
    by (rule refs_ok_mono [of d]) (use assms(1) in \<open>auto simp: d' schema_ok_def\<close>)
  ultimately show ?thesis by (simp add: schema_ok_def)
qed (use assms in \<open>auto simp: update_idempotency_def\<close>)

lemma update_balance_schema:
  assumes "schema_ok d" and "update_balance k b now d = Inr (x, d')"
  shows "schema_ok d'"
proof (cases "find_by acc_id k (accounts d)")
  case (Some r)
  then have d': "d' = d\<lparr>accounts := update_by acc_id k (set_balance b now) (accounts d)\<rparr>"
    and chk: "account_check (set_balance b now r)"
    using assms(2) by (auto simp: update_balance_def split: if_splits)
  have ids: "map acc_id (accounts d') = map acc_id (accounts d)"
    by (simp add: d' map_key_update_by)
  then have idset: "acc_id ` set (accounts d') = acc_id ` set (accounts d)" by (metis list.set_map)
  have "refs_ok d'"
    by (rule refs_ok_mono [of d]) (use assms(1) idset in \<open>auto simp: d' schema_ok_def\<close>)
  moreover have "keys_ok d'" using assms(1) ids by (simp add: d' schema_ok_def keys_ok_def)
  moreover have "checks_ok d'"
    using assms(1) Some chk
    by (simp add: d' schema_ok_def checks_ok_def keys_ok_def list_all_update_by)
  ultimately show ?thesis by (simp add: schema_ok_def)
qed (use assms in \<open>auto simp: update_balance_def\<close>)

lemmas statement_schema =
  insert_account_schema insert_transfer_schema insert_entry_schema insert_idempotency_schema
  update_idempotency_schema update_balance_schema

end
