(* ===== verification/Txn.thy ===== *)
theory Txn
  imports Database
begin

text \<open>
  Database transactions as the handlers drive them.  A session holds the committed database, the
  view of the open transaction and the metrics recorded so far.  Every awaited database call
  meets a fate: it runs, its connection is lost (the call returns an error), or the client goes
  away and the handler's future is dropped at that await.  A commit whose acknowledgement is
  lost (\<open>AckLost\<close>, \<open>AckDropped\<close>) has taken effect although the call fails or is dropped.  A handler is a function of the session that
  ends in a result, an error, a panic or a cancellation; \<open>tx_bind\<close> is the \<open>?\<close> operator.  The
  handlers run one at a time between \<open>begin\<close> and \<open>commit\<close>.
\<close>

section \<open>Computations\<close>

datatype 'e fault = Fail 'e | Panicked | Cancelled

datatype Fate = Fine | Lost | AckLost | Dropped | AckDropped

record Session =
  committed :: Database
  work :: Database
  fates :: "Fate list"
  emitted :: "Metric list"

type_synonym ('e, 'a) tx = "Session \<Rightarrow> ('e fault + 'a) \<times> Session"

definition tx_return :: "'a \<Rightarrow> ('e, 'a) tx" where
  "tx_return x s = (Inr x, s)"

definition tx_throw :: "'e \<Rightarrow> ('e, 'a) tx" where
  "tx_throw e s = (Inl (Fail e), s)"

definition tx_panic :: "('e, 'a) tx" where
  "tx_panic s = (Inl Panicked, s)"

definition tx_bind :: "('e, 'a) tx \<Rightarrow> ('a \<Rightarrow> ('e, 'b) tx) \<Rightarrow> ('e, 'b) tx" where
  "tx_bind m f s = (case m s of (Inl e, s') \<Rightarrow> (Inl e, s') | (Inr x, s') \<Rightarrow> f x s')"

definition tx_then :: "('e, unit) tx \<Rightarrow> ('e, 'b) tx \<Rightarrow> ('e, 'b) tx" where
  "tx_then m m' = tx_bind m (\<lambda>_. m')"

definition map_fault :: "('e \<Rightarrow> 'f) \<Rightarrow> 'e fault \<Rightarrow> 'f fault" where
  "map_fault f x = (case x of Fail e \<Rightarrow> Fail (f e) | Panicked \<Rightarrow> Panicked | Cancelled \<Rightarrow> Cancelled)"

definition map_err :: "('e \<Rightarrow> 'f) \<Rightarrow> ('e, 'a) tx \<Rightarrow> ('f, 'a) tx" where
  "map_err f m s =
     (case m s of (Inl e, s') \<Rightarrow> (Inl (map_fault f e), s') | (Inr x, s') \<Rightarrow> (Inr x, s'))"

text \<open>A pure \<open>Result\<close>, \<open>ok_or\<close>, an early return unless a condition holds, and \<open>expect\<close>.\<close>

definition from_result :: "'e + 'a \<Rightarrow> ('e, 'a) tx" where
  "from_result r = (case r of Inl e \<Rightarrow> tx_throw e | Inr x \<Rightarrow> tx_return x)"

definition ok_or :: "'e \<Rightarrow> 'a option \<Rightarrow> ('e, 'a) tx" where
  "ok_or e x = (case x of None \<Rightarrow> tx_throw e | Some a \<Rightarrow> tx_return a)"

definition ensure :: "bool \<Rightarrow> 'e \<Rightarrow> ('e, unit) tx" where
  "ensure b e = (if b then tx_return () else tx_throw e)"

definition tx_expect :: "'a option \<Rightarrow> ('e, 'a) tx" where
  "tx_expect x = (case x of None \<Rightarrow> tx_panic | Some a \<Rightarrow> tx_return a)"

definition emit :: "Metric list \<Rightarrow> ('e, unit) tx" where
  "emit ms s = (Inr (), s\<lparr>emitted := emitted s @ ms\<rparr>)"

section \<open>Database calls\<close>

definition next_fate :: "Session \<Rightarrow> Fate \<times> Session" where
  "next_fate s = (case fates s of [] \<Rightarrow> (Fine, s) | f # fs \<Rightarrow> (f, s\<lparr>fates := fs\<rparr>))"

definition execute :: "'a statement \<Rightarrow> (SqlError, 'a) tx" where
  "execute st s =
     (case next_fate s of
        (Dropped, s1) \<Rightarrow> (Inl Cancelled, s1)
      | (AckDropped, s1) \<Rightarrow> (Inl Cancelled, s1)
      | (Fine, s1) \<Rightarrow>
          (case st (work s1) of
             Inl e \<Rightarrow> (Inl (Fail e), s1)
           | Inr (x, d) \<Rightarrow> (Inr x, s1\<lparr>work := d\<rparr>))
      | (_, s1) \<Rightarrow> (Inl (Fail ConnectionLost), s1))"

text \<open>\<open>pool.acquire()\<close>, and \<open>begin\<close>: the transaction's view starts as the committed database.\<close>

definition pool_acquire :: "(SqlError, unit) tx" where
  "pool_acquire = execute (\<lambda>d. Inr ((), d))"

definition begin_transaction :: "(SqlError, unit) tx" where
  "begin_transaction =
     tx_then (execute (\<lambda>d. Inr ((), d))) (\<lambda>s. (Inr (), s\<lparr>work := committed s\<rparr>))"

definition commit :: "(SqlError, unit) tx" where
  "commit s =
     (case next_fate s of
        (Fine, s1) \<Rightarrow> (Inr (), s1\<lparr>committed := work s1\<rparr>)
      | (AckLost, s1) \<Rightarrow> (Inl (Fail ConnectionLost), s1\<lparr>committed := work s1\<rparr>)
      | (Lost, s1) \<Rightarrow> (Inl (Fail ConnectionLost), s1)
      | (Dropped, s1) \<Rightarrow> (Inl Cancelled, s1)
      | (AckDropped, s1) \<Rightarrow> (Inl Cancelled, s1\<lparr>committed := work s1\<rparr>))"

text \<open>\<open>let _ = transaction.rollback().await\<close>: its result is ignored.\<close>

definition rollback :: "('e, unit) tx" where
  "rollback s =
     (case next_fate s of
        (Dropped, s1) \<Rightarrow> (Inl Cancelled, s1\<lparr>work := committed s1\<rparr>)
      | (AckDropped, s1) \<Rightarrow> (Inl Cancelled, s1\<lparr>work := committed s1\<rparr>)
      | (_, s1) \<Rightarrow> (Inr (), s1\<lparr>work := committed s1\<rparr>))"

text \<open>Dropping an open transaction rolls it back.\<close>

definition drop_transaction :: "Session \<Rightarrow> Session" where
  "drop_transaction s = s\<lparr>work := committed s\<rparr>"

text \<open>A statement on the pool itself, in a transaction of its own (the service only reads so).\<close>

definition pool_query :: "'a statement \<Rightarrow> (SqlError, 'a) tx" where
  "pool_query st s =
     (case execute st (s\<lparr>work := committed s\<rparr>) of (r, s') \<Rightarrow> (r, drop_transaction s'))"

definition internal_sql :: "SqlError \<Rightarrow> AppError" where
  "internal_sql e = Internal (Sqlx e)"

abbreviation run_statement :: "'a statement \<Rightarrow> (AppError, 'a) tx" where
  "run_statement st \<equiv> map_err internal_sql (execute st)"

section \<open>TransactionObservation\<close>

record TransactionObservation =
  obs_operation :: FinancialOperation
  obs_completed :: bool

definition observation_started :: "FinancialOperation \<Rightarrow> TransactionObservation" where
  "observation_started op = \<lparr>obs_operation = op, obs_completed = False\<rparr>"

definition observation_idempotency ::
  "TransactionObservation \<Rightarrow> IdempotencyOutcome \<Rightarrow> Metric list" where
  "observation_idempotency obs outcome = [idempotency_metric (obs_operation obs) outcome]"

definition observation_complete ::
  "TransactionObservation \<Rightarrow> TerminalOutcome \<Rightarrow> FinancialReason
    \<Rightarrow> TransactionObservation \<times> Metric list" where
  "observation_complete obs outcome reason =
     (if obs_completed obs then (obs, [])
      else (obs\<lparr>obs_completed := True\<rparr>,
            [operation_completed_metric (obs_operation obs) outcome reason,
             transaction_duration_metric (obs_operation obs) outcome]))"

definition observation_reject ::
  "TransactionObservation \<Rightarrow> AppError \<Rightarrow> TransactionObservation \<times> Metric list" where
  "observation_reject obs e =
     (let (outcome, reason) = financial_metric_outcome e in observation_complete obs outcome reason)"

definition observation_drop :: "TransactionObservation \<Rightarrow> Metric list" where
  "observation_drop obs =
     (if \<not> obs_completed obs
      then snd (observation_complete obs Terminal_InternalError Reason_InternalError) else [])"

text \<open>
  The end of \<open>create_transfer\<close> and \<open>reverse_transfer\<close>: commit on success, roll back on an error,
  count the operation once, and on a panic or a cancellation let the destructors do so.
\<close>

definition unwind :: "TransactionObservation \<Rightarrow> Session \<Rightarrow> Session" where
  "unwind obs s = drop_transaction (s\<lparr>emitted := emitted s @ observation_drop obs\<rparr>)"

definition close_observation ::
  "TransactionObservation \<times> Metric list \<Rightarrow> Session \<Rightarrow> Session" where
  "close_observation p s = s\<lparr>emitted := emitted s @ snd p @ observation_drop (fst p)\<rparr>"

definition run_observed :: "FinancialOperation \<Rightarrow> (AppError, 'a) tx \<Rightarrow> (AppError, 'a) tx" where
  "run_observed op body s =
     (let obs = observation_started op in
      case body s of
        (Inr response, s1) \<Rightarrow>
          (case commit s1 of
             (Inr _, s2) \<Rightarrow>
               (Inr response, close_observation (observation_complete obs Terminal_Success Reason_None) s2)
           | (Inl (Fail e), s2) \<Rightarrow>
               (Inl (Fail (internal_sql e)),
                close_observation (observation_reject obs (internal_sql e)) (drop_transaction s2))
           | (Inl _, s2) \<Rightarrow> (Inl Cancelled, unwind obs s2))
      | (Inl (Fail e), s1) \<Rightarrow>
          (case rollback s1 of
             (Inr _, s2) \<Rightarrow> (Inl (Fail e), close_observation (observation_reject obs e) s2)
           | (Inl f, s2) \<Rightarrow> (Inl f, unwind obs s2))
      | (Inl f, s1) \<Rightarrow> (Inl f, unwind obs s1))"

section \<open>Successful runs\<close>

lemma tx_return_Inr [stmt_simps]: "tx_return x s = (Inr y, s') \<longleftrightarrow> y = x \<and> s' = s"
  by (auto simp: tx_return_def)

lemma tx_throw_Inr [stmt_simps]: "tx_throw e s \<noteq> (Inr y, s')"
  by (simp add: tx_throw_def)

lemma tx_panic_Inr [stmt_simps]: "tx_panic s \<noteq> (Inr y, s')"
  by (simp add: tx_panic_def)

lemma tx_bind_Inr [stmt_simps]:
  "tx_bind m f s = (Inr y, s') \<longleftrightarrow> (\<exists>x s1. m s = (Inr x, s1) \<and> f x s1 = (Inr y, s'))"
  by (auto simp: tx_bind_def split: prod.splits sum.splits)

lemma tx_then_Inr [stmt_simps]:
  "tx_then m m' s = (Inr y, s') \<longleftrightarrow> (\<exists>s1. m s = (Inr (), s1) \<and> m' s1 = (Inr y, s'))"
  by (simp add: tx_then_def tx_bind_Inr)

lemma map_err_Inr [stmt_simps]: "map_err f m s = (Inr y, s') \<longleftrightarrow> m s = (Inr y, s')"
  by (auto simp: map_err_def split: prod.splits sum.splits)

lemma from_result_Inr [stmt_simps]: "from_result r s = (Inr y, s') \<longleftrightarrow> r = Inr y \<and> s' = s"
  by (auto simp: from_result_def tx_return_def tx_throw_def split: sum.splits)

lemma ok_or_Inr [stmt_simps]: "ok_or e x s = (Inr y, s') \<longleftrightarrow> x = Some y \<and> s' = s"
  by (auto simp: ok_or_def tx_return_def tx_throw_def split: option.splits)

lemma ensure_Inr [stmt_simps]: "ensure b e s = (Inr y, s') \<longleftrightarrow> b \<and> s' = s"
  by (auto simp: ensure_def tx_return_def tx_throw_def)

lemma tx_expect_Inr [stmt_simps]: "tx_expect x s = (Inr y, s') \<longleftrightarrow> x = Some y \<and> s' = s"
  by (auto simp: tx_expect_def tx_return_def tx_panic_def split: option.splits)

lemma emit_Inr [stmt_simps]: "emit ms s = (Inr y, s') \<longleftrightarrow> s' = s\<lparr>emitted := emitted s @ ms\<rparr>"
  by (auto simp: emit_def)

text \<open>What survives of a statement's success: its effect on the transaction's view.\<close>

lemma execute_InrD:
  assumes "execute st s = (Inr x, s')"
  shows "st (work s) = Inr (x, work s') \<and> committed s' = committed s \<and> emitted s' = emitted s"
  using assms
  by (auto simp: execute_def next_fate_def split: prod.splits Fate.splits list.splits sum.splits)

section \<open>Undisturbed runs\<close>

text \<open>With no fate left the calls all run, and a handler is a function of the database.\<close>

lemma next_fate_Nil [simp]: "fates s = [] \<Longrightarrow> next_fate s = (Fine, s)"
  by (simp add: next_fate_def)

lemma execute_fine:
  "fates s = [] \<Longrightarrow> execute st s =
     (case st (work s) of Inl e \<Rightarrow> (Inl (Fail e), s) | Inr (x, d) \<Rightarrow> (Inr x, s\<lparr>work := d\<rparr>))"
  by (simp add: execute_def)

lemma begin_transaction_fine:
  "fates s = [] \<Longrightarrow> begin_transaction s = (Inr (), s\<lparr>work := committed s\<rparr>)"
  by (simp add: begin_transaction_def tx_then_def tx_bind_def execute_fine)

lemma pool_acquire_fine: "fates s = [] \<Longrightarrow> pool_acquire s = (Inr (), s)"
  by (simp add: pool_acquire_def execute_fine)

lemma commit_fine: "fates s = [] \<Longrightarrow> commit s = (Inr (), s\<lparr>committed := work s\<rparr>)"
  by (simp add: commit_def)

lemma rollback_fine: "fates s = [] \<Longrightarrow> rollback s = (Inr (), drop_transaction s)"
  by (simp add: rollback_def drop_transaction_def)

lemmas tx_run =
  tx_return_def tx_throw_def tx_panic_def tx_bind_def tx_then_def map_err_def from_result_def
  ok_or_def ensure_def tx_expect_def emit_def execute_fine map_fault_def

section \<open>Interrupted runs\<close>

text \<open>
  A computation is \<open>calm\<close> when it never touches the committed database and its only other
  behaviours, under any fates, are the ones it has undisturbed: it either stops on a lost
  connection (the error \<open>l\<close>) or a cancellation, or does exactly what it does with no fate left.
\<close>

definition calm :: "'e \<Rightarrow> ('e, 'a) tx \<Rightarrow> bool" where
  "calm l m \<longleftrightarrow>
     (\<forall>s r s'. m s = (r, s') \<longrightarrow>
        committed s' = committed s
        \<and> (r = Inl (Fail l) \<or> r = Inl Cancelled
           \<or> m (s\<lparr>fates := []\<rparr>) = (r, s'\<lparr>fates := []\<rparr>)))"

named_theorems calm_intros \<open>calm computations\<close>

lemma calmI:
  assumes "\<And>s r s'. m s = (r, s') \<Longrightarrow> committed s' = committed s"
    and "\<And>s r s'. m s = (r, s') \<Longrightarrow> r \<noteq> Inl (Fail l) \<Longrightarrow> r \<noteq> Inl Cancelled
           \<Longrightarrow> m (s\<lparr>fates := []\<rparr>) = (r, s'\<lparr>fates := []\<rparr>)"
  shows "calm l m"
  using assms unfolding calm_def by blast

lemma calmD:
  assumes "calm l m" and "m s = (r, s')"
  shows "committed s' = committed s"
    and "r \<noteq> Inl (Fail l) \<Longrightarrow> r \<noteq> Inl Cancelled \<Longrightarrow> m (s\<lparr>fates := []\<rparr>) = (r, s'\<lparr>fates := []\<rparr>)"
  using assms by (auto simp: calm_def)

lemma calm_return [calm_intros]: "calm l (tx_return x)"
  by (simp add: calm_def tx_return_def)

lemma calm_throw [calm_intros]: "calm l (tx_throw e)"
  by (simp add: calm_def tx_throw_def)

lemma calm_panic [calm_intros]: "calm l tx_panic"
  by (simp add: calm_def tx_panic_def)

lemma calm_from_result [calm_intros]: "calm l (from_result r)"
  by (cases r) (simp_all add: from_result_def calm_return calm_throw)

lemma calm_ok_or [calm_intros]: "calm l (ok_or e x)"
  by (cases x) (simp_all add: ok_or_def calm_return calm_throw)

lemma calm_ensure [calm_intros]: "calm l (ensure b e)"
  by (simp add: ensure_def calm_return calm_throw)

lemma calm_expect [calm_intros]: "calm l (tx_expect x)"
  by (cases x) (simp_all add: tx_expect_def calm_return calm_panic)

lemma calm_emit [calm_intros]: "calm l (emit ms)"
  by (simp add: calm_def emit_def)

lemma calm_bind [calm_intros]:
  assumes m: "calm l m" and f: "\<And>x. calm l (f x)"
  shows "calm l (tx_bind m f)"
proof (rule calmI)
  fix s r s' assume run: "tx_bind m f s = (r, s')"
  obtain r1 s1 where m1: "m s = (r1, s1)" by fastforce
  note cm = calmD [OF m m1]
  show "committed s' = committed s"
    using run m1 cm(1) calmD(1) [OF f] by (cases r1) (auto simp: tx_bind_def)
  assume r: "r \<noteq> Inl (Fail l)" "r \<noteq> Inl Cancelled"
  show "tx_bind m f (s\<lparr>fates := []\<rparr>) = (r, s'\<lparr>fates := []\<rparr>)"
  proof (cases r1)
    case (Inl e)
    with run m1 have "r = Inl e" "s' = s1" by (simp_all add: tx_bind_def)
    with r Inl cm(2) show ?thesis by (auto simp: tx_bind_def)
  next
    case (Inr x)
    with run m1 have fx: "f x s1 = (r, s')" by (simp add: tx_bind_def)
    from cm(2) Inr have "m (s\<lparr>fates := []\<rparr>) = (Inr x, s1\<lparr>fates := []\<rparr>)" by simp
    with calmD(2) [OF f fx r] show ?thesis by (simp add: tx_bind_def)
  qed
qed

lemma calm_then [calm_intros]: "calm l m \<Longrightarrow> calm l m' \<Longrightarrow> calm l (tx_then m m')"
  by (simp add: tx_then_def calm_bind)

lemma calm_map_err [calm_intros]:
  assumes "calm l m" and "f l = l'"
  shows "calm l' (map_err f m)"
proof (rule calmI)
  fix s r s' assume run: "map_err f m s = (r, s')"
  obtain r1 s1 where m1: "m s = (r1, s1)" by fastforce
  note cm = calmD [OF assms(1) m1]
  have s': "s' = s1" and r: "r = map_sum (map_fault f) id r1"
    using run m1 by (cases r1; simp add: map_err_def)+
  show "committed s' = committed s" using cm(1) s' by simp
  assume "r \<noteq> Inl (Fail l')" "r \<noteq> Inl Cancelled"
  then have "r1 \<noteq> Inl (Fail l)" "r1 \<noteq> Inl Cancelled"
    using r assms(2) by (auto simp: map_fault_def)
  then show "map_err f m (s\<lparr>fates := []\<rparr>) = (r, s'\<lparr>fates := []\<rparr>)"
    using cm(2) r s' by (cases r1) (simp_all add: map_err_def)
qed

lemma calm_execute [calm_intros]: "calm ConnectionLost (execute st)"
proof (rule calmI)
  fix s r s' assume run: "execute st s = (r, s')"
  show "committed s' = committed s"
    using run by (auto simp: execute_def next_fate_def
        split: prod.splits Fate.splits list.splits sum.splits)
  assume "r \<noteq> Inl (Fail ConnectionLost)" "r \<noteq> Inl Cancelled"
  then show "execute st (s\<lparr>fates := []\<rparr>) = (r, s'\<lparr>fates := []\<rparr>)"
    using run by (auto simp: execute_def next_fate_def
        split: prod.splits Fate.splits list.splits sum.splits)
qed

lemma calm_if [calm_intros]: "(b \<Longrightarrow> calm l m) \<Longrightarrow> (\<not> b \<Longrightarrow> calm l m') \<Longrightarrow> calm l (if b then m else m')"
  by simp

lemma calm_case_option [calm_intros]:
  "calm l m \<Longrightarrow> (\<And>x. calm l (f x)) \<Longrightarrow> calm l (case y of None \<Rightarrow> m | Some x \<Rightarrow> f x)"
  by (cases y) simp_all

lemma calm_case_prod [calm_intros]:
  "(\<And>a b. calm l (f a b)) \<Longrightarrow> calm l (case p of (a, b) \<Rightarrow> f a b)"
  by (cases p) simp

lemma calm_Let [calm_intros]: "(\<And>x. calm l (f x)) \<Longrightarrow> calm l (Let y f)"
  by simp

text \<open>
  A transaction whose body is calm commits what its undisturbed run computes, or nothing; a
  successful answer means it committed.
\<close>

definition lost :: AppError where
  "lost = internal_sql ConnectionLost"

lemma internal_sql_lost [calm_intros]: "internal_sql ConnectionLost = lost"
  by (simp add: lost_def)

lemma run_observed_cases:
  assumes body: "calm lost body" and run: "run_observed op body s = (r, s')"
  shows "(committed s' = committed s \<and> (\<forall>x. r \<noteq> Inr x))
    \<or> (\<exists>x sw. body (s\<lparr>fates := []\<rparr>) = (Inr x, sw) \<and> committed s' = work sw
         \<and> r \<in> {Inr x, Inl (Fail lost), Inl Cancelled})"
proof -
  obtain r1 s1 where b: "body s = (r1, s1)" by fastforce
  note cb = calmD [OF body b]
  show ?thesis
  proof (cases r1)
    case (Inl f)
    then have "committed s' = committed s1 \<and> (\<forall>x. r \<noteq> Inr x)"
      using run b
      by (cases f) (auto simp: run_observed_def Let_def unwind_def drop_transaction_def
          close_observation_def rollback_def next_fate_def
          split: prod.splits Fate.splits list.splits)
    with cb(1) show ?thesis by simp
  next
    case (Inr x)
    then have "body (s\<lparr>fates := []\<rparr>) = (Inr x, s1\<lparr>fates := []\<rparr>)" using cb(2) by simp
    moreover have "(committed s' = committed s1 \<and> (\<forall>x. r \<noteq> Inr x))
        \<or> committed s' = work s1 \<and> r \<in> {Inr x, Inl (Fail lost), Inl Cancelled}"
      using run b Inr
      by (auto simp: run_observed_def Let_def unwind_def drop_transaction_def lost_def
          close_observation_def commit_def next_fate_def
          split: prod.splits Fate.splits list.splits)
    ultimately show ?thesis using cb(1) by auto
  qed
qed

lemma run_observed_fine:
  assumes "fates s = []" and "body s = (r, s1)" and "fates s1 = []"
  shows "fst (run_observed fin body s) = r
    \<and> committed (snd (run_observed fin body s)) = (case r of Inl _ \<Rightarrow> committed s1 | Inr _ \<Rightarrow> work s1)"
  using assms
  by (cases r; cases "projl r")
     (simp_all add: run_observed_def commit_fine rollback_fine close_observation_def
        drop_transaction_def unwind_def Let_def)

section \<open>A transaction that the handler commits itself\<close>

text \<open>
  \<open>create_account\<close>: begin, the body, commit, then an answer built from the body's result; the
  transaction is dropped when an error leaves the handler before the commit.
\<close>

definition transactional ::
  "(AppError, 'a) tx \<Rightarrow> ('a \<Rightarrow> (AppError, 'b) tx) \<Rightarrow> (AppError, 'b) tx" where
  "transactional body answer =
     tx_then (map_err internal_sql begin_transaction) (\<lambda>s.
       case tx_bind body (\<lambda>x. tx_then (map_err internal_sql commit) (answer x)) s of
         (Inr y, s') \<Rightarrow> (Inr y, s')
       | (Inl f, s') \<Rightarrow> (Inl f, drop_transaction s'))"

lemma commit_cases:
  assumes "commit s = (r, s')"
  shows "(committed s' = committed s \<and> (\<forall>x. r \<noteq> Inr x)) \<or> committed s' = work s"
  using assms by (auto simp: commit_def next_fate_def split: prod.splits Fate.splits list.splits)

lemma begin_transaction_cases:
  assumes "begin_transaction s = (r, s')"
  shows "committed s' = committed s \<and> (\<forall>x. r = Inr x \<longrightarrow> work s' = committed s)"
  using assms
  by (auto simp: begin_transaction_def tx_then_def tx_bind_def execute_def next_fate_def
      split: prod.splits Fate.splits list.splits sum.splits)

lemma begin_transaction_Inr:
  assumes "begin_transaction s = (Inr x, s')"
  shows "s'\<lparr>fates := []\<rparr> = s\<lparr>work := committed s, fates := []\<rparr>"
  using assms
  by (auto simp: begin_transaction_def tx_then_def tx_bind_def execute_def next_fate_def
      split: prod.splits Fate.splits list.splits sum.splits)

lemma transactional_cases:
  assumes body: "calm lost body"
    and answer: "\<And>x s r s'. answer x s = (r, s') \<Longrightarrow> committed s' = committed s"
    and run: "transactional body answer s = (r, s')"
  shows "(committed s' = committed s \<and> (\<forall>y. r \<noteq> Inr y))
    \<or> (\<exists>x sw. body (s\<lparr>work := committed s, fates := []\<rparr>) = (Inr x, sw) \<and> committed s' = work sw
         \<and> (\<forall>y. r = Inr y \<longrightarrow> (\<exists>s1 s2. answer x s1 = (Inr y, s2))))"
proof -
  obtain r0 s0 where b0: "begin_transaction s = (r0, s0)" by fastforce
  note c0 = begin_transaction_cases [OF b0]
  show ?thesis
  proof (cases r0)
    case (Inl f)
    then show ?thesis
      using run b0 c0 by (auto simp: transactional_def tx_then_def tx_bind_def map_err_def)
  next
    case (Inr u)
    note beg = begin_transaction_Inr [OF b0 [unfolded Inr]]
    obtain r1 s1 where b1: "body s0 = (r1, s1)" by fastforce
    note cb = calmD [OF body b1]
    show ?thesis
    proof (cases r1)
      case (Inl f)
      then show ?thesis
        using run b0 c0 b1 cb(1) Inr
        by (auto simp: transactional_def tx_then_def tx_bind_def map_err_def drop_transaction_def)
    next
      case (Inr x)
      then have fine: "body (s\<lparr>work := committed s, fates := []\<rparr>) = (Inr x, s1\<lparr>fates := []\<rparr>)"
        using cb(2) by (simp add: beg)
      obtain r2 s2 where b2: "commit s1 = (r2, s2)" by fastforce
      obtain r3 s3 where b3: "answer x s2 = (r3, s3)" by fastforce
      have "(committed s' = committed s \<and> (\<forall>y. r \<noteq> Inr y))
          \<or> committed s' = work s1 \<and> (\<forall>y. r = Inr y \<longrightarrow> (\<exists>s1 s2. answer x s1 = (Inr y, s2)))"
        using run b0 \<open>r0 = Inr u\<close> b1 Inr b2 b3 commit_cases [OF b2] answer [OF b3] cb(1) c0
        by (cases r2; cases r3)
           (auto simp: transactional_def tx_then_def tx_bind_def map_err_def drop_transaction_def)
      then show ?thesis using fine by auto
    qed
  qed
qed

lemma transactional_fine:
  assumes "fates s = []" and "body (s\<lparr>work := committed s\<rparr>) = (r, s1)" and "fates s1 = []"
  shows "transactional body answer s =
    (case r of
       Inl f \<Rightarrow> (Inl f, drop_transaction s1)
     | Inr x \<Rightarrow>
         (case answer x (s1\<lparr>committed := work s1\<rparr>) of
            (Inr y, s') \<Rightarrow> (Inr y, s') | (Inl f, s') \<Rightarrow> (Inl f, drop_transaction s')))"
  using assms
  by (cases r) (simp_all add: transactional_def tx_then_def tx_bind_def map_err_def
      begin_transaction_fine commit_fine)

text \<open>A successful run of a calm computation is its undisturbed run.\<close>

lemma calm_Inr_fine:
  assumes "calm l m" and "m s = (Inr x, s')"
  shows "m (s\<lparr>fates := []\<rparr>) = (Inr x, s'\<lparr>fates := []\<rparr>)"
  using calmD(2) [OF assms] by simp

end
