(* ===== verification/Ledger_Codec.thy ===== *)
theory Ledger_Codec
  imports Ledger_Prelude
begin

text \<open>
  Byte encodings the service builds: big-endian machine integers and UUID bytes (the preimages
  of the request fingerprints) and the lower-case hexadecimal of the history cursor.  The
  interface \<open>codec\<close> states what their clients use: a decoder undoes the encoder; \<open>fixed_codec\<close>
  adds a fixed width, which makes concatenations decodable.
\<close>

locale codec =
  fixes enc :: "'a \<Rightarrow> 'b" and dec :: "'b \<Rightarrow> 'a option"
  assumes dec_enc: "dec (enc x) = Some x"
begin

lemma enc_inject: "enc x = enc y \<longleftrightarrow> x = y"
  by (metis dec_enc option.inject)

end

locale fixed_codec = codec enc dec
  for enc :: "'a \<Rightarrow> string" and dec :: "string \<Rightarrow> 'a option" +
  fixes width :: nat
  assumes length_enc: "length (enc x) = width"
begin

lemma enc_append_inject: "enc x @ s = enc y @ t \<longleftrightarrow> x = y \<and> s = t"
  by (simp add: append_eq_append_conv length_enc enc_inject)

end

section \<open>Big-endian integers\<close>

fun be_bytes :: "nat \<Rightarrow> nat \<Rightarrow> string" where
  "be_bytes 0 n = []"
| "be_bytes (Suc k) n = be_bytes k (n div 256) @ [char_of n]"

definition be_value :: "string \<Rightarrow> nat" where
  "be_value s = foldl (\<lambda>n c. 256 * n + of_char c) 0 s"

lemma length_be_bytes [simp]: "length (be_bytes k n) = k"
  by (induction k arbitrary: n) auto

lemma be_value_snoc [simp]: "be_value (s @ [c]) = 256 * be_value s + of_char c"
  by (simp add: be_value_def)

lemma be_value_bytes: "n < 256 ^ k \<Longrightarrow> be_value (be_bytes k n) = n"
proof (induction k arbitrary: n)
  case 0
  then show ?case by (simp add: be_value_def)
next
  case (Suc k)
  then have "n div 256 < 256 ^ k" by (simp add: less_mult_imp_div_less mult.commute)
  then show ?case using Suc.IH by simp
qed

text \<open>\<open>i64::to_be_bytes\<close> and \<open>Uuid::as_bytes\<close>.\<close>

definition i64_to_be_bytes :: "i64 \<Rightarrow> string" where
  "i64_to_be_bytes a = be_bytes 8 (unat a)"

definition i64_from_be_bytes :: "string \<Rightarrow> i64 option" where
  "i64_from_be_bytes s = (if length s = 8 then Some (of_nat (be_value s)) else None)"

definition uuid_as_bytes :: "uuid \<Rightarrow> string" where
  "uuid_as_bytes u = be_bytes 16 (unat u)"

definition uuid_from_bytes :: "string \<Rightarrow> uuid option" where
  "uuid_from_bytes s = (if length s = 16 then Some (of_nat (be_value s)) else None)"

interpretation i64_bytes: fixed_codec i64_to_be_bytes i64_from_be_bytes 8
proof
  fix a :: i64
  have "unat a < 2 ^ LENGTH(64)" by (rule unsigned_less)
  then have "unat a < 256 ^ 8" by simp
  then show "i64_from_be_bytes (i64_to_be_bytes a) = Some a"
    by (simp add: i64_from_be_bytes_def i64_to_be_bytes_def be_value_bytes)
  show "length (i64_to_be_bytes a) = 8" by (simp add: i64_to_be_bytes_def)
qed

interpretation uuid_bytes: fixed_codec uuid_as_bytes uuid_from_bytes 16
proof
  fix u :: uuid
  have "unat u < 2 ^ LENGTH(128)" by (rule unsigned_less)
  then have "unat u < 256 ^ 16" by simp
  then show "uuid_from_bytes (uuid_as_bytes u) = Some u"
    by (simp add: uuid_from_bytes_def uuid_as_bytes_def be_value_bytes)
  show "length (uuid_as_bytes u) = 16" by (simp add: uuid_as_bytes_def)
qed

interpretation decimal: codec show_nat parse_digits
  by unfold_locales simp

section \<open>Hexadecimal\<close>

definition hex_digit :: "nat \<Rightarrow> char" where
  "hex_digit d = (if d < 10 then char_of (48 + d) else char_of (87 + d))"

definition hex_digit_value :: "char \<Rightarrow> nat" where
  "hex_digit_value c =
     (let n = of_char c in if n \<le> 57 then n - 48 else if n \<le> 70 then n - 55 else n - 87)"

text \<open>\<open>write!(output, "{byte:02x}")\<close> over the bytes.\<close>

primrec hex_encode :: "string \<Rightarrow> string" where
  "hex_encode [] = []"
| "hex_encode (c # s) =
     hex_digit (of_char c div 16) # hex_digit (of_char c mod 16) # hex_encode s"

text \<open>
  Two hexadecimal digits at a time, as \<open>u8::from_str_radix\<close> reads them; \<open>None\<close> on an odd
  length or another byte.
\<close>

fun hex_decode :: "string \<Rightarrow> string option" where
  "hex_decode [] = Some []"
| "hex_decode [_] = None"
| "hex_decode (a # b # s) =
     (if is_ascii_hexdigit a \<and> is_ascii_hexdigit b
      then map_option ((#) (char_of (16 * hex_digit_value a + hex_digit_value b))) (hex_decode s)
      else None)"

lemma hex_digit_props [simp]:
  assumes "d < 16"
  shows "is_ascii_hexdigit (hex_digit d)" and "hex_digit_value (hex_digit d) = d"
  using assms
  by (auto simp: hex_digit_def hex_digit_value_def is_ascii_hexdigit_def is_ascii_digit_def Let_def)

lemma of_char_lt [simp]: "(of_char c :: nat) < 256"
  using nat_of_char_less_256 [of c] by simp

lemma hex_decode_encode: "hex_decode (hex_encode s) = Some s"
proof (induction s)
  case (Cons c s)
  have "(of_char c :: nat) div 16 < 16" "(of_char c :: nat) mod 16 < 16"
    by (simp_all add: less_mult_imp_div_less)
  moreover have "16 * (of_char c div 16) + of_char c mod 16 = (of_char c :: nat)" by simp
  ultimately show ?case using Cons.IH by simp
qed simp

interpretation hex: codec hex_encode hex_decode
  by unfold_locales (rule hex_decode_encode)

lemma hex_encode_Nil_iff [simp]: "hex_encode s = [] \<longleftrightarrow> s = []"
  by (cases s) simp_all

lemma hex_encode_hexdigits: "list_all is_ascii_hexdigit (hex_encode s)"
  by (induction s) (simp_all add: less_mult_imp_div_less)

lemma even_length_hex_encode: "even (length (hex_encode s))"
  by (induction s) simp_all

end
