(* ===== verification/Platform.thy ===== *)
theory Platform
  imports Txn Ledger_Codec
begin

text \<open>
  What the handlers take from outside the repository: the crates' conversions they call
  (\<open>Platform\<close>, parameters of the model), the values drawn during a request (\<open>Ambient\<close>: the
  transaction's timestamp and the fresh UUIDs, in the order they are drawn), the application
  state, requests and responses.
\<close>

record Platform =
  parse_uuid :: "string \<Rightarrow> uuid option"
  show_uuid :: "uuid \<Rightarrow> string"
  sha256_hex :: "string \<Rightarrow> string"
  header_to_str :: "string \<Rightarrow> string option"
  timestamptz_text :: "timestamp \<Rightarrow> string"
  to_rfc3339 :: "timestamp \<Rightarrow> string"
  status_from_u16 :: "nat \<Rightarrow> nat option"

record Ambient =
  tx_time :: timestamp
  new_v4 :: "nat \<Rightarrow> uuid"

text \<open>\<open>AppState\<close>: the retention is a \<open>Duration\<close> in whole seconds (\<open>u64\<close>).\<close>

record AppState =
  idempotency_retention :: "64 word"

type_synonym HeaderMap = "(string \<times> string) list"

definition get_all :: "string \<Rightarrow> HeaderMap \<Rightarrow> string list" where
  "get_all name headers = map snd (filter (\<lambda>h. fst h = name) headers)"

record Response =
  resp_status :: nat
  resp_body :: Value

text \<open>\<open>StatusCode::from_u16(http_status as u16)\<close> and the response it starts.\<close>

definition stored_status :: "Platform \<Rightarrow> i32 \<Rightarrow> AppError + nat" where
  "stored_status P s =
     (case status_from_u16 P (unat (ucast s :: u16)) of
        None \<Rightarrow> Inl (Internal InvalidStatusCode) | Some n \<Rightarrow> Inr n)"

definition stored_response :: "Platform \<Rightarrow> i32 \<Rightarrow> Value \<Rightarrow> (AppError, Response) tx" where
  "stored_response P s body =
     tx_bind (from_result (stored_status P s))
       (\<lambda>status. tx_return \<lparr>resp_status = status, resp_body = body\<rparr>)"

definition u8_try_from :: "i16 \<Rightarrow> AppError + u8" where
  "u8_try_from x =
     (if 0 \<le> sint x \<and> sint x \<le> 255 then Inr (ucast x) else Inl (Internal TryFromInt))"

definition uuid_value :: "Platform \<Rightarrow> uuid \<Rightarrow> Value" where
  "uuid_value P u = JString (show_uuid P u)"

text \<open>
  \<open>format_minor_units\<close> in a handler: its only failure is the division by zero of a scale of 128
  and more, a panic.
\<close>

definition format_amount :: "i64 \<Rightarrow> u8 \<Rightarrow> ('e, string) tx" where
  "format_amount a scale = tx_expect (format_minor_units a scale)"

definition invalid_json :: AppError where
  "invalid_json = Validation ''invalid_json'' ''The request body is invalid''"

definition malformed_account_id :: AppError where
  "malformed_account_id = Validation ''malformed_account_id'' ''The account ID is invalid''"

definition malformed_transfer_id :: AppError where
  "malformed_transfer_id = Validation ''malformed_transfer_id'' ''The transfer ID is invalid''"

text \<open>
  The documented behaviour of the crates that the properties rely on: status codes 100 to 999
  are accepted, a SHA-256 digest prints as nonempty hexadecimal.
\<close>

definition platform_ok :: "Platform \<Rightarrow> bool" where
  "platform_ok P \<longleftrightarrow>
     (\<forall>n. 100 \<le> n \<and> n \<le> 999 \<longrightarrow> status_from_u16 P n = Some n)
     \<and> (\<forall>b. sha256_hex P b \<noteq> [] \<and> list_all is_ascii_hexdigit (sha256_hex P b))"

lemma platform_status: "platform_ok P \<Longrightarrow> 100 \<le> n \<Longrightarrow> n \<le> 999 \<Longrightarrow> status_from_u16 P n = Some n"
  by (simp add: platform_ok_def)

lemma visible_not_space: "is_visible_ascii c \<Longrightarrow> \<not> pg_space c"
  by (auto simp: is_visible_ascii_def pg_space_def)

lemma nonblank_visible: "s \<noteq> [] \<Longrightarrow> list_all is_visible_ascii s \<Longrightarrow> nonblank s"
  by (cases s) (auto simp: nonblank_def visible_not_space)

lemma hexdigit_visible: "is_ascii_hexdigit c \<Longrightarrow> is_visible_ascii c"
  by (auto simp: is_ascii_hexdigit_def is_ascii_digit_def is_visible_ascii_def)

lemma platform_digest: "platform_ok P \<Longrightarrow> nonblank (sha256_hex P b)"
  by (auto simp: platform_ok_def list_all_iff intro!: nonblank_visible hexdigit_visible)

lemma calm_stored_response [calm_intros]: "calm l (stored_response P s body)"
  by (simp add: stored_response_def calm_intros)

lemma calm_format_amount [calm_intros]: "calm l (format_amount a scale)"
  by (simp add: format_amount_def calm_intros)

text \<open>A stored \<open>2xx\<close> status comes back as the status it was stored from.\<close>

lemma stored_status_2xx:
  assumes "platform_ok P" and "200 \<le> sint s" and "sint s \<le> 299"
  shows "stored_status P s = Inr (nat (sint s))"
proof -
  have u: "uint s = sint s"
    using assms(2,3) by (simp add: uint_sint take_bit_int_eq_self_iff)
  have "uint (ucast s :: u16) = take_bit 16 (uint s)" by (simp add: unsigned_ucast_eq)
  also have "\<dots> = sint s" using assms(2,3) u by (simp add: take_bit_int_eq_self_iff)
  finally have "unat (ucast s :: u16) = nat (sint s)"
    by (metis nat_uint_eq)
  then show ?thesis
    using assms by (simp add: stored_status_def platform_status)
qed

section \<open>A concrete platform\<close>

text \<open>
  Concrete functions for the parameters, on which the properties are evaluated: identifiers
  print as decimal numerals, a digest is the text of its preimage in hexadecimal.
\<close>

definition demo_platform :: Platform where
  "demo_platform =
     \<lparr>parse_uuid = (\<lambda>s. map_option of_nat (parse_digits s)),
      show_uuid = (\<lambda>u. show_nat (unat u)),
      sha256_hex = (\<lambda>b. CHR ''a'' # hex_encode b),
      header_to_str = (\<lambda>b. if header_text b then Some b else None),
      timestamptz_text = show_int, to_rfc3339 = show_int,
      status_from_u16 = (\<lambda>n. if 100 \<le> n \<and> n \<le> 999 then Some n else None)\<rparr>"

lemma demo_platform_ok [simp]: "platform_ok demo_platform"
  by (auto simp: platform_ok_def demo_platform_def hex_encode_hexdigits is_ascii_hexdigit_def)

definition demo_state :: AppState where
  "demo_state = \<lparr>idempotency_retention = 86400\<rparr>"

definition demo_ambient :: Ambient where
  "demo_ambient = \<lparr>tx_time = 1000, new_v4 = (\<lambda>n. of_nat (100 + n))\<rparr>"

definition demo_session :: "Database \<Rightarrow> Session" where
  "demo_session d = \<lparr>committed = d, work = d, fates = [], emitted = []\<rparr>"

definition demo_headers :: HeaderMap where
  "demo_headers = [(''idempotency-key'', ''k1'')]"

end
