(* ===== verification/Jwt.thy ===== *)
theory Jwt
  imports Ledger_Prelude
begin

text \<open>
  What the service uses of the \<open>jsonwebtoken\<close> crate: reading an RSA public key, the validation
  that \<open>Validation::new\<close> starts from, and the verification of a token.  They are parameters of
  the model; the service's own claims and the settings it makes are records.
\<close>

record Validation =
  val_algorithm :: string
  val_issuers :: "string list"
  val_audiences :: "string list"
  val_required_claims :: "string list"

record Claims =
  claims_sub :: "string option"

record 'key Jwt =
  from_rsa_pem :: "string \<Rightarrow> 'key option"
  validation_new :: "string \<Rightarrow> Validation"
  jwt_decode :: "string \<Rightarrow> 'key \<Rightarrow> Validation \<Rightarrow> Claims option"

text \<open>A concrete crate on which the properties are evaluated: one good token, \<open>t1\<close>.\<close>

definition demo_jwt :: "string Jwt" where
  "demo_jwt =
     \<lparr>from_rsa_pem = (\<lambda>pem. if pem = [] then None else Some pem),
      validation_new = (\<lambda>alg. \<lparr>val_algorithm = alg, val_issuers = [], val_audiences = [],
                                val_required_claims = [''exp'']\<rparr>),
      jwt_decode = (\<lambda>token key v. if token = ''t1'' \<and> ''exp'' \<in> set (val_required_claims v)
                                    then Some \<lparr>claims_sub = Some ''alice''\<rparr> else None)\<rparr>"

end
