(* ===== verification/Socket_Addr.thy ===== *)
theory Socket_Addr
  imports Ledger_Prelude
begin

text \<open>
  \<open>SocketAddr::from_str\<close> of Rust's standard library, which \<open>src/config.rs\<close> applies to
  \<open>BIND_ADDRESS\<close>: an IPv4 address or a bracketed IPv6 address with a port.  A parser returns its
  result and the rest of the text; a failing one consumes nothing.
\<close>

datatype SocketAddr =
    SocketAddr_V4 "int list" int
  | SocketAddr_V6 "int list" int int

definition radix_digit :: "nat \<Rightarrow> char \<Rightarrow> bool" where
  "radix_digit radix c \<longleftrightarrow> (if radix = 16 then is_ascii_hexdigit c else is_ascii_digit c)"

definition radix_value :: "char \<Rightarrow> int" where
  "radix_value c =
     (let n = (of_char c :: int) in if n \<le> 57 then n - 48 else if n \<le> 70 then n - 55 else n - 87)"

definition read_given_char :: "char \<Rightarrow> string \<Rightarrow> string option" where
  "read_given_char c s = (case s of [] \<Rightarrow> None | x # xs \<Rightarrow> if x = c then Some xs else None)"

definition read_number ::
  "nat \<Rightarrow> nat option \<Rightarrow> bool \<Rightarrow> int \<Rightarrow> string \<Rightarrow> (int \<times> string) option" where
  "read_number radix max_digits allow_zero_prefix hi s =
     (let ds = takeWhile (radix_digit radix) s;
          n = foldl (\<lambda>n c. int radix * n + radix_value c) 0 ds
      in if ds = [] \<or> (case max_digits of None \<Rightarrow> False | Some m \<Rightarrow> m < length ds)
           \<or> \<not> allow_zero_prefix \<and> hd ds = CHR ''0'' \<and> 1 < length ds \<or> hi < n
         then None else Some (n, dropWhile (radix_digit radix) s))"

definition read_separator ::
  "char \<Rightarrow> nat \<Rightarrow> (string \<Rightarrow> ('a \<times> string) option) \<Rightarrow> string \<Rightarrow> ('a \<times> string) option" where
  "read_separator sep i inner s =
     (if 0 < i then Option.bind (read_given_char sep s) inner else inner s)"

fun read_octets :: "nat \<Rightarrow> nat \<Rightarrow> string \<Rightarrow> (int list \<times> string) option" where
  "read_octets 0 i s = Some ([], s)"
| "read_octets (Suc n) i s =
     Option.bind (read_separator CHR ''.'' i (read_number 10 (Some 3) False 255) s) (\<lambda>(x, s).
     Option.bind (read_octets n (Suc i) s) (\<lambda>(xs, s). Some (x # xs, s)))"

definition read_ipv4_addr :: "string \<Rightarrow> (int list \<times> string) option" where
  "read_ipv4_addr s = read_octets 4 0 s"

text \<open>Up to \<open>n\<close> groups, the last two possibly written as an IPv4 address.\<close>

fun read_groups :: "nat \<Rightarrow> nat \<Rightarrow> string \<Rightarrow> int list \<times> bool \<times> string" where
  "read_groups 0 i s = ([], False, s)"
| "read_groups (Suc n) i s =
     (case (if 0 < n then read_separator CHR '':'' i read_ipv4_addr s else None) of
        Some (octets, s') \<Rightarrow>
          ([256 * octets ! 0 + octets ! 1, 256 * octets ! 2 + octets ! 3], True, s')
      | None \<Rightarrow>
          (case read_separator CHR '':'' i (read_number 16 (Some 4) True 65535) s of
             Some (g, s') \<Rightarrow> (case read_groups n (Suc i) s' of (gs, v4, s'') \<Rightarrow> (g # gs, v4, s''))
           | None \<Rightarrow> ([], False, s)))"

definition read_ipv6_addr :: "string \<Rightarrow> (int list \<times> string) option" where
  "read_ipv6_addr s =
     (case read_groups 8 0 s of
        (head, head_v4, s1) \<Rightarrow>
          (if length head = 8 then Some (head, s1)
           else if head_v4 then None
           else
             Option.bind (read_given_char CHR '':'' s1) (\<lambda>s2.
             Option.bind (read_given_char CHR '':'' s2) (\<lambda>s3.
               (case read_groups (8 - (length head + 1)) 0 s3 of
                  (tail, _, s4) \<Rightarrow>
                    Some (head @ replicate (8 - length head - length tail) 0 @ tail, s4))))))"

definition read_port :: "string \<Rightarrow> (int \<times> string) option" where
  "read_port s = Option.bind (read_given_char CHR '':'' s) (read_number 10 None True 65535)"

definition read_scope_id :: "string \<Rightarrow> (int \<times> string) option" where
  "read_scope_id s =
     Option.bind (read_given_char CHR ''%'' s) (read_number 10 None True 4294967295)"

definition read_socket_addr_v4 :: "string \<Rightarrow> (SocketAddr \<times> string) option" where
  "read_socket_addr_v4 s =
     Option.bind (read_ipv4_addr s) (\<lambda>(ip, s1).
     Option.bind (read_port s1) (\<lambda>(port, s2). Some (SocketAddr_V4 ip port, s2)))"

definition read_socket_addr_v6 :: "string \<Rightarrow> (SocketAddr \<times> string) option" where
  "read_socket_addr_v6 s =
     Option.bind (read_given_char CHR ''['' s) (\<lambda>s1.
     Option.bind (read_ipv6_addr s1) (\<lambda>(ip, s2).
     (let (scope_id, s3) = (case read_scope_id s2 of None \<Rightarrow> (0, s2) | Some r \<Rightarrow> r) in
     Option.bind (read_given_char CHR '']'' s3) (\<lambda>s4.
     Option.bind (read_port s4) (\<lambda>(port, s5). Some (SocketAddr_V6 ip port scope_id, s5))))))"

definition parse_socket_addr :: "string \<Rightarrow> SocketAddr option" where
  "parse_socket_addr s =
     (case (case read_socket_addr_v4 s of None \<Rightarrow> read_socket_addr_v6 s | r \<Rightarrow> r) of
        Some (a, []) \<Rightarrow> Some a
      | _ \<Rightarrow> None)"

lemma default_bind_address:
  "parse_socket_addr ''0.0.0.0:3000'' = Some (SocketAddr_V4 [0, 0, 0, 0] 3000)"
  by code_simp

end
