(* ===== verification/Config.thy ===== *)
theory Config
  imports Jwt Socket_Addr
begin

text \<open>
  Component \<open>config\<close> (\<open>src/config.rs\<close>): the service's settings from its environment, with their
  defaults and checks in the order the code makes them.  An error is the message of its outermost
  context, which is what the error displays.  Durations are whole seconds (\<open>u64\<close>).
\<close>

type_synonym u32 = "32 word"
type_synonym u64 = "64 word"

section \<open>Settings\<close>

record AuthConfig =
  auth_issuer :: string
  auth_audience :: string
  auth_public_key_pem :: string

record PoolConfig =
  max_connections :: u32
  min_connections :: u32
  acquire_timeout :: u64
  connect_timeout :: u64

record Config =
  database_url :: string
  bind_address :: SocketAddr
  pool :: PoolConfig
  log_filter :: string
  config_auth :: AuthConfig
  config_idempotency_retention :: u64

type_synonym Values = "string \<Rightarrow> string option"

text \<open>\<open>collect\<close> into a \<open>HashMap\<close>: a later value of a name replaces an earlier one.\<close>

definition collect_values :: "(string \<times> string) list \<Rightarrow> Values" where
  "collect_values items = map_of (rev items)"

definition nonblank_value :: "string \<Rightarrow> string \<Rightarrow> string + string" where
  "nonblank_value s name = (if trim s = [] then Inl (name @ '' must be set'') else Inr s)"

definition required_value :: "Values \<Rightarrow> string \<Rightarrow> string + string" where
  "required_value values name =
     (case values name of
        Some s \<Rightarrow> if trim s \<noteq> [] then Inr s else Inl (name @ '' must be set'')
      | None \<Rightarrow> Inl (name @ '' must be set''))"

definition optional_value :: "Values \<Rightarrow> string \<Rightarrow> string \<Rightarrow> string" where
  "optional_value values name dflt = (case values name of None \<Rightarrow> dflt | Some s \<Rightarrow> s)"

definition parse_u32 :: "Values \<Rightarrow> string \<Rightarrow> u32 \<Rightarrow> string + u32" where
  "parse_u32 values name dflt =
     (case parse_unsigned (2 ^ 32 - 1) (optional_value values name (show_nat (unat dflt))) of
        None \<Rightarrow> Inl (name @ '' must be a non-negative integer'')
      | Some n \<Rightarrow> Inr (word_of_int n))"

definition parse_seconds :: "Values \<Rightarrow> string \<Rightarrow> u64 \<Rightarrow> string + u64" where
  "parse_seconds values name dflt =
     (case parse_unsigned (2 ^ 64 - 1) (optional_value values name (show_nat (unat dflt))) of
        None \<Rightarrow> Inl (name @ '' must be a positive number of seconds'')
      | Some n \<Rightarrow>
          (if (word_of_int n :: u64) = 0 then Inl (name @ '' must be greater than zero'')
           else Inr (word_of_int n)))"

definition result_bind :: "'e + 'a \<Rightarrow> ('a \<Rightarrow> 'e + 'b) \<Rightarrow> 'e + 'b" where
  "result_bind r f = (case r of Inl e \<Rightarrow> Inl e | Inr x \<Rightarrow> f x)"

definition auth_config_new ::
  "'key Jwt \<Rightarrow> string \<Rightarrow> string \<Rightarrow> string \<Rightarrow> string + AuthConfig" where
  "auth_config_new J issuer audience public_key_pem =
     result_bind (nonblank_value issuer ''JWT_ISSUER'') (\<lambda>issuer.
     result_bind (nonblank_value audience ''JWT_AUDIENCE'') (\<lambda>audience.
     (case from_rsa_pem J public_key_pem of
        None \<Rightarrow> Inl ''JWT_PUBLIC_KEY_PEM must contain a valid RSA public key''
      | Some _ \<Rightarrow> Inr \<lparr>auth_issuer = issuer, auth_audience = audience,
                       auth_public_key_pem = public_key_pem\<rparr>)))"

definition config_from_values :: "'key Jwt \<Rightarrow> (string \<times> string) list \<Rightarrow> string + Config" where
  "config_from_values J items =
     (let values = collect_values items in
     result_bind (required_value values ''DATABASE_URL'') (\<lambda>url.
     result_bind (case parse_socket_addr (optional_value values ''BIND_ADDRESS'' ''0.0.0.0:3000'') of
                    None \<Rightarrow> Inl ''BIND_ADDRESS must be a valid socket address''
                  | Some a \<Rightarrow> Inr a) (\<lambda>address.
     result_bind (parse_u32 values ''DB_MAX_CONNECTIONS'' 10) (\<lambda>mx.
     result_bind (parse_u32 values ''DB_MIN_CONNECTIONS'' 0) (\<lambda>mn.
     if mx < mn then Inl ''DB_MIN_CONNECTIONS must not exceed DB_MAX_CONNECTIONS''
     else
     result_bind (required_value values ''JWT_ISSUER'') (\<lambda>issuer.
     result_bind (required_value values ''JWT_AUDIENCE'') (\<lambda>audience.
     result_bind (required_value values ''JWT_PUBLIC_KEY_PEM'') (\<lambda>pem.
     result_bind (auth_config_new J issuer audience pem) (\<lambda>a.
     result_bind (parse_seconds values ''DB_ACQUIRE_TIMEOUT_SECS'' 5) (\<lambda>acquire.
     result_bind (parse_seconds values ''DB_CONNECT_TIMEOUT_SECS'' 5) (\<lambda>connect.
     result_bind (parse_seconds values ''IDEMPOTENCY_RETENTION_SECS'' 86400) (\<lambda>retention.
       Inr \<lparr>database_url = url, bind_address = address,
            pool = \<lparr>max_connections = mx, min_connections = mn,
                    acquire_timeout = acquire, connect_timeout = connect\<rparr>,
            log_filter = optional_value values ''RUST_LOG'' ''info'',
            config_auth = a, config_idempotency_retention = retention\<rparr>))))))))))))"

text \<open>What \<open>{:?}\<close> shows of a configuration: the secrets are replaced.\<close>

datatype DebugField =
  Redacted string | Shown_Address SocketAddr | Shown_Pool PoolConfig | Shown_Text string | Shown_Seconds u64

definition config_debug :: "Config \<Rightarrow> (string \<times> DebugField) list" where
  "config_debug c =
     [(''database_url'', Redacted ''[REDACTED]''), (''bind_address'', Shown_Address (bind_address c)),
      (''pool'', Shown_Pool (pool c)), (''log_filter'', Shown_Text (log_filter c)),
      (''auth'', Redacted ''[REDACTED]''),
      (''idempotency_retention'', Shown_Seconds (config_idempotency_retention c))]"

section \<open>Parsed settings\<close>

lemma result_bind_Inr: "result_bind r f = Inr y \<longleftrightarrow> (\<exists>x. r = Inr x \<and> f x = Inr y)"
  by (cases r) (simp_all add: result_bind_def)

lemma result_bind_Inl: "result_bind r f = Inl e \<longleftrightarrow> r = Inl e \<or> (\<exists>x. r = Inr x \<and> f x = Inl e)"
  by (cases r) (auto simp: result_bind_def)

lemma result_bind_simps [simp]:
  "result_bind (Inl e) f = Inl e" "result_bind (Inr x) f = f x"
  by (simp_all add: result_bind_def)

lemma parse_unsigned_show_nat: "int n \<le> hi \<Longrightarrow> parse_unsigned hi (show_nat n) = Some (int n)"
  by (cases "show_nat n")
     (use show_nat_digits [of n] parse_digits_show_nat [of n] in
       \<open>auto simp: parse_unsigned_def in_range_def show_nat_not_Nil is_ascii_digit_def\<close>)

lemma parse_u32_default: "values name = None \<Longrightarrow> parse_u32 values name d = Inr d"
proof -
  have "uint d < 2 ^ LENGTH(32)" by (rule unsigned_less)
  then have "parse_unsigned (2 ^ 32 - 1) (show_nat (unat d)) = Some (uint d)"
    using parse_unsigned_show_nat [of "unat d" "2 ^ 32 - 1"] by simp
  then show "values name = None \<Longrightarrow> parse_u32 values name d = Inr d"
    by (simp add: parse_u32_def optional_value_def)
qed

lemma parse_seconds_default:
  "values name = None \<Longrightarrow> d \<noteq> 0 \<Longrightarrow> parse_seconds values name d = Inr d"
proof -
  have "uint d < 2 ^ LENGTH(64)" by (rule unsigned_less)
  then have "parse_unsigned (2 ^ 64 - 1) (show_nat (unat d)) = Some (uint d)"
    using parse_unsigned_show_nat [of "unat d" "2 ^ 64 - 1"] by simp
  then show "values name = None \<Longrightarrow> d \<noteq> 0 \<Longrightarrow> parse_seconds values name d = Inr d"
    by (simp add: parse_seconds_def optional_value_def)
qed

lemma parse_seconds_pos: "parse_seconds values name d = Inr n \<Longrightarrow> 0 < n"
  by (auto simp: parse_seconds_def word_neq_0_conv split: option.splits if_splits)

lemma required_value_Inr: "required_value values name = Inr s \<Longrightarrow> values name = Some s \<and> trim s \<noteq> []"
  by (auto simp: required_value_def split: option.splits if_splits)

lemma auth_config_new_Inr:
  "auth_config_new J issuer audience pem = Inr a \<longleftrightarrow>
     trim issuer \<noteq> [] \<and> trim audience \<noteq> [] \<and> from_rsa_pem J pem \<noteq> None
     \<and> a = \<lparr>auth_issuer = issuer, auth_audience = audience, auth_public_key_pem = pem\<rparr>"
  by (auto simp: auth_config_new_def nonblank_value_def result_bind_def split: option.splits)

lemma parse_seconds_set:
  assumes "values name = Some (show_nat (unat n))" and "n \<noteq> 0"
  shows "parse_seconds values name d = Inr n"
proof -
  have "uint n < 2 ^ LENGTH(64)" by (rule unsigned_less)
  then have "parse_unsigned (2 ^ 64 - 1) (show_nat (unat n)) = Some (uint n)"
    using parse_unsigned_show_nat [of "unat n" "2 ^ 64 - 1"] by simp
  then show ?thesis using assms by (simp add: parse_seconds_def optional_value_def)
qed

text \<open>The required settings, and possibly a retention.\<close>

lemma config_from_required:
  assumes "trim u \<noteq> []" and "trim i \<noteq> []" and "trim a \<noteq> []" and "trim p \<noteq> []"
    and "from_rsa_pem J p \<noteq> None" and "retention \<noteq> Some 0"
  shows "config_from_values J
      ([(''DATABASE_URL'', u), (''JWT_ISSUER'', i), (''JWT_AUDIENCE'', a), (''JWT_PUBLIC_KEY_PEM'', p)]
       @ (case retention of None \<Rightarrow> []
          | Some n \<Rightarrow> [(''IDEMPOTENCY_RETENTION_SECS'', show_nat (unat n))]))
    = Inr \<lparr>database_url = u, bind_address = SocketAddr_V4 [0, 0, 0, 0] 3000,
           pool = \<lparr>max_connections = 10, min_connections = 0, acquire_timeout = 5, connect_timeout = 5\<rparr>,
           log_filter = ''info'',
           config_auth = \<lparr>auth_issuer = i, auth_audience = a, auth_public_key_pem = p\<rparr>,
           config_idempotency_retention = (case retention of None \<Rightarrow> 86400 | Some n \<Rightarrow> n)\<rparr>"
proof -
  define vs where "vs = collect_values
      ([(''DATABASE_URL'', u), (''JWT_ISSUER'', i), (''JWT_AUDIENCE'', a), (''JWT_PUBLIC_KEY_PEM'', p)]
       @ (case retention of None \<Rightarrow> []
          | Some n \<Rightarrow> [(''IDEMPOTENCY_RETENTION_SECS'', show_nat (unat n))]))"
  have given: "required_value vs ''DATABASE_URL'' = Inr u" "required_value vs ''JWT_ISSUER'' = Inr i"
    "required_value vs ''JWT_AUDIENCE'' = Inr a" "required_value vs ''JWT_PUBLIC_KEY_PEM'' = Inr p"
    using assms by (cases retention; simp add: vs_def collect_values_def required_value_def)+
  have unset: "vs ''BIND_ADDRESS'' = None" "vs ''DB_MAX_CONNECTIONS'' = None"
    "vs ''DB_MIN_CONNECTIONS'' = None" "vs ''DB_ACQUIRE_TIMEOUT_SECS'' = None"
    "vs ''DB_CONNECT_TIMEOUT_SECS'' = None" "vs ''RUST_LOG'' = None"
    by (cases retention; simp add: vs_def collect_values_def)+
  have "vs ''IDEMPOTENCY_RETENTION_SECS'' = map_option (\<lambda>n. show_nat (unat n)) retention"
    by (cases retention) (simp_all add: vs_def collect_values_def)
  then have ret: "parse_seconds vs ''IDEMPOTENCY_RETENTION_SECS'' 86400
      = Inr (case retention of None \<Rightarrow> 86400 | Some n \<Rightarrow> n)"
    using assms(6) by (cases retention) (simp_all add: parse_seconds_default parse_seconds_set)
  have auth: "auth_config_new J i a p
      = Inr \<lparr>auth_issuer = i, auth_audience = a, auth_public_key_pem = p\<rparr>"
    using assms by (simp add: auth_config_new_Inr)
  show ?thesis
    unfolding config_from_values_def vs_def [symmetric] Let_def
    by (simp add: given unset auth ret optional_value_def default_bind_address parse_u32_default
        parse_seconds_default)
qed

lemma demo_settings:
  "trim ''u'' \<noteq> []" "trim ''i'' \<noteq> []" "trim ''a'' \<noteq> []" "trim ''p'' \<noteq> []"
  "from_rsa_pem demo_jwt ''p'' \<noteq> None"
proof -
  have "trim [c] \<noteq> []" if "is_visible_ascii c" for c
    using trim_plain [of "[c]"] that by simp
  then show "trim ''u'' \<noteq> []" "trim ''i'' \<noteq> []" "trim ''a'' \<noteq> []" "trim ''p'' \<noteq> []"
    by (simp_all add: is_visible_ascii_def)
qed (simp add: demo_jwt_def)

lemma demo_config:
  obtains c where "config_from_values demo_jwt
     [(''DATABASE_URL'', ''u''), (''JWT_ISSUER'', ''i''), (''JWT_AUDIENCE'', ''a''),
      (''JWT_PUBLIC_KEY_PEM'', ''p'')] = Inr c"
  using config_from_required [OF demo_settings, of None] by auto

text \<open>
  With only the four required settings present, nonblank, and a readable public key, the
  configuration loads with every documented default: all interfaces on port 3000, a pool of at
  most 10 and at least 0 connections, timeouts of five seconds, the \<open>info\<close> filter, a retention of
  24 hours.
\<close>

lemma config_defaults:
  assumes "trim u \<noteq> []" and "trim i \<noteq> []" and "trim a \<noteq> []" and "trim p \<noteq> []"
    and "from_rsa_pem J p \<noteq> None"
  shows "config_from_values J
      [(''DATABASE_URL'', u), (''JWT_ISSUER'', i), (''JWT_AUDIENCE'', a), (''JWT_PUBLIC_KEY_PEM'', p)]
    = Inr \<lparr>database_url = u, bind_address = SocketAddr_V4 [0, 0, 0, 0] 3000,
           pool = \<lparr>max_connections = 10, min_connections = 0, acquire_timeout = 5, connect_timeout = 5\<rparr>,
           log_filter = ''info'',
           config_auth = \<lparr>auth_issuer = i, auth_audience = a, auth_public_key_pem = p\<rparr>,
           config_idempotency_retention = 86400\<rparr>"
  using config_from_required [OF assms, of None] by simp

lemma config_defaults_witness:
  "map_sum id config_idempotency_retention (config_from_values demo_jwt
     [(''DATABASE_URL'', ''u''), (''JWT_ISSUER'', ''i''), (''JWT_AUDIENCE'', ''a''),
      (''JWT_PUBLIC_KEY_PEM'', ''p'')]) = Inr 86400"
  unfolding config_defaults [OF demo_settings] by simp

definition config_messages :: "string list" where
  "config_messages =
     map (\<lambda>n. n @ '' must be set'')
       [''DATABASE_URL'', ''JWT_ISSUER'', ''JWT_AUDIENCE'', ''JWT_PUBLIC_KEY_PEM'']
   @ [''BIND_ADDRESS must be a valid socket address'',
      ''DB_MIN_CONNECTIONS must not exceed DB_MAX_CONNECTIONS'',
      ''JWT_PUBLIC_KEY_PEM must contain a valid RSA public key'']
   @ map (\<lambda>n. n @ '' must be a non-negative integer'') [''DB_MAX_CONNECTIONS'', ''DB_MIN_CONNECTIONS'']
   @ concat (map (\<lambda>n. [n @ '' must be a positive number of seconds'', n @ '' must be greater than zero''])
       [''DB_ACQUIRE_TIMEOUT_SECS'', ''DB_CONNECT_TIMEOUT_SECS'', ''IDEMPOTENCY_RETENTION_SECS''])"

lemma setting_errors:
  "required_value values name = Inl e \<Longrightarrow> e = name @ '' must be set''"
  "parse_u32 values name d = Inl e \<Longrightarrow> e = name @ '' must be a non-negative integer''"
  "parse_seconds values name d' = Inl e \<Longrightarrow>
     e \<in> {name @ '' must be a positive number of seconds'', name @ '' must be greater than zero''}"
  "auth_config_new J i a p = Inl e \<Longrightarrow>
     e \<in> {''JWT_ISSUER must be set'', ''JWT_AUDIENCE must be set'',
          ''JWT_PUBLIC_KEY_PEM must contain a valid RSA public key''}"
  by (auto simp: required_value_def parse_u32_def parse_seconds_def auth_config_new_def
      nonblank_value_def result_bind_def split: option.splits if_splits)

lemma config_error_message:
  assumes "config_from_values J items = Inl e"
  shows "e \<in> set config_messages"
  using assms unfolding config_from_values_def Let_def result_bind_Inl config_messages_def
  by (elim disjE exE conjE)
     (auto dest!: setting_errors split: option.splits if_splits simp: result_bind_Inl)

text \<open>
  C38: Loading the configuration never discloses a setting: every failure is one of fifteen fixed
  messages that name the setting and not its value, and the debug output of a configuration is
  the same whatever its database URL and its authentication settings are.
\<close>

theorem config_discloses_nothing:
  "case_sum (\<lambda>e. e \<in> set config_messages) (\<lambda>c. True) (config_from_values J items)
   \<and> config_debug (c\<lparr>database_url := u, config_auth := a\<rparr>) = config_debug c"
  using config_error_message [of J items] by (cases "config_from_values J items") (simp_all add: config_debug_def)

end
