(* ===== verification/Auth.thy ===== *)
theory Auth
  imports Platform Config
begin

text \<open>
  Component \<open>auth\<close> (\<open>src/auth.rs\<close>): the verifier of bearer tokens and the extractor that gives a
  handler its authenticated client.  The signature check itself is the \<open>jsonwebtoken\<close> crate's, a
  parameter of the model (\<open>Jwt\<close>).
\<close>

section \<open>The verifier\<close>

record 'key AuthVerifier =
  decoding_key :: 'key
  validation :: Validation

definition verifier_new :: "'key Jwt \<Rightarrow> AuthConfig \<Rightarrow> 'key AuthVerifier option" where
  "verifier_new J config =
     Option.bind (from_rsa_pem J (auth_public_key_pem config)) (\<lambda>key.
       let v = (validation_new J ''RS256'')
                 \<lparr>val_issuers := [auth_issuer config], val_audiences := [auth_audience config]\<rparr>
       in Some \<lparr>decoding_key = key,
                validation = v\<lparr>val_required_claims := List.insert ''exp'' (val_required_claims v)\<rparr>\<rparr>)"

text \<open>The client of an accepted token is its subject.\<close>

definition authenticate :: "'key Jwt \<Rightarrow> 'key AuthVerifier \<Rightarrow> string \<Rightarrow> AppError + string" where
  "authenticate J auth token =
     (case jwt_decode J token (decoding_key auth) (validation auth) of
        None \<Rightarrow> Inl Unauthorized
      | Some claims \<Rightarrow>
          (case claims_sub claims of
             None \<Rightarrow> Inl Unauthorized
           | Some client_id \<Rightarrow> if trim client_id = [] then Inl Unauthorized else Inr client_id))"

section \<open>The Authorization header\<close>

text \<open>\<open>str::split_whitespace\<close>: the maximal runs without a white-space code point.\<close>

function split_words :: "string \<Rightarrow> string \<Rightarrow> string list" where
  "split_words word s =
     (case find (\<lambda>w. w \<noteq> [] \<and> prefix w s) white_space of
        Some w \<Rightarrow> (if word = [] then [] else [rev word]) @ split_words [] (drop (length w) s)
      | None \<Rightarrow>
          (case s of
             [] \<Rightarrow> if word = [] then [] else [rev word]
           | c # cs \<Rightarrow> split_words (c # word) cs))"
  by pat_completeness auto
termination
  by (relation "measure (\<lambda>(word, s). length s)") (auto simp: find_Some_iff prefix_def)

declare split_words.simps [simp del]

definition split_whitespace :: "string \<Rightarrow> string list" where
  "split_whitespace s = split_words [] s"

definition AUTHORIZATION :: string where "AUTHORIZATION = ''authorization''"

definition from_request_parts ::
  "Platform \<Rightarrow> 'key Jwt \<Rightarrow> 'key AuthVerifier \<Rightarrow> HeaderMap \<Rightarrow> AppError + string" where
  "from_request_parts P J auth headers =
     (case get_all AUTHORIZATION headers of
        [raw] \<Rightarrow>
          (case header_to_str P raw of
             None \<Rightarrow> Inl Unauthorized
           | Some value \<Rightarrow>
               (case split_whitespace value of
                  scheme # token # rest \<Rightarrow>
                    (if \<not> eq_ignore_ascii_case scheme ''Bearer'' \<or> token = [] \<or> rest \<noteq> []
                     then Inl Unauthorized else authenticate J auth token)
                | _ \<Rightarrow> Inl Unauthorized))
      | _ \<Rightarrow> Inl Unauthorized)"

section \<open>Splitting a header value\<close>

text \<open>On the text of a header, white space is the space and the tab.\<close>

lemma visible_not_blank: "is_visible_ascii c \<Longrightarrow> \<not> is_blank c"
  by (auto simp: is_visible_ascii_def is_blank_def)

lemma white_space_heads:
  "\<forall>w \<in> set white_space. w \<noteq> [] \<and> \<not> is_visible_ascii (hd w)"
  by (simp add: white_space_def is_visible_ascii_def)

lemma find_space_visible:
  assumes "is_visible_ascii c"
  shows "find (\<lambda>w. w \<noteq> [] \<and> prefix w (c # s)) white_space = None"
  using assms white_space_heads unfolding find_None_iff
  by (metis list.sel(1) prefix_Cons)

lemma find_space_blank:
  assumes "is_blank c"
  shows "find (\<lambda>w. w \<noteq> [] \<and> prefix w (c # s)) white_space = Some [c]"
  using assms unfolding is_blank_def white_space_def by (elim disjE) simp_all

lemma find_space_Nil [simp]: "find (\<lambda>w. w \<noteq> [] \<and> prefix w []) white_space = None"
  by (auto simp: find_None_iff)

lemma split_words_Nil: "split_words word [] = (if word = [] then [] else [rev word])"
  by (subst split_words.simps) (simp del: prefix_Nil)

lemma split_words_visible:
  "is_visible_ascii c \<Longrightarrow> split_words word (c # s) = split_words (c # word) s"
  by (subst split_words.simps) (simp add: find_space_visible)

lemma split_words_blank:
  "is_blank c \<Longrightarrow> split_words word (c # s) = (if word = [] then [] else [rev word]) @ split_words [] s"
  by (subst split_words.simps) (simp add: find_space_blank)

lemmas split_words_steps = split_words_Nil split_words_visible split_words_blank

lemma split_words_run:
  "list_all is_visible_ascii w \<Longrightarrow> split_words word (w @ s) = split_words (rev w @ word) s"
  by (induction w arbitrary: word) (simp_all add: split_words_steps)

lemma split_words_skip:
  "list_all is_blank b \<Longrightarrow> split_words [] (b @ s) = split_words [] s"
  by (induction b) (simp_all add: split_words_steps)

text \<open>The words of a text are exactly what lies between its blanks.\<close>

lemma header_text_split:
  assumes "header_text s"
  obtains b w t where "s = b @ w @ t" and "list_all is_blank b" and "list_all is_visible_ascii w"
    and "t = [] \<or> is_blank (hd t)" and "header_text t" and "w = [] \<Longrightarrow> t = []"
proof -
  let ?b = "takeWhile is_blank s" and ?r = "dropWhile is_blank s"
  let ?w = "takeWhile is_visible_ascii ?r" and ?t = "dropWhile is_visible_ascii ?r"
  have all: "\<forall>c \<in> set s. is_visible_ascii c \<or> is_blank c" using assms by (simp add: header_text_def list_all_iff)
  have sub: "set ?t \<subseteq> set s" by (meson set_dropWhileD subsetI)
  have vis: "c \<in> set s \<Longrightarrow> is_visible_ascii c \<or> is_blank c" for c using all by blast
  have t: "?t = [] \<or> is_blank (hd ?t)"
    using vis sub hd_dropWhile [of is_visible_ascii ?r] by (meson hd_in_set subsetD)
  moreover have "?t = []" if "?w = []"
  proof (rule ccontr)
    assume "?t \<noteq> []"
    then have "?r \<noteq> []" "\<not> is_visible_ascii (hd ?r)"
      using that by (cases ?r; auto split: if_splits)+
    moreover from this have "\<not> is_blank (hd ?r)" using hd_dropWhile by blast
    ultimately show False using vis by (metis hd_in_set set_dropWhileD)
  qed
  moreover have "header_text ?t" using all sub by (auto simp: header_text_def list_all_iff)
  ultimately show ?thesis
    using that [of ?b ?w ?t] by (auto simp: list_all_iff dest: set_takeWhileD)
qed

lemma split_words_after:
  assumes "t = [] \<or> is_blank (hd t)" and "w \<noteq> []" and "list_all is_visible_ascii w"
  shows "split_words [] (w @ t) = w # split_words [] t"
  using split_words_run [OF assms(3), of "[]" t] assms(1,2)
  by (cases t) (simp_all add: split_words_Nil split_words_blank)

lemma split_words_Nil_iff:
  assumes "header_text s"
  shows "split_words [] s = [] \<longleftrightarrow> list_all is_blank s"
proof -
  from assms obtain b w t where s: "s = b @ w @ t" "list_all is_blank b" "list_all is_visible_ascii w"
    "t = [] \<or> is_blank (hd t)" and w: "w = [] \<Longrightarrow> t = []"
    by (rule header_text_split) (rule that)
  show ?thesis
  proof (cases "w = []")
    case True
    then show ?thesis using s w split_words_skip [of b "[]"] by (simp add: split_words_Nil)
  next
    case False
    then have "\<not> list_all is_blank w" using s(3) visible_not_blank by (cases w) auto
    then show ?thesis using False s by (simp add: split_words_skip split_words_after)
  qed
qed

lemma split_words_Cons_iff:
  assumes "header_text s"
  shows "split_words [] s = w # ws \<longleftrightarrow>
    (\<exists>b t. s = b @ w @ t \<and> list_all is_blank b \<and> w \<noteq> [] \<and> list_all is_visible_ascii w
       \<and> (t = [] \<or> is_blank (hd t)) \<and> split_words [] t = ws)"
proof
  assume ws: "split_words [] s = w # ws"
  from assms obtain b w' t where s: "s = b @ w' @ t" "list_all is_blank b" "list_all is_visible_ascii w'"
    "t = [] \<or> is_blank (hd t)" and w: "w' = [] \<Longrightarrow> t = []"
    by (rule header_text_split) (rule that)
  have "w' \<noteq> []" using ws s w split_words_skip [of b "[]"] by (auto simp: split_words_Nil)
  then show "\<exists>b t. s = b @ w @ t \<and> list_all is_blank b \<and> w \<noteq> [] \<and> list_all is_visible_ascii w
       \<and> (t = [] \<or> is_blank (hd t)) \<and> split_words [] t = ws"
    using ws s by (auto simp: split_words_skip split_words_after)
next
  assume "\<exists>b t. s = b @ w @ t \<and> list_all is_blank b \<and> w \<noteq> [] \<and> list_all is_visible_ascii w
       \<and> (t = [] \<or> is_blank (hd t)) \<and> split_words [] t = ws"
  then obtain b t where t: "s = b @ w @ t" "list_all is_blank b" "w \<noteq> []" "list_all is_visible_ascii w"
    "t = [] \<or> is_blank (hd t)" "split_words [] t = ws" by blast
  show "split_words [] s = w # ws"
    unfolding t(1) split_words_skip [OF t(2)] split_words_after [OF t(5,3,4)] t(6) ..
qed

section \<open>Who is let in\<close>

text \<open>What \<open>HeaderValue::to_str\<close> documents: only visible ASCII bytes, spaces and tabs read.\<close>

definition header_reads_text :: "Platform \<Rightarrow> bool" where
  "header_reads_text P \<longleftrightarrow> (\<forall>raw v. header_to_str P raw = Some v \<longrightarrow> header_text v)"

lemma authenticate_Inr:
  "authenticate J auth token = Inr c \<longleftrightarrow>
     (\<exists>claims. jwt_decode J token (decoding_key auth) (validation auth) = Some claims
        \<and> claims_sub claims = Some c \<and> trim c \<noteq> [])"
  by (auto simp: authenticate_def split: option.splits)

lemma authenticate_Inl: "authenticate J auth token = Inl e \<Longrightarrow> e = Unauthorized"
  by (auto simp: authenticate_def split: option.splits if_splits)

lemma from_request_parts_Inl: "from_request_parts P J auth headers = Inl e \<Longrightarrow> e = Unauthorized"
  by (auto simp: from_request_parts_def dest: authenticate_Inl
      split: list.splits option.splits if_splits)

lemma from_request_parts_Inr:
  "from_request_parts P J auth headers = Inr c \<longleftrightarrow>
     (\<exists>raw value scheme token. get_all AUTHORIZATION headers = [raw] \<and> header_to_str P raw = Some value
        \<and> split_whitespace value = [scheme, token] \<and> eq_ignore_ascii_case scheme ''Bearer''
        \<and> token \<noteq> [] \<and> authenticate J auth token = Inr c)"
  by (auto simp: from_request_parts_def split: list.splits option.splits if_splits)

lemma split_two_words:
  assumes "header_text s"
  shows "split_whitespace s = [v, w] \<longleftrightarrow>
    (\<exists>b1 b2 b3. s = b1 @ v @ b2 @ w @ b3 \<and> list_all is_blank (b1 @ b2 @ b3) \<and> b2 \<noteq> []
       \<and> v \<noteq> [] \<and> w \<noteq> [] \<and> list_all is_visible_ascii (v @ w))"
  (is "?l \<longleftrightarrow> ?r")
proof
  assume ?l
  then obtain b1 t where t: "s = b1 @ v @ t" "list_all is_blank b1" "v \<noteq> []" "list_all is_visible_ascii v"
    "t = [] \<or> is_blank (hd t)" "split_words [] t = [w]"
    unfolding split_whitespace_def split_words_Cons_iff [OF assms] by blast
  have "header_text t" using assms by (simp add: t(1) header_text_def)
  from t(6) [unfolded split_words_Cons_iff [OF this]] obtain b2 u where
    u: "t = b2 @ w @ u" "list_all is_blank b2" "w \<noteq> []" "list_all is_visible_ascii w"
    "split_words [] u = []" by blast
  have "header_text u" using \<open>header_text t\<close> by (simp add: u(1) header_text_def)
  with u(5) have "list_all is_blank u" by (simp add: split_words_Nil_iff)
  moreover have "b2 \<noteq> []" using t(5) u(1,3,4) visible_not_blank by (cases w) auto
  ultimately show ?r using t u by (intro exI [of _ b1] exI [of _ b2] exI [of _ u]) simp
next
  assume ?r
  then obtain b1 b2 b3 where b: "s = b1 @ v @ b2 @ w @ b3" "list_all is_blank b1" "list_all is_blank b2"
    "list_all is_blank b3" "b2 \<noteq> []" "v \<noteq> []" "w \<noteq> []" "list_all is_visible_ascii v" "list_all is_visible_ascii w"
    by auto
  have "header_text b3" using b(4) by (auto simp: header_text_def list_all_iff)
  then have "split_words [] b3 = []" using b(4) by (simp add: split_words_Nil_iff)
  moreover have "b3 = [] \<or> is_blank (hd b3)" using b(4) by (cases b3) simp_all
  moreover have "is_blank (hd (b2 @ w @ b3))" using b(3,5) by (cases b2) simp_all
  ultimately show ?l
    using b by (simp add: split_whitespace_def split_words_skip split_words_after)
qed

text \<open>
  C27: A request is authenticated exactly when it has one \<open>Authorization\<close> header, that header is
  the word \<open>Bearer\<close> in any case and one token, separated and surrounded by any blanks, the token
  verifies under the configured key and validation, and its subject is not blank; the client is
  then that subject.  Every other request is rejected as unauthorized, with nothing that tells
  the reasons apart.
\<close>

theorem authenticated_exactly:
  assumes "header_reads_text P"
  shows "(from_request_parts P J auth headers = Inr c \<longleftrightarrow>
      (\<exists>raw b1 scheme b2 token b3 claims.
         get_all AUTHORIZATION headers = [raw]
       \<and> header_to_str P raw = Some (b1 @ scheme @ b2 @ token @ b3)
       \<and> list_all is_blank (b1 @ b2 @ b3) \<and> b2 \<noteq> [] \<and> token \<noteq> []
       \<and> list_all is_visible_ascii (scheme @ token) \<and> eq_ignore_ascii_case scheme ''Bearer''
       \<and> jwt_decode J token (decoding_key auth) (validation auth) = Some claims
       \<and> claims_sub claims = Some c \<and> trim c \<noteq> []))
    \<and> (\<forall>e. from_request_parts P J auth headers = Inl e \<longrightarrow> e = Unauthorized)"
proof -
  have ne: "eq_ignore_ascii_case w ''Bearer'' \<Longrightarrow> w \<noteq> []" for w
    by (auto simp: eq_ignore_ascii_case_def to_ascii_uppercase_def)
  have words: "header_to_str P raw = Some v \<and> split_whitespace v = [w, x]
        \<and> eq_ignore_ascii_case w ''Bearer'' \<and> x \<noteq> []
    \<longleftrightarrow> (\<exists>b1 b2 b3. header_to_str P raw = Some (b1 @ w @ b2 @ x @ b3) \<and> v = b1 @ w @ b2 @ x @ b3
        \<and> list_all is_blank (b1 @ b2 @ b3) \<and> b2 \<noteq> [] \<and> x \<noteq> []
        \<and> list_all is_visible_ascii (w @ x) \<and> eq_ignore_ascii_case w ''Bearer'')" for raw v w x
  proof (cases "header_to_str P raw = Some v")
    case True
    then have "header_text v" using assms by (auto simp: header_reads_text_def)
    from split_two_words [OF this, of w x] True ne [of w] show ?thesis by auto
  qed auto
  show ?thesis
  proof (intro conjI allI impI)
    have "from_request_parts P J auth headers = Inr c \<longleftrightarrow>
        (\<exists>raw v w x. get_all AUTHORIZATION headers = [raw]
           \<and> (header_to_str P raw = Some v \<and> split_whitespace v = [w, x]
                \<and> eq_ignore_ascii_case w ''Bearer'' \<and> x \<noteq> [])
           \<and> authenticate J auth x = Inr c)"
      unfolding from_request_parts_Inr by (simp add: conj_ac)
    then show "from_request_parts P J auth headers = Inr c \<longleftrightarrow>
      (\<exists>raw b1 scheme b2 token b3 claims.
         get_all AUTHORIZATION headers = [raw]
       \<and> header_to_str P raw = Some (b1 @ scheme @ b2 @ token @ b3)
       \<and> list_all is_blank (b1 @ b2 @ b3) \<and> b2 \<noteq> [] \<and> token \<noteq> []
       \<and> list_all is_visible_ascii (scheme @ token) \<and> eq_ignore_ascii_case scheme ''Bearer''
       \<and> jwt_decode J token (decoding_key auth) (validation auth) = Some claims
       \<and> claims_sub claims = Some c \<and> trim c \<noteq> [])"
      unfolding words authenticate_Inr by blast
  qed (rule from_request_parts_Inl)
qed

lemma config_from_values_auth:
  assumes "config_from_values J items = Inr c"
  shows "trim (database_url c) \<noteq> [] \<and> min_connections (pool c) \<le> max_connections (pool c)
    \<and> 0 < acquire_timeout (pool c) \<and> 0 < connect_timeout (pool c) \<and> 0 < config_idempotency_retention c
    \<and> trim (auth_issuer (config_auth c)) \<noteq> [] \<and> trim (auth_audience (config_auth c)) \<noteq> []
    \<and> from_rsa_pem J (auth_public_key_pem (config_auth c)) \<noteq> None"
  using assms unfolding config_from_values_def Let_def result_bind_Inr
  by (elim exE conjE)
     (auto simp: auth_config_new_Inr result_bind_Inr dest: parse_seconds_pos required_value_Inr
        split: if_splits)



definition demo_verifier :: "string AuthVerifier" where
  "demo_verifier =
     the (verifier_new demo_jwt
       \<lparr>auth_issuer = ''iss'', auth_audience = ''aud'', auth_public_key_pem = ''pem''\<rparr>)"

lemma demo_verifier_fields:
  "decoding_key demo_verifier = ''pem''" "''exp'' \<in> set (val_required_claims (validation demo_verifier))"
  by (simp_all add: demo_verifier_def verifier_new_def demo_jwt_def)

theorem authenticated_exactly_witness:
  "from_request_parts demo_platform demo_jwt demo_verifier
     [(''authorization'', ''bEARER  t1 '')] = Inr ''alice''"
proof -
  have ok: "header_reads_text demo_platform"
    by (simp add: header_reads_text_def demo_platform_def header_text_def is_blank_def)
  have "trim ''alice'' = ''alice''" by (rule trim_plain) (simp_all add: is_visible_ascii_def)
  moreover have "header_to_str demo_platform ''bEARER  t1 '' = Some ([] @ ''bEARER'' @ ''  '' @ ''t1'' @ '' '')"
    by (simp add: demo_platform_def header_text_def is_visible_ascii_def is_blank_def)
  moreover have "jwt_decode demo_jwt ''t1'' (decoding_key demo_verifier) (validation demo_verifier)
      = Some \<lparr>claims_sub = Some ''alice''\<rparr>"
    using demo_verifier_fields by (simp add: demo_jwt_def)
  moreover have "eq_ignore_ascii_case ''bEARER'' ''Bearer''"
    by (simp add: eq_ignore_ascii_case_def to_ascii_uppercase_def to_ascii_uppercase_char_def char_of_def bit_Suc_0_iff)
  moreover have "get_all AUTHORIZATION [(''authorization'', ''bEARER  t1 '')] = [''bEARER  t1 '']"
    by (simp add: get_all_def AUTHORIZATION_def)
  moreover have "list_all is_blank ([] @ ''  '' @ '' '')" "list_all is_visible_ascii (''bEARER'' @ ''t1'')"
    by (simp_all add: is_blank_def is_visible_ascii_def)
  ultimately have "\<exists>raw b1 scheme b2 token b3 claims.
         get_all AUTHORIZATION [(''authorization'', ''bEARER  t1 '')] = [raw]
       \<and> header_to_str demo_platform raw = Some (b1 @ scheme @ b2 @ token @ b3)
       \<and> list_all is_blank (b1 @ b2 @ b3) \<and> b2 \<noteq> [] \<and> token \<noteq> []
       \<and> list_all is_visible_ascii (scheme @ token) \<and> eq_ignore_ascii_case scheme ''Bearer''
       \<and> jwt_decode demo_jwt token (decoding_key demo_verifier) (validation demo_verifier) = Some claims
       \<and> claims_sub claims = Some ''alice'' \<and> trim ''alice'' \<noteq> []"
    by (rule_tac x = "''bEARER  t1 ''" in exI, rule_tac x = "[]" in exI,
        rule_tac x = "''bEARER''" in exI, rule_tac x = "''  ''" in exI, rule_tac x = "''t1''" in exI,
        rule_tac x = "'' ''" in exI, rule_tac x = "\<lparr>claims_sub = Some ''alice''\<rparr>" in exI) simp
  then show ?thesis by (rule authenticated_exactly [OF ok, THEN conjunct1, THEN iffD2])
qed

end
