(* ===== verification/Idempotency.thy ===== *)
theory Idempotency
  imports Platform
begin

text \<open>
  Component \<open>idempotency\<close> (\<open>src/idempotency.rs\<close>): the \<open>Idempotency-Key\<close> header, the request
  fingerprints and the records a client's operation reserves and completes inside its
  transaction.  The interface \<open>idempotent_store\<close> is the contract a handler relies on: a key is
  claimed once, and after its completion every later use is answered from the record.
\<close>

section \<open>Keys\<close>

definition ACCOUNT_CREATION_OPERATION :: string where
  "ACCOUNT_CREATION_OPERATION = ''account_creation''"

definition TRANSFER_OPERATION :: string where "TRANSFER_OPERATION = ''transfer''"

definition FX_TRANSFER_OPERATION :: string where "FX_TRANSFER_OPERATION = ''fx_transfer''"

definition REVERSAL_OPERATION :: string where "REVERSAL_OPERATION = ''reversal''"

definition IDEMPOTENCY_KEY_HEADER :: string where
  "IDEMPOTENCY_KEY_HEADER = ''idempotency-key''"

definition MAX_KEY_LENGTH :: nat where "MAX_KEY_LENGTH = 255"

definition malformed_key :: AppError where
  "malformed_key =
     Validation ''malformed_idempotency_key'' ''The Idempotency-Key header is invalid''"

definition valid_key :: "string \<Rightarrow> bool" where
  "valid_key value \<longleftrightarrow>
     value \<noteq> [] \<and> length value \<le> MAX_KEY_LENGTH \<and> list_all is_visible_ascii value"

definition from_headers :: "Platform \<Rightarrow> HeaderMap \<Rightarrow> AppError + string" where
  "from_headers P headers =
     (case get_all IDEMPOTENCY_KEY_HEADER headers of
        [] \<Rightarrow> Inl (Validation ''missing_idempotency_key'' ''The Idempotency-Key header is required'')
      | [raw] \<Rightarrow>
          (case header_to_str P raw of
             None \<Rightarrow> Inl malformed_key
           | Some value \<Rightarrow> if \<not> valid_key value then Inl malformed_key else Inr value)
      | _ \<Rightarrow> Inl (Validation ''duplicate_idempotency_key''
                   ''The Idempotency-Key header must appear exactly once''))"

section \<open>Fingerprints\<close>

definition account_creation_preimage :: "string \<Rightarrow> i64 \<Rightarrow> string" where
  "account_creation_preimage cur balance =
     ''account_creation:v1:'' @ cur @ '':'' @ i64_to_be_bytes balance"

definition transfer_preimage :: "uuid \<Rightarrow> uuid \<Rightarrow> string \<Rightarrow> i64 \<Rightarrow> string" where
  "transfer_preimage source destination cur amount =
     ''transfer:v1:'' @ uuid_as_bytes source @ uuid_as_bytes destination @ cur
       @ i64_to_be_bytes amount"

definition reversal_preimage :: "uuid \<Rightarrow> string" where
  "reversal_preimage original = ''reversal:v1:'' @ uuid_as_bytes original"

definition account_creation_fingerprint :: "Platform \<Rightarrow> string \<Rightarrow> i64 \<Rightarrow> string" where
  "account_creation_fingerprint P cur balance =
     sha256_hex P (account_creation_preimage cur balance)"

definition transfer_fingerprint :: "Platform \<Rightarrow> uuid \<Rightarrow> uuid \<Rightarrow> string \<Rightarrow> i64 \<Rightarrow> string" where
  "transfer_fingerprint P source destination cur amount =
     sha256_hex P (transfer_preimage source destination cur amount)"

definition reversal_fingerprint :: "Platform \<Rightarrow> uuid \<Rightarrow> string" where
  "reversal_fingerprint P original = sha256_hex P (reversal_preimage original)"

definition sha_collision :: "Platform \<Rightarrow> string \<Rightarrow> string \<Rightarrow> bool" where
  "sha_collision P x y \<longleftrightarrow> x \<noteq> y \<and> sha256_hex P x = sha256_hex P y"

lemma account_creation_preimage_inject:
  "account_creation_preimage c b = account_creation_preimage c' b' \<longleftrightarrow> c = c' \<and> b = b'"
  by (auto simp: account_creation_preimage_def i64_bytes.enc_inject i64_bytes.length_enc
      append_eq_append_conv)

lemma transfer_preimage_inject:
  "transfer_preimage s d c a = transfer_preimage s' d' c' a'
     \<longleftrightarrow> s = s' \<and> d = d' \<and> c = c' \<and> a = a'"
  by (auto simp: transfer_preimage_def uuid_bytes.enc_append_inject i64_bytes.enc_inject
      i64_bytes.length_enc append_eq_append_conv)

lemma reversal_preimage_inject: "reversal_preimage u = reversal_preimage u' \<longleftrightarrow> u = u'"
  by (simp add: reversal_preimage_def uuid_bytes.enc_inject)

text \<open>
  C34: Two requests of a kind have the same fingerprint exactly when every business input is the
  same, or SHA-256 collides on their two preimages: amounts, currencies and both account
  identifiers are covered, in their order and with no ambiguity between neighbouring fields, and
  requests of two different kinds share a fingerprint only on a collision.
\<close>

theorem fingerprints_cover_inputs:
  "(account_creation_fingerprint P c b = account_creation_fingerprint P c' b'
      \<longleftrightarrow> c = c' \<and> b = b'
        \<or> sha_collision P (account_creation_preimage c b) (account_creation_preimage c' b'))
   \<and> (transfer_fingerprint P s d c a = transfer_fingerprint P s' d' c' a'
      \<longleftrightarrow> s = s' \<and> d = d' \<and> c = c' \<and> a = a'
        \<or> sha_collision P (transfer_preimage s d c a) (transfer_preimage s' d' c' a'))
   \<and> (reversal_fingerprint P u = reversal_fingerprint P u'
      \<longleftrightarrow> u = u' \<or> sha_collision P (reversal_preimage u) (reversal_preimage u'))
   \<and> (account_creation_fingerprint P c b = transfer_fingerprint P s d c' a
      \<longleftrightarrow> sha_collision P (account_creation_preimage c b) (transfer_preimage s d c' a))
   \<and> (transfer_fingerprint P s d c a = reversal_fingerprint P u
      \<longleftrightarrow> sha_collision P (transfer_preimage s d c a) (reversal_preimage u))
   \<and> (account_creation_fingerprint P c b = reversal_fingerprint P u
      \<longleftrightarrow> sha_collision P (account_creation_preimage c b) (reversal_preimage u))"
proof -
  have "account_creation_preimage c b \<noteq> transfer_preimage s d c' a"
    and "transfer_preimage s d c a \<noteq> reversal_preimage u"
    and "account_creation_preimage c b \<noteq> reversal_preimage u"
    by (simp_all add: account_creation_preimage_def transfer_preimage_def reversal_preimage_def)
  then show ?thesis
    by (auto simp: account_creation_fingerprint_def transfer_fingerprint_def
        reversal_fingerprint_def sha_collision_def account_creation_preimage_inject
        transfer_preimage_inject reversal_preimage_inject)
qed

section \<open>Records\<close>

datatype Reservation =
  Reservation_Owned | Reservation_Replay i32 Value | Reservation_Conflict

definition completed_success ::
  "string \<Rightarrow> string \<Rightarrow> string \<Rightarrow> (SqlError, (string \<times> i32 \<times> Value) option) tx" where
  "completed_success client_id op k =
     tx_bind (execute (select_idempotency (client_id, op, k))) (\<lambda>record.
       case record of
         None \<Rightarrow> tx_return None
       | Some r \<Rightarrow>
           tx_bind (tx_expect (http_status r)) (\<lambda>s.
           tx_bind (tx_expect (response_body r)) (\<lambda>b.
             tx_return (Some (fingerprint r, s, b)))))"

text \<open>
  The reserving insert: \<open>now() + ($5 * interval '1 second')\<close> fails when it leaves the range of
  \<open>timestamptz\<close> (year 294276, in microseconds since 2000).
\<close>

definition timestamptz_end :: int where "timestamptz_end = 9223371331200000000"

definition insert_reservation ::
  "timestamp \<Rightarrow> string \<Rightarrow> string \<Rightarrow> string \<Rightarrow> string \<Rightarrow> i64 \<Rightarrow> nat statement" where
  "insert_reservation now client_id op k fp seconds d =
     (let expiry = now + sint seconds * 1000000 in
      if timestamptz_end \<le> expiry then Inl OutOfRange
      else insert_idempotency
             \<lparr>client = client_id, operation = op, idem_key = k, fingerprint = fp,
              http_status = None, response_body = None, resource_id = None,
              idem_created_at = now, expires_at = expiry\<rparr> d)"

definition reserve ::
  "timestamp \<Rightarrow> string \<Rightarrow> string \<Rightarrow> string \<Rightarrow> string \<Rightarrow> 64 word \<Rightarrow> (SqlError, Reservation) tx" where
  "reserve now client_id op k fp retention =
     tx_bind (tx_expect (i64_try_from (uint retention))) (\<lambda>seconds.
     tx_bind (execute (insert_reservation now client_id op k fp seconds)) (\<lambda>inserted.
     if inserted = 1 then tx_return Reservation_Owned
     else
       tx_bind (execute (select_idempotency (client_id, op, k))) (\<lambda>record.
       tx_bind (ok_or RowNotFound record) (\<lambda>r.
       if fingerprint r \<noteq> fp then tx_return Reservation_Conflict
       else
         (case (http_status r, response_body r) of
            (Some s, Some b) \<Rightarrow> tx_return (Reservation_Replay s b)
          | _ \<Rightarrow> tx_panic)))))"

definition store_success ::
  "string \<Rightarrow> string \<Rightarrow> string \<Rightarrow> i32 \<Rightarrow> Value \<Rightarrow> uuid \<Rightarrow> (SqlError, unit) tx" where
  "store_success client_id op k status body resource =
     execute (update_idempotency (client_id, op, k) status body resource)"

lemma calm_completed_success [calm_intros]: "calm ConnectionLost (completed_success c op k)"
  unfolding completed_success_def by (intro calm_intros)

lemma calm_reserve [calm_intros]: "calm ConnectionLost (reserve now c op k fp ret)"
  unfolding reserve_def
  by (auto intro!: calm_intros split: option.split)

lemma calm_store_success [calm_intros]: "calm ConnectionLost (store_success c op k s b u)"
  unfolding store_success_def by (intro calm_intros)

section \<open>The contract of the store\<close>

datatype 'r answer = Fresh | Pending | Replayed 'r | Conflicting

locale idempotent_store =
  fixes stored :: "'db \<Rightarrow> 'k \<Rightarrow> ('f \<times> 'r option) option"
    and claim :: "'k \<Rightarrow> 'f \<Rightarrow> 'db \<Rightarrow> 'db"
    and complete :: "'k \<Rightarrow> 'r \<Rightarrow> 'db \<Rightarrow> 'db"
  assumes stored_claim: "stored d k = None \<Longrightarrow>
      stored (claim k f d) k' = (if k' = k then Some (f, None) else stored d k')"
    and stored_complete: "stored (complete k r d) k' =
      (if k' = k then map_option (\<lambda>(f, _). (f, Some r)) (stored d k) else stored d k')"
begin

definition answer :: "'db \<Rightarrow> 'k \<Rightarrow> 'f \<Rightarrow> 'r answer" where
  "answer d k f =
     (case stored d k of
        None \<Rightarrow> Fresh
      | Some (g, r) \<Rightarrow> if f \<noteq> g then Conflicting else case r of None \<Rightarrow> Pending | Some x \<Rightarrow> Replayed x)"

lemma completed_replays:
  assumes "answer d k f = Fresh"
  shows "answer (complete k r (claim k f d)) k f = Replayed r"
    and "f' \<noteq> f \<Longrightarrow> answer (complete k r (claim k f d)) k f' = Conflicting"
    and "k' \<noteq> k \<Longrightarrow> answer (complete k r (claim k f d)) k' f' = answer d k' f'"
proof -
  have "stored d k = None"
    using assms by (auto simp: answer_def split: option.splits if_splits)
  then show "answer (complete k r (claim k f d)) k f = Replayed r"
    and "f' \<noteq> f \<Longrightarrow> answer (complete k r (claim k f d)) k f' = Conflicting"
    and "k' \<noteq> k \<Longrightarrow> answer (complete k r (claim k f d)) k' f' = answer d k' f'"
    by (simp_all add: answer_def stored_complete stored_claim)
qed

end

definition stored_record ::
  "Database \<Rightarrow> string \<times> string \<times> string \<Rightarrow> (string \<times> (i32 \<times> Value) option) option" where
  "stored_record d k =
     map_option (\<lambda>r. (fingerprint r,
         case (http_status r, response_body r) of (Some s, Some b) \<Rightarrow> Some (s, b) | _ \<Rightarrow> None))
       (find_by idem_row_key k (idempotency_records d))"

definition reservation_row ::
  "timestamp \<Rightarrow> 64 word \<Rightarrow> string \<times> string \<times> string \<Rightarrow> string \<Rightarrow> IdempotencyRow" where
  "reservation_row now retention k fp =
     \<lparr>client = fst k, operation = fst (snd k), idem_key = snd (snd k), fingerprint = fp,
      http_status = None, response_body = None, resource_id = None,
      idem_created_at = now, expires_at = now + uint retention * 1000000\<rparr>"

definition claim_record ::
  "timestamp \<Rightarrow> 64 word \<Rightarrow> string \<times> string \<times> string \<Rightarrow> string \<Rightarrow> Database \<Rightarrow> Database" where
  "claim_record now retention k fp = insert_idempotency_row (reservation_row now retention k fp)"

lemma set_response_simps:
  "fingerprint (set_response s b u r) = fingerprint r"
  "http_status (set_response s b u r) = Some s" "response_body (set_response s b u r) = Some b"
  "resource_id (set_response s b u r) = Some u"
  by (simp_all add: set_response_def)

definition complete_record ::
  "uuid \<Rightarrow> string \<times> string \<times> string \<Rightarrow> i32 \<times> Value \<Rightarrow> Database \<Rightarrow> Database" where
  "complete_record u k r = update_idempotency_row k (set_response (fst r) (snd r) u)"

lemma reservation_row_key [simp]: "idem_row_key (reservation_row now retention k fp) = k"
  by (simp add: reservation_row_def idem_row_key_def)

interpretation record_store:
  idempotent_store stored_record "claim_record now retention" "complete_record u" for now retention u
proof
  fix d :: Database and k fp k' and r :: "i32 \<times> Value"
  let ?row = "reservation_row now retention k fp"
  assume "stored_record d k = None"
  then have "idempotency_table.lookup_row (idem_row_key ?row) d = None"
    by (simp add: stored_record_def idempotency_lookup_eq)
  from idempotency_table.lookup_insert [OF this, of k']
  show "stored_record (claim_record now retention k fp d) k'
      = (if k' = k then Some (fp, None) else stored_record d k')"
    by (simp add: stored_record_def claim_record_def idempotency_lookup_eq [symmetric])
      (simp add: reservation_row_def)
next
  fix d :: Database and k k' :: "string \<times> string \<times> string" and r :: "i32 \<times> Value"
  have "find_by idem_row_key k' (idempotency_records (complete_record u k r d)) =
      (if k' = k then map_option (set_response (fst r) (snd r) u)
          (find_by idem_row_key k (idempotency_records d))
       else find_by idem_row_key k' (idempotency_records d))"
    using idempotency_table.lookup_update [of "set_response (fst r) (snd r) u" k' k d]
    by (simp add: complete_record_def idempotency_lookup_eq)
  then show "stored_record (complete_record u k r d) k'
      = (if k' = k then map_option (\<lambda>(f, _). (f, Some r)) (stored_record d k) else stored_record d k')"
    by (cases "find_by idem_row_key k (idempotency_records d)")
       (simp_all add: stored_record_def set_response_simps)
qed

section \<open>Replay or reserve\<close>

text \<open>
  The head of \<open>create_transfer\<close> and \<open>reverse_transfer\<close>: answer a completed key from its record,
  otherwise reserve it.  \<open>None\<close> means that the caller owns the operation.
\<close>

definition replay_or_reserve ::
  "Platform \<Rightarrow> FinancialOperation \<Rightarrow> timestamp \<Rightarrow> 64 word \<Rightarrow> string \<Rightarrow> string \<Rightarrow> string \<Rightarrow> string
    \<Rightarrow> (AppError, Response option) tx" where
  "replay_or_reserve P fin now retention client_id op k fp =
     (let observe = (\<lambda>outcome. emit (observation_idempotency (observation_started fin) outcome));
          replay = (\<lambda>s b. tx_then (observe Idempotency_Replay)
                      (tx_bind (stored_response P s b) (\<lambda>r. tx_return (Some r))));
          conflict = tx_then (observe Idempotency_Conflict) (tx_throw IdempotencyConflict)
      in
      tx_bind (map_err internal_sql (completed_success client_id op k)) (\<lambda>prior.
        case prior of
          Some (fp', s, b) \<Rightarrow> if fp \<noteq> fp' then conflict else replay s b
        | None \<Rightarrow>
            tx_bind (map_err internal_sql (reserve now client_id op k fp retention)) (\<lambda>reservation.
              case reservation of
                Reservation_Replay s b \<Rightarrow> replay s b
              | Reservation_Conflict \<Rightarrow> conflict
              | Reservation_Owned \<Rightarrow> tx_then (observe Idempotency_Owner) (tx_return None))))"

lemma calm_replay_or_reserve [calm_intros]:
  "calm lost (replay_or_reserve P fin now retention c op k fp)"
  unfolding replay_or_reserve_def Let_def
  by (auto intro!: calm_intros split: option.split Reservation.split prod.split)

section \<open>What replaying and reserving do\<close>

definition idem_metrics :: "FinancialOperation \<Rightarrow> IdempotencyOutcome \<Rightarrow> Metric list" where
  "idem_metrics fin outcome = [idempotency_metric fin outcome]"

lemma observation_idempotency_eq:
  "observation_idempotency (observation_started fin) outcome = idem_metrics fin outcome"
  by (simp add: observation_idempotency_def observation_started_def idem_metrics_def)

lemma insert_reservation_InrD:
  assumes "insert_reservation now c op k fp seconds d = Inr (n, d')"
    and "sint seconds = uint retention"
  shows "(n = 1 \<and> find_by idem_row_key (c, op, k) (idempotency_records d) = None
          \<and> d' = claim_record now retention (c, op, k) fp d)
       \<or> (n = 0 \<and> d' = d \<and> find_by idem_row_key (c, op, k) (idempotency_records d) \<noteq> None)"
  using assms
  by (auto simp: insert_reservation_def insert_idempotency_def Let_def claim_record_def
      insert_idempotency_row_def reservation_row_def idem_row_key_def split: if_splits)

lemma completed_success_InrD:
  assumes "completed_success c op k s = (Inr x, s')"
  shows "work s' = work s \<and> committed s' = committed s \<and> emitted s' = emitted s
    \<and> (case x of
         None \<Rightarrow> find_by idem_row_key (c, op, k) (idempotency_records (work s)) = None
       | Some (fp, st, b) \<Rightarrow> stored_record (work s) (c, op, k) = Some (fp, Some (st, b)))"
proof -
  from assms obtain r s1 where
    "execute (select_idempotency (c, op, k)) s = (Inr r, s1)" and
    rest: "(case r of None \<Rightarrow> tx_return None
       | Some r \<Rightarrow> tx_bind (tx_expect (http_status r)) (\<lambda>st.
           tx_bind (tx_expect (response_body r)) (\<lambda>b.
             tx_return (Some (fingerprint r, st, b))))) s1 = (Inr x :: SqlError fault + _, s')"
    by (auto simp: completed_success_def tx_bind_Inr)
  from execute_InrD [OF this(1)] have
    "r = find_by idem_row_key (c, op, k) (idempotency_records (work s))"
    "work s1 = work s" "committed s1 = committed s" "emitted s1 = emitted s"
    by (auto simp: select_idempotency_def)
  with rest show ?thesis
    by (auto simp: stmt_simps stored_record_def split: option.splits)
qed

lemma reserve_InrD:
  assumes "reserve now c op k fp retention s = (Inr x, s')"
  shows "committed s' = committed s \<and> emitted s' = emitted s
    \<and> (case x of
         Reservation_Owned \<Rightarrow>
           find_by idem_row_key (c, op, k) (idempotency_records (work s)) = None
           \<and> (\<exists>n. insert_idempotency (reservation_row now retention (c, op, k) fp) (work s)
                    = Inr (n, work s'))
           \<and> work s' = claim_record now retention (c, op, k) fp (work s)
       | Reservation_Replay st b \<Rightarrow>
           work s' = work s \<and> stored_record (work s) (c, op, k) = Some (fp, Some (st, b))
       | Reservation_Conflict \<Rightarrow> work s' = work s)"
proof -
  from assms obtain seconds n s1 where
    secs: "i64_try_from (uint retention) = Some seconds" and
    ins: "execute (insert_reservation now c op k fp seconds) s = (Inr n, s1)" and
    rest: "(if n = 1 then tx_return Reservation_Owned
       else tx_bind (execute (select_idempotency (c, op, k))) (\<lambda>record.
         tx_bind (ok_or RowNotFound record) (\<lambda>r.
           if fingerprint r \<noteq> fp then tx_return Reservation_Conflict
           else (case (http_status r, response_body r) of
               (Some s, Some b) \<Rightarrow> tx_return (Reservation_Replay s b)
             | _ \<Rightarrow> tx_panic)))) s1 = (Inr x, s')"
    unfolding reserve_def by (auto simp: tx_bind_Inr tx_expect_Inr)
  have sec: "sint seconds = uint retention" using secs by (simp add: i64_try_from_eq_Some)
  note i = execute_InrD [OF ins]
  from i have "insert_idempotency (reservation_row now retention (c, op, k) fp) (work s) = Inr (n, work s1)"
    by (auto simp: insert_reservation_def reservation_row_def Let_def sec split: if_splits)
  moreover note insert_reservation_InrD [OF conjunct1 [OF i] sec]
  ultimately show ?thesis
    using rest i
    by (auto simp: stmt_simps stored_record_def select_idempotency_def
        split: if_splits option.splits dest!: execute_InrD)
qed

lemma stored_response_Inr [stmt_simps]:
  "stored_response P st b s = (Inr r, s') \<longleftrightarrow>
     s' = s \<and> (\<exists>n. stored_status P st = Inr n \<and> r = \<lparr>resp_status = n, resp_body = b\<rparr>)"
  by (auto simp: stored_response_def stmt_simps)

lemma replay_or_reserve_InrD:
  assumes "replay_or_reserve P fin now retention c op k fp s = (Inr x, s')"
  shows "committed s' = committed s
    \<and> (case x of
         None \<Rightarrow>
           find_by idem_row_key (c, op, k) (idempotency_records (work s)) = None
           \<and> (\<exists>n. insert_idempotency (reservation_row now retention (c, op, k) fp) (work s)
                    = Inr (n, work s'))
           \<and> work s' = claim_record now retention (c, op, k) fp (work s)
           \<and> emitted s' = emitted s @ idem_metrics fin Idempotency_Owner
       | Some resp \<Rightarrow>
           work s' = work s
           \<and> (\<exists>st. stored_record (work s) (c, op, k) = Some (fp, Some (st, resp_body resp))
                  \<and> stored_status P st = Inr (resp_status resp))
           \<and> emitted s' = emitted s @ idem_metrics fin Idempotency_Replay)"
proof -
  from assms obtain prior s1 where
    one: "completed_success c op k s = (Inr prior, s1)"
    by (auto simp: replay_or_reserve_def Let_def tx_bind_Inr map_err_Inr)
  note o = completed_success_InrD [OF one]
  show ?thesis
  proof (cases prior)
    case None
    with assms one obtain res s2 where
      two: "reserve now c op k fp retention s1 = (Inr res, s2)"
      by (auto simp: replay_or_reserve_def Let_def tx_bind_def map_err_def
          split: prod.splits sum.splits)
    note r = reserve_InrD [OF two]
    show ?thesis
      using assms one two o r None
      by (cases res) (auto simp: replay_or_reserve_def Let_def tx_bind_def map_err_def
          observation_idempotency_eq tx_then_def emit_def tx_return_def tx_throw_def
          stored_response_def from_result_def split: sum.splits)
  next
    case (Some y)
    obtain fp' st b where y: "y = (fp', st, b)" by (cases y)
    show ?thesis
      using assms one o
      by (auto simp: replay_or_reserve_def Let_def tx_bind_def map_err_def Some y
          observation_idempotency_eq tx_then_def emit_def tx_return_def tx_throw_def
          stored_response_def from_result_def split: sum.splits if_splits)
  qed
qed

text \<open>Undisturbed, on a completed record: replay for the same fingerprint, conflict otherwise.\<close>

lemma completed_success_fine:
  assumes "fates s = []"
    and "stored_record (work s) (c, op, k) = Some (fp, Some (st, b))"
  shows "completed_success c op k s = (Inr (Some (fp, st, b)), s)"
  using assms
  by (auto simp: completed_success_def stored_record_def tx_run select_idempotency_def
      split: option.splits)

lemma replay_or_reserve_done:
  assumes "fates s = []"
    and "stored_record (work s) (c, op, k) = Some (fp', Some (st, b))"
  shows "replay_or_reserve P fin now retention c op k fp s =
    (if fp \<noteq> fp' then
       (Inl (Fail IdempotencyConflict),
        s\<lparr>emitted := emitted s @ idem_metrics fin Idempotency_Conflict\<rparr>)
     else
       ((case stored_status P st of Inl e \<Rightarrow> Inl (Fail e)
         | Inr n \<Rightarrow> Inr (Some \<lparr>resp_status = n, resp_body = b\<rparr>)),
        s\<lparr>emitted := emitted s @ idem_metrics fin Idempotency_Replay\<rparr>))"
  using completed_success_fine [OF assms]
  by (simp add: replay_or_reserve_def Let_def tx_bind_def map_err_def tx_then_def emit_def
      observation_idempotency_eq tx_return_def tx_throw_def stored_response_def from_result_def
      split: sum.splits)

text \<open>Undisturbed, on a new key: the caller owns it.\<close>

section \<open>Completing a reservation\<close>

definition completed_row ::
  "timestamp \<Rightarrow> 64 word \<Rightarrow> string \<times> string \<times> string \<Rightarrow> string \<Rightarrow> i32 \<Rightarrow> Value \<Rightarrow> uuid \<Rightarrow> IdempotencyRow" where
  "completed_row now retention k fp st b u = set_response st b u (reservation_row now retention k fp)"

lemma complete_last:
  assumes "find_by idem_row_key k rs = None"
  shows "update_by idem_row_key k (set_response st b u) (rs @ [reservation_row now retention k fp])
      = rs @ [completed_row now retention k fp st b u]"
  using assms
  by (simp add: update_by_append update_by_absent find_by_None_iff)
     (simp add: update_by_def completed_row_def)

lemma store_success_InrD:
  assumes "store_success c op k st b u s = (Inr x, s')"
    and "idempotency_records (work s) = rs @ [reservation_row now retention (c, op, k) fp]"
    and "find_by idem_row_key (c, op, k) rs = None"
  shows "work s' = (work s)\<lparr>idempotency_records :=
           rs @ [completed_row now retention (c, op, k) fp st b u]\<rparr>
    \<and> committed s' = committed s \<and> emitted s' = emitted s
    \<and> (schema_ok (work s) \<longrightarrow> schema_ok (work s'))"
proof -
  note e = execute_InrD [OF assms(1) [unfolded store_success_def]]
  have "find_by idem_row_key (c, op, k) (idempotency_records (work s))
      = Some (reservation_row now retention (c, op, k) fp)"
    using assms(2,3) by (simp add: find_by_append)
  moreover note complete_last [OF assms(3)]
  ultimately show ?thesis
    using e assms(2) update_idempotency_schema [OF _ conjunct1 [OF e]]
    by (auto simp: update_idempotency_def split: if_splits)
qed

lemma store_success_fine:
  assumes "fates s = []"
    and "idempotency_records (work s) = rs @ [reservation_row now retention (c, op, k) fp]"
    and "find_by idem_row_key (c, op, k) rs = None"
    and "idempotency_check (completed_row now retention (c, op, k) fp st b u)"
  shows "store_success c op k st b u s = (Inr (), s\<lparr>work := (work s)\<lparr>idempotency_records :=
           rs @ [completed_row now retention (c, op, k) fp st b u]\<rparr>\<rparr>)"
proof -
  have "find_by idem_row_key (c, op, k) (idempotency_records (work s))
      = Some (reservation_row now retention (c, op, k) fp)"
    using assms(2,3) by (simp add: find_by_append)
  moreover note complete_last [OF assms(3)]
  ultimately show ?thesis
    using assms(1,2,4)
    by (simp add: store_success_def execute_fine update_idempotency_def completed_row_def)
qed

lemma claim_record_simps [simp]:
  "accounts (claim_record now retention k fp d) = accounts d"
  "transfers (claim_record now retention k fp d) = transfers d"
  "account_entries (claim_record now retention k fp d) = account_entries d"
  "idempotency_records (claim_record now retention k fp d) =
     idempotency_records d @ [reservation_row now retention k fp]"
  "exchange_rates (claim_record now retention k fp d) = exchange_rates d"
  "fx_fee_rules (claim_record now retention k fp d) = fx_fee_rules d"
  by (simp_all add: claim_record_def insert_idempotency_row_def)

section \<open>Exactly once\<close>

text \<open>A completed key is answered from its record from then on, by the contract of the store.\<close>

lemma stored_record_cong:
  "idempotency_records d' = idempotency_records d \<Longrightarrow> stored_record d' = stored_record d"
  by (simp add: stored_record_def fun_eq_iff)

lemma completed_answers:
  assumes "find_by idem_row_key k (idempotency_records d) = None"
    and "idempotency_records d' = idempotency_records d @ [completed_row now retention k fp st b u]"
  shows "record_store.answer d' k fp = Replayed (st, b)"
    and "fp' \<noteq> fp \<Longrightarrow> record_store.answer d' k fp' = Conflicting"
    and "k' \<noteq> k \<Longrightarrow> record_store.answer d' k' fp' = record_store.answer d k' fp'"
proof -
  let ?done = "complete_record u k (st, b) (claim_record now retention k fp d)"
  have "idempotency_records ?done = idempotency_records d'"
    by (simp add: complete_record_def update_idempotency_row_def complete_last [OF assms(1)] assms(2))
  then have same: "stored_record d' = stored_record ?done"
    by (metis stored_record_cong)
  have fresh: "record_store.answer d k fp = Fresh"
    using assms(1) by (simp add: record_store.answer_def stored_record_def)
  show "record_store.answer d' k fp = Replayed (st, b)"
    using record_store.completed_replays(1) [OF fresh] by (simp add: record_store.answer_def same)
  show "fp' \<noteq> fp \<Longrightarrow> record_store.answer d' k fp' = Conflicting"
    using record_store.completed_replays(2) [OF fresh] by (simp add: record_store.answer_def same)
  show "k' \<noteq> k \<Longrightarrow> record_store.answer d' k' fp' = record_store.answer d k' fp'"
    using record_store.completed_replays(3) [OF fresh] by (simp add: record_store.answer_def same)
qed

lemma answer_Replayed_iff:
  "record_store.answer d k fp = Replayed (st, b) \<longleftrightarrow> stored_record d k = Some (fp, Some (st, b))"
  by (auto simp: record_store.answer_def split: option.splits if_splits)

lemma answer_Conflicting_iff:
  "record_store.answer d k fp = Conflicting \<longleftrightarrow> (\<exists>g r. stored_record d k = Some (g, r) \<and> g \<noteq> fp)"
  by (auto simp: record_store.answer_def split: option.splits if_splits)

lemma answer_Fresh_iff:
  "record_store.answer d k fp = Fresh \<longleftrightarrow> find_by idem_row_key k (idempotency_records d) = None"
  by (auto simp: record_store.answer_def stored_record_def split: option.splits if_splits)

lemma from_headers_valid: "from_headers P headers = Inr k \<Longrightarrow> valid_key k"
  by (auto simp: from_headers_def malformed_key_def split: list.splits option.splits if_splits)

text \<open>The conditions under which a reservation can be written.\<close>

definition retention_ok :: "AppState \<Rightarrow> Ambient \<Rightarrow> bool" where
  "retention_ok st amb \<longleftrightarrow>
     0 < uint (idempotency_retention st) \<and> uint (idempotency_retention st) \<le> i64_max
     \<and> tx_time amb + uint (idempotency_retention st) * 1000000 < timestamptz_end"

lemma reservation_check:
  assumes "platform_ok P" and "nonblank c" and "nonblank op" and "valid_key k"
    and "retention_ok st amb"
  shows "idempotency_check
    (reservation_row (tx_time amb) (idempotency_retention st) (c, op, k) (sha256_hex P x))"
  using assms
  by (auto simp: idempotency_check_def reservation_row_def retention_ok_def valid_key_def
      platform_digest nonblank_visible)

lemma completed_check:
  assumes "idempotency_check (reservation_row now retention k fp)"
    and "200 \<le> sint st" and "sint st \<le> 299"
  shows "idempotency_check (completed_row now retention k fp st b u)"
  using assms
  by (simp add: idempotency_check_def completed_row_def reservation_row_def set_response_def)

lemma operations_nonblank [simp]:
  "nonblank ACCOUNT_CREATION_OPERATION" "nonblank TRANSFER_OPERATION"
  "nonblank FX_TRANSFER_OPERATION" "nonblank REVERSAL_OPERATION"
  by (simp_all add: nonblank_def pg_space_def ACCOUNT_CREATION_OPERATION_def
      TRANSFER_OPERATION_def FX_TRANSFER_OPERATION_def REVERSAL_OPERATION_def)

lemma operations_distinct [simp]:
  "distinct [ACCOUNT_CREATION_OPERATION, TRANSFER_OPERATION, FX_TRANSFER_OPERATION, REVERSAL_OPERATION]"
  by (simp add: ACCOUNT_CREATION_OPERATION_def TRANSFER_OPERATION_def FX_TRANSFER_OPERATION_def
      REVERSAL_OPERATION_def)

lemma i64_try_from_retention:
  assumes "uint (retention :: 64 word) \<le> i64_max"
  obtains seconds where "i64_try_from (uint retention) = Some seconds" and "sint seconds = uint retention"
proof -
  have "i64_min \<le> uint retention"
    by (rule order_trans [OF _ uint_ge_0]) (simp add: i64_min_def)
  then obtain seconds where "i64_try_from (uint retention) = Some seconds"
    using assms by (auto simp: i64_try_from_def)
  then show ?thesis using that by (simp add: i64_try_from_eq_Some)
qed

lemma reserve_done:
  assumes "fates s = []" and "uint retention \<le> i64_max"
    and "now + uint retention * 1000000 < timestamptz_end"
    and "idempotency_check (reservation_row now retention (c, op, k) fp)"
    and "stored_record (work s) (c, op, k) = Some (fp', Some (st, b))"
  shows "reserve now c op k fp retention s =
    (Inr (if fp' \<noteq> fp then Reservation_Conflict else Reservation_Replay st b), s)"
proof -
  obtain seconds where secs: "i64_try_from (uint retention) = Some seconds"
    and sec: "sint seconds = uint retention"
    using assms(2) by (rule i64_try_from_retention)
  from assms(5) obtain r where r: "find_by idem_row_key (c, op, k) (idempotency_records (work s)) = Some r"
    "fingerprint r = fp'" "http_status r = Some st" "response_body r = Some b"
    by (auto simp: stored_record_def split: option.splits)
  then have "insert_reservation now c op k fp seconds (work s) = Inr (0, work s)"
    using assms(3,4)
    by (simp add: insert_reservation_def insert_idempotency_def Let_def
        reservation_row_def idem_row_key_def sec)
  then show ?thesis
    using assms(1) secs r by (simp add: reserve_def tx_run select_idempotency_def)
qed

lemma reserve_fresh:
  assumes "fates s = []" and "uint retention \<le> i64_max"
    and "now + uint retention * 1000000 < timestamptz_end"
    and "idempotency_check (reservation_row now retention (c, op, k) fp)"
    and "find_by idem_row_key (c, op, k) (idempotency_records (work s)) = None"
  shows "reserve now c op k fp retention s =
    (Inr Reservation_Owned, s\<lparr>work := claim_record now retention (c, op, k) fp (work s)\<rparr>)"
proof -
  obtain seconds where secs: "i64_try_from (uint retention) = Some seconds"
    and sec: "sint seconds = uint retention"
    using assms(2) by (rule i64_try_from_retention)
  have "insert_reservation now c op k fp seconds (work s)
      = Inr (1, claim_record now retention (c, op, k) fp (work s))"
    using assms(3,4,5)
    by (simp add: insert_reservation_def insert_idempotency_def Let_def claim_record_def
        insert_idempotency_row_def reservation_row_def idem_row_key_def sec)
  then show ?thesis using assms(1) secs by (simp add: reserve_def tx_run)
qed

lemma replay_or_reserve_fresh:
  assumes "fates s = []"
    and "find_by idem_row_key (c, op, k) (idempotency_records (work s)) = None"
    and "uint retention \<le> i64_max"
    and "now + uint retention * 1000000 < timestamptz_end"
    and "idempotency_check (reservation_row now retention (c, op, k) fp)"
  shows "replay_or_reserve P fin now retention c op k fp s =
    (Inr None, s\<lparr>work := claim_record now retention (c, op, k) fp (work s),
                 emitted := emitted s @ idem_metrics fin Idempotency_Owner\<rparr>)"
  using reserve_fresh [OF assms(1,3,4,5,2)] assms(1,2)
  by (simp add: replay_or_reserve_def Let_def completed_success_def tx_run
      select_idempotency_def observation_idempotency_eq)

end
