(* ===== verification/Ledger_Posting.thy ===== *)
theory Ledger_Posting
  imports Idempotency
begin

text \<open>
  The double-entry core that \<open>create_transfer\<close> and \<open>reverse_transfer\<close> share: insert the transfer
  row, write the two balances, insert the two entries (\<open>src/api/transfers.rs\<close>,
  \<open>src/api/reversals.rs\<close>).  The second half states what the ledger promises (an entry pair per
  transfer, balances that move with the entries, reversals that mirror their original, complete
  idempotency records) and that a balanced posting keeps it.
\<close>

section \<open>Recording a movement\<close>

primrec tx_for_each :: "('a \<Rightarrow> ('e, unit) tx) \<Rightarrow> 'a list \<Rightarrow> ('e, unit) tx" where
  "tx_for_each f [] = tx_return ()"
| "tx_for_each f (x # xs) = tx_then (f x) (tx_for_each f xs)"

definition record_posting ::
  "timestamp \<Rightarrow> TransferRow \<Rightarrow> (uuid \<times> i64) list \<Rightarrow> EntryRow list \<Rightarrow> (AppError, unit) tx" where
  "record_posting now t balances entries =
     tx_then (run_statement (insert_transfer t))
    (tx_then (tx_for_each (\<lambda>(k, b). run_statement (update_balance k b now)) balances)
             (tx_for_each (\<lambda>e. run_statement (insert_entry e)) entries))"

lemma calm_for_each [calm_intros]: "(\<And>x. calm l (f x)) \<Longrightarrow> calm l (tx_for_each f xs)"
  by (induction xs) (auto intro: calm_intros)

lemma calm_run_statement [calm_intros]: "calm lost (run_statement st)"
  by (rule calm_map_err [OF calm_execute]) (simp add: lost_def)

lemma calm_record_posting [calm_intros]: "calm lost (record_posting now t bs es)"
  unfolding record_posting_def by (intro calm_intros) (auto intro: calm_intros)

text \<open>The effect of a posting on the database.\<close>

definition write_balances :: "timestamp \<Rightarrow> (uuid \<times> i64) list \<Rightarrow> AccountRow list \<Rightarrow> AccountRow list" where
  "write_balances now bs rows =
     fold (\<lambda>(k, b). update_by acc_id k (set_balance b now)) bs rows"

definition apply_posting ::
  "timestamp \<Rightarrow> TransferRow \<Rightarrow> (uuid \<times> i64) list \<Rightarrow> EntryRow list \<Rightarrow> Database \<Rightarrow> Database" where
  "apply_posting now t bs es d =
     d\<lparr>accounts := write_balances now bs (accounts d),
       transfers := transfers d @ [t],
       account_entries := account_entries d @ es\<rparr>"

lemma apply_posting_simps [simp]:
  "accounts (apply_posting now t bs es d) = write_balances now bs (accounts d)"
  "transfers (apply_posting now t bs es d) = transfers d @ [t]"
  "account_entries (apply_posting now t bs es d) = account_entries d @ es"
  "idempotency_records (apply_posting now t bs es d) = idempotency_records d"
  "exchange_rates (apply_posting now t bs es d) = exchange_rates d"
  "fx_fee_rules (apply_posting now t bs es d) = fx_fee_rules d"
  by (simp_all add: apply_posting_def)

lemma run_statement_InrD:
  assumes "run_statement st s = (Inr x, s')"
  shows "st (work s) = Inr (x, work s') \<and> committed s' = committed s \<and> emitted s' = emitted s"
  using assms execute_InrD by (simp add: map_err_Inr)

lemma update_balance_effect:
  assumes "update_balance k b now d = Inr (x, d')"
  shows "d' = d\<lparr>accounts := update_by acc_id k (set_balance b now) (accounts d)\<rparr>"
  using assms
  by (auto simp: update_balance_def update_by_absent find_by_None_iff
      split: option.splits if_splits)

lemma balances_InrD:
  assumes "tx_for_each (\<lambda>(k, b). run_statement (update_balance k b now)) bs s = (Inr u, s')"
  shows "work s' = (work s)\<lparr>accounts := write_balances now bs (accounts (work s))\<rparr>
    \<and> committed s' = committed s \<and> emitted s' = emitted s
    \<and> (schema_ok (work s) \<longrightarrow> schema_ok (work s'))"
  using assms
proof (induction bs arbitrary: s)
  case Nil
  then show ?case by (simp add: write_balances_def tx_return_def)
next
  case (Cons p bs)
  obtain k b where p: "p = (k, b)" by (cases p)
  from Cons.prems obtain s1 where
    one: "run_statement (update_balance k b now) s = (Inr (), s1)" and
    more: "tx_for_each (\<lambda>(k, b). run_statement (update_balance k b now)) bs s1 = (Inr u, s')"
    by (auto simp: p tx_then_Inr)
  note st = run_statement_InrD [OF one]
  have "work s1 = (work s)\<lparr>accounts := update_by acc_id k (set_balance b now) (accounts (work s))\<rparr>"
    using st by (auto dest: update_balance_effect)
  then show ?case
    using Cons.IH [OF more] st update_balance_schema
    by (auto simp: p write_balances_def)
qed

lemma entries_InrD:
  assumes "tx_for_each (\<lambda>e. run_statement (insert_entry e)) es s = (Inr u, s')"
  shows "work s' = (work s)\<lparr>account_entries := account_entries (work s) @ es\<rparr>
    \<and> committed s' = committed s \<and> emitted s' = emitted s
    \<and> (schema_ok (work s) \<longrightarrow> schema_ok (work s')) \<and> list_all entry_check es
    \<and> distinct (map en_id es) \<and> en_id ` set es \<inter> en_id ` set (account_entries (work s)) = {}"
  using assms
proof (induction es arbitrary: s)
  case Nil
  then show ?case by (simp add: tx_return_def)
next
  case (Cons e es)
  from Cons.prems obtain s1 where
    one: "run_statement (insert_entry e) s = (Inr (), s1)" and
    more: "tx_for_each (\<lambda>e. run_statement (insert_entry e)) es s1 = (Inr u, s')"
    by (auto simp: tx_then_Inr)
  note st = run_statement_InrD [OF one]
  have w: "work s1 = (work s)\<lparr>account_entries := account_entries (work s) @ [e]\<rparr>"
    "entry_check e" "en_id e \<notin> en_id ` set (account_entries (work s))"
    using st by (auto simp: insert_entry_def find_by_None_iff split: if_splits)
  show ?case
    using Cons.IH [OF more] st w insert_entry_schema by (auto simp: image_iff)
qed

lemma record_posting_InrD:
  assumes "record_posting now t bs es s = (Inr u, s')"
  shows "work s' = apply_posting now t bs es (work s) \<and> committed s' = committed s
    \<and> emitted s' = emitted s \<and> (schema_ok (work s) \<longrightarrow> schema_ok (work s'))
    \<and> (\<exists>d. insert_transfer t (work s) = Inr ((), d)) \<and> list_all entry_check es"
proof -
  from assms obtain s1 s2 where
    ins: "run_statement (insert_transfer t) s = (Inr (), s1)" and
    bal: "tx_for_each (\<lambda>(k, b). run_statement (update_balance k b now)) bs s1 = (Inr (), s2)" and
    ent: "tx_for_each (\<lambda>e. run_statement (insert_entry e)) es s2 = (Inr u, s')"
    by (auto simp: record_posting_def tx_then_Inr)
  note i = run_statement_InrD [OF ins] and b = balances_InrD [OF bal] and e = entries_InrD [OF ent]
  have "work s1 = (work s)\<lparr>transfers := transfers (work s) @ [t]\<rparr>"
    using i by (auto simp: insert_transfer_def split: if_splits)
  then show ?thesis
    using i b e insert_transfer_schema by (auto simp: apply_posting_def)
qed

section \<open>What the ledger promises\<close>

definition entry_net :: "EntryRow \<Rightarrow> int" where
  "entry_net e = (case direction e of Credit \<Rightarrow> sint (amount_minor e) | Debit \<Rightarrow> - sint (amount_minor e))"

definition net_entries :: "uuid \<Rightarrow> EntryRow list \<Rightarrow> int" where
  "net_entries a es = (\<Sum>e\<leftarrow>es. if en_account e = a then entry_net e else 0)"

definition balance_of :: "uuid \<Rightarrow> Database \<Rightarrow> int" where
  "balance_of a d =
     (case find_by acc_id a (accounts d) of None \<Rightarrow> 0 | Some r \<Rightarrow> sint (balance_minor r))"

text \<open>The balance an account had before its first entry, recomputed from the books.\<close>

definition opening_balance :: "uuid \<Rightarrow> Database \<Rightarrow> int" where
  "opening_balance a d = balance_of a d - net_entries a (account_entries d)"

definition entry_pair :: "TransferRow \<Rightarrow> EntryRow \<Rightarrow> EntryRow \<Rightarrow> bool" where
  "entry_pair t a b \<longleftrightarrow>
     direction a = Debit \<and> direction b = Credit
     \<and> en_account a = tr_source t \<and> en_account b = tr_destination t
     \<and> en_counterparty a = tr_destination t \<and> en_counterparty b = tr_source t
     \<and> en_transfer a = tr_id t \<and> en_transfer b = tr_id t
     \<and> amount_minor a = total_debit_minor t \<and> amount_minor b = destination_amount_minor t
     \<and> en_currency a = tr_source_currency t \<and> en_currency b = tr_destination_currency t
     \<and> en_kind a = tr_kind t \<and> en_kind b = tr_kind t
     \<and> en_created_at a = tr_created_at t \<and> en_created_at b = tr_created_at t"

definition double_entry :: "Database \<Rightarrow> bool" where
  "double_entry d \<longleftrightarrow>
     (\<forall>t \<in> set (transfers d). \<exists>a b.
        filter (\<lambda>e. en_transfer e = tr_id t) (account_entries d) = [a, b] \<and> entry_pair t a b)"

text \<open>The amounts of each kind of transfer.\<close>

definition amounts_ok :: "TransferRow \<Rightarrow> bool" where
  "amounts_ok t \<longleftrightarrow>
     (case tr_kind t of
        Kind_Transfer \<Rightarrow>
          tr_source_currency t = tr_destination_currency t \<and> sint (fee_amount_minor t) = 0
          \<and> source_amount_minor t = destination_amount_minor t
          \<and> total_debit_minor t = source_amount_minor t
      | Kind_FxTransfer \<Rightarrow>
          tr_source_currency t \<noteq> tr_destination_currency t
          \<and> sint (total_debit_minor t) = sint (source_amount_minor t) + sint (fee_amount_minor t)
      | Kind_Reversal \<Rightarrow> total_debit_minor t = source_amount_minor t)"

text \<open>A reversal returns to the original source everything it was debited, fee included.\<close>

definition mirrors :: "TransferRow \<Rightarrow> TransferRow \<Rightarrow> bool" where
  "mirrors t rv \<longleftrightarrow>
     tr_source rv = tr_destination t \<and> tr_destination rv = tr_source t
     \<and> tr_source_currency rv = tr_destination_currency t
     \<and> tr_destination_currency rv = tr_source_currency t
     \<and> total_debit_minor rv = destination_amount_minor t
     \<and> destination_amount_minor rv = total_debit_minor t"

definition reversal_link_ok :: "TransferRow list \<Rightarrow> TransferRow \<Rightarrow> bool" where
  "reversal_link_ok ts t \<longleftrightarrow>
     (case reverses t of
        None \<Rightarrow> tr_kind t \<noteq> Kind_Reversal
      | Some o' \<Rightarrow> tr_kind t = Kind_Reversal
          \<and> (\<exists>u \<in> set ts. tr_id u = o' \<and> tr_kind u \<noteq> Kind_Reversal \<and> mirrors u t))"

definition account_currency :: "uuid \<Rightarrow> Database \<Rightarrow> string option" where
  "account_currency a d = map_option acc_currency (find_by acc_id a (accounts d))"

definition currencies_ok :: "Database \<Rightarrow> TransferRow \<Rightarrow> bool" where
  "currencies_ok d t \<longleftrightarrow>
     account_currency (tr_source t) d = Some (tr_source_currency t)
     \<and> account_currency (tr_destination t) d = Some (tr_destination_currency t)"

definition record_complete :: "IdempotencyRow \<Rightarrow> bool" where
  "record_complete r \<longleftrightarrow> http_status r \<noteq> None \<and> response_body r \<noteq> None"

definition books_ok :: "Database \<Rightarrow> bool" where
  "books_ok d \<longleftrightarrow>
     double_entry d \<and> list_all amounts_ok (transfers d)
     \<and> list_all (reversal_link_ok (transfers d)) (transfers d)
     \<and> list_all (currencies_ok d) (transfers d)"

definition ledger_ok :: "Database \<Rightarrow> bool" where
  "ledger_ok d \<longleftrightarrow>
     schema_ok d \<and> books_ok d \<and> list_all record_complete (idempotency_records d)"

lemma ledger_okD:
  assumes "ledger_ok d"
  shows "schema_ok d" and "books_ok d" and "list_all record_complete (idempotency_records d)"
  using assms by (simp_all add: ledger_ok_def)

text \<open>The books are the accounts' currencies, the transfers and the entries.\<close>

lemma books_ok_cong:
  assumes "accounts d' = accounts d" and "transfers d' = transfers d"
    and "account_entries d' = account_entries d"
  shows "books_ok d' \<longleftrightarrow> books_ok d"
  using assms
  by (simp add: books_ok_def double_entry_def currencies_ok_def account_currency_def list_all_iff)

section \<open>A balanced posting\<close>

text \<open>
  The posting of a transfer row: its two balances move by exactly its two entries, and both
  accounts exist in its currencies.
\<close>

definition balanced_posting ::
  "TransferRow \<Rightarrow> (uuid \<times> i64) list \<Rightarrow> EntryRow list \<Rightarrow> Database \<Rightarrow> bool" where
  "balanced_posting t bs es d \<longleftrightarrow>
     (\<exists>sb db a b src dst.
        bs = [(tr_source t, sb), (tr_destination t, db)] \<and> es = [a, b] \<and> entry_pair t a b
        \<and> find_by acc_id (tr_source t) (accounts d) = Some src
        \<and> find_by acc_id (tr_destination t) (accounts d) = Some dst
        \<and> tr_source t \<noteq> tr_destination t
        \<and> acc_currency src = tr_source_currency t \<and> acc_currency dst = tr_destination_currency t
        \<and> sint sb = sint (balance_minor src) - sint (total_debit_minor t)
        \<and> sint db = sint (balance_minor dst) + sint (destination_amount_minor t))"

lemma set_balance_simps [simp]:
  "balance_minor (set_balance b now r) = b" "acc_currency (set_balance b now r) = acc_currency r"
  "owner_id (set_balance b now r) = owner_id r" "acc_status (set_balance b now r) = acc_status r"
  "currency_scale (set_balance b now r) = currency_scale r"
  "acc_version (set_balance b now r) = acc_version r + 1"
  by (simp_all add: set_balance_def)

lemma find_write_balances:
  assumes "distinct (map fst bs)"
  shows "find_by acc_id k (write_balances now bs rows) =
    map_option (\<lambda>r. case map_of bs k of None \<Rightarrow> r | Some b \<Rightarrow> set_balance b now r)
      (find_by acc_id k rows)"
  using assms
proof (induction bs arbitrary: rows)
  case Nil
  then show ?case by (cases "find_by acc_id k rows") (simp_all add: write_balances_def)
next
  case (Cons p bs)
  obtain k' b where p: "p = (k', b)" by (cases p)
  have "find_by acc_id k (write_balances now (p # bs) rows)
      = find_by acc_id k (write_balances now bs (update_by acc_id k' (set_balance b now) rows))"
    by (simp add: write_balances_def p)
  also have "\<dots> = map_option (\<lambda>r. case map_of bs k of None \<Rightarrow> r | Some b \<Rightarrow> set_balance b now r)
      (find_by acc_id k (update_by acc_id k' (set_balance b now) rows))"
    using Cons by simp
  finally show ?case
    using Cons.prems map_of_eq_None_iff [of bs k']
    by (cases "find_by acc_id k rows"; cases "k = k'")
       (auto simp: p find_by_update_same find_by_update_other image_iff)
qed

lemma account_currency_posting:
  assumes "distinct (map fst bs)"
  shows "account_currency a (apply_posting now t bs es d) = account_currency a d"
  using assms
  by (cases "find_by acc_id a (accounts d)"; cases "map_of bs a")
     (simp_all add: account_currency_def find_write_balances)

lemma double_entry_append:
  assumes "double_entry d" and "list_all (entry_refs_ok d) (account_entries d)"
    and "tr_id t \<notin> tr_id ` set (transfers d)" and "entry_pair t a b"
  shows "double_entry (apply_posting now t bs [a, b] d)"
proof -
  have pair: "en_transfer a = tr_id t" "en_transfer b = tr_id t"
    using assms(4) by (simp_all add: entry_pair_def)
  have "\<exists>x y. filter (\<lambda>e. en_transfer e = tr_id u) (account_entries d @ [a, b]) = [x, y]
      \<and> entry_pair u x y" if "u \<in> set (transfers d @ [t])" for u
  proof (cases "u = t")
    case True
    have "\<forall>e \<in> set (account_entries d). en_transfer e \<noteq> tr_id t"
      using assms(2,3) unfolding list_all_iff entry_refs_ok_def by metis
    then have "filter (\<lambda>e. en_transfer e = tr_id u) (account_entries d) = []"
      using True by (simp add: filter_empty_conv)
    then show ?thesis using True pair assms(4) by simp
  next
    case False
    then have "u \<in> set (transfers d)" using that by simp
    moreover from this have "tr_id u \<noteq> tr_id t" using assms(3) by (metis imageI)
    ultimately show ?thesis
      using assms(1) pair by (auto simp: double_entry_def)
  qed
  then show ?thesis by (simp add: double_entry_def)
qed

lemma reversal_link_mono: "reversal_link_ok ts t \<Longrightarrow> reversal_link_ok (ts @ [u]) t"
  by (auto simp: reversal_link_ok_def split: option.splits)

lemma posting_keeps_books:
  assumes "schema_ok d" and "books_ok d" and "balanced_posting t bs es d"
    and "amounts_ok t" and "reversal_link_ok (transfers d) t"
    and "insert_transfer t d = Inr ((), d1)"
  shows "books_ok (apply_posting now t bs es d)"
proof -
  let ?d = "apply_posting now t bs es d"
  from assms(3) obtain sb db a b src dst where
    bs: "bs = [(tr_source t, sb), (tr_destination t, db)]" and es: "es = [a, b]"
    and pair: "entry_pair t a b" and ne: "tr_source t \<noteq> tr_destination t"
    and cur: "currencies_ok d t"
    by (auto simp: balanced_posting_def currencies_ok_def account_currency_def)
  have dist: "distinct (map fst bs)" using ne by (simp add: bs)
  have new: "tr_id t \<notin> tr_id ` set (transfers d)"
    using assms(6) by (auto simp: insert_transfer_def find_by_None_iff split: if_splits)
  have cur_eq: "currencies_ok ?d u \<longleftrightarrow> currencies_ok d u" for u
    by (simp add: currencies_ok_def account_currency_posting [OF dist])
  have "double_entry ?d"
    using assms(1,2) new pair
    by (auto simp: es books_ok_def schema_ok_def refs_ok_def intro!: double_entry_append)
  moreover have "list_all (reversal_link_ok (transfers d @ [t])) (transfers d @ [t])"
    using assms(2,5) reversal_link_mono by (auto simp: books_ok_def list_all_iff)
  moreover have "list_all (currencies_ok ?d) (transfers d @ [t])"
    using assms(2) cur by (auto simp: books_ok_def list_all_iff cur_eq)
  ultimately show ?thesis
    using assms(2,4) by (simp add: books_ok_def)
qed

text \<open>Every balance keeps agreeing with the entries: the opening balance is what it was.\<close>

lemma posting_opening_balance:
  assumes "balanced_posting t bs es d"
  shows "opening_balance k (apply_posting now t bs es d) = opening_balance k d"
proof -
  from assms obtain sb db a b src dst where
    bs: "bs = [(tr_source t, sb), (tr_destination t, db)]" and es: "es = [a, b]"
    and pair: "entry_pair t a b" and ne: "tr_source t \<noteq> tr_destination t"
    and src: "find_by acc_id (tr_source t) (accounts d) = Some src"
    and dst: "find_by acc_id (tr_destination t) (accounts d) = Some dst"
    and sb: "sint sb = sint (balance_minor src) - sint (total_debit_minor t)"
    and db: "sint db = sint (balance_minor dst) + sint (destination_amount_minor t)"
    by (auto simp: balanced_posting_def)
  have "balance_of k (apply_posting now t bs es d) - balance_of k d =
      (if k = tr_source t then - sint (total_debit_minor t)
       else if k = tr_destination t then sint (destination_amount_minor t) else 0)"
    using ne src dst sb db
    by (cases "find_by acc_id k (accounts d)")
       (auto simp: balance_of_def bs find_write_balances)
  moreover have "net_entries k (account_entries d @ es) - net_entries k (account_entries d) =
      (if k = tr_source t then - sint (total_debit_minor t)
       else if k = tr_destination t then sint (destination_amount_minor t) else 0)"
    using pair ne by (auto simp: net_entries_def es entry_pair_def entry_net_def)
  ultimately show ?thesis by (simp add: opening_balance_def)
qed

text \<open>
  The money of a currency: a posting takes the debit out of the source's currency and puts the
  destination amount into the destination's.
\<close>

definition currency_total :: "string \<Rightarrow> Database \<Rightarrow> int" where
  "currency_total cur d =
     (\<Sum>r\<leftarrow>accounts d. if acc_currency r = cur then sint (balance_minor r) else 0)"

lemma sum_balance_update:
  assumes "distinct (map acc_id rows)" and "find_by acc_id k rows = Some r"
  shows "(\<Sum>x\<leftarrow>update_by acc_id k (set_balance b now) rows.
            if acc_currency x = cur then sint (balance_minor x) else 0)
       = (\<Sum>x\<leftarrow>rows. if acc_currency x = cur then sint (balance_minor x) else 0)
         + (if acc_currency r = cur then sint b - sint (balance_minor r) else 0)"
proof -
  let ?d = "\<lparr>accounts = rows, transfers = [], account_entries = [], idempotency_records = [],
      exchange_rates = [], fx_fee_rules = []\<rparr>"
  have "account_table.keys_distinct ?d" and "account_table.lookup_row k ?d = Some r"
    using assms by (simp_all add: account_table.keys_distinct_def account_table.lookup_row_def)
  from account_table.sum_update [OF this,
      of "\<lambda>x. if acc_currency x = cur then sint (balance_minor x) else 0" "set_balance b now"]
  show ?thesis by (simp add: update_account_row_def)
qed

lemma posting_currency_total:
  assumes "balanced_posting t bs es d" and keys: "distinct (map acc_id (accounts d))"
  shows "currency_total cur (apply_posting now t bs es d) = currency_total cur d
    - (if cur = tr_source_currency t then sint (total_debit_minor t) else 0)
    + (if cur = tr_destination_currency t then sint (destination_amount_minor t) else 0)"
proof -
  from assms(1) obtain sb db src dst where
    bs: "bs = [(tr_source t, sb), (tr_destination t, db)]" and ne: "tr_source t \<noteq> tr_destination t"
    and src: "find_by acc_id (tr_source t) (accounts d) = Some src"
    and dst: "find_by acc_id (tr_destination t) (accounts d) = Some dst"
    and cur: "acc_currency src = tr_source_currency t" "acc_currency dst = tr_destination_currency t"
    and sb: "sint sb = sint (balance_minor src) - sint (total_debit_minor t)"
    and db: "sint db = sint (balance_minor dst) + sint (destination_amount_minor t)"
    by (auto simp: balanced_posting_def)
  let ?rows = "update_by acc_id (tr_source t) (set_balance sb now) (accounts d)"
  have "distinct (map acc_id ?rows)" and "find_by acc_id (tr_destination t) ?rows = Some dst"
    using keys dst ne by (simp_all add: map_key_update_by find_by_update_other)
  from sum_balance_update [OF this, where b = db and now = now and cur = cur]
    sum_balance_update [OF keys src, where b = sb and now = now and cur = cur]
  show ?thesis
    using cur sb db by (simp add: currency_total_def bs write_balances_def)
qed

section \<open>An undisturbed posting\<close>

lemma update_balance_fine:
  assumes "find_by acc_id k (accounts d) = Some r" and "account_check r"
    and "sint (acc_version r) < i64_max"
  shows "update_balance k b now d =
    Inr ((), d\<lparr>accounts := update_by acc_id k (set_balance b now) (accounts d)\<rparr>)"
proof -
  note v = sint_succ_i64 [OF assms(3)]
  have "checked_add_i64 (acc_version r) 1 \<noteq> None"
    using assms(3) sint_i64_ge [of "acc_version r"] by (auto simp: checked_add_i64_None)
  moreover have "account_check (set_balance b now r)"
    using assms(2) v by (simp add: account_check_def)
  ultimately show ?thesis using assms(1) by (simp add: update_balance_def)
qed

lemma insert_entry_fine:
  assumes "entry_check e" and "en_id e \<notin> en_id ` set (account_entries d)" and "entry_refs_ok d e"
  shows "insert_entry e d = Inr ((), d\<lparr>account_entries := account_entries d @ [e]\<rparr>)"
  using assms
  by (auto simp: insert_entry_def entry_refs_ok_def find_by_None_iff)

lemma record_posting_fine:
  assumes "fates s = []" and "schema_ok (work s)" and "\<exists>d. insert_transfer t (work s) = Inr ((), d)"
    and "k1 \<noteq> k2"
    and r1: "find_by acc_id k1 (accounts (work s)) = Some r1" "sint (acc_version r1) < i64_max"
    and r2: "find_by acc_id k2 (accounts (work s)) = Some r2" "sint (acc_version r2) < i64_max"
    and es: "entry_check x" "entry_check y" "en_id x \<noteq> en_id y"
      "en_id x \<notin> en_id ` set (account_entries (work s))"
      "en_id y \<notin> en_id ` set (account_entries (work s))"
    and refs: "{en_account x, en_account y, en_counterparty x, en_counterparty y} \<subseteq> {k1, k2}"
      "en_transfer x = tr_id t" "en_transfer y = tr_id t"
  shows "record_posting now t [(k1, b1), (k2, b2)] [x, y] s =
    (Inr (), s\<lparr>work := apply_posting now t [(k1, b1), (k2, b2)] [x, y] (work s)\<rparr>)"
proof -
  let ?d1 = "(work s)\<lparr>transfers := transfers (work s) @ [t]\<rparr>"
  let ?d2 = "?d1\<lparr>accounts := update_by acc_id k1 (set_balance b1 now) (accounts ?d1)\<rparr>"
  let ?d3 = "?d2\<lparr>accounts := update_by acc_id k2 (set_balance b2 now) (accounts ?d2)\<rparr>"
  have i: "insert_transfer t (work s) = Inr ((), ?d1)"
    using assms(3) by (auto simp: insert_transfer_def split: if_splits)
  have chk: "account_check r" if "find_by acc_id k (accounts (work s)) = Some r" for k r
    using that assms(2)
    by (auto simp: schema_ok_def checks_ok_def list_all_iff dest: find_by_SomeD)
  have u1: "update_balance k1 b1 now ?d1 = Inr ((), ?d2)"
    using update_balance_fine [of k1 ?d1 r1] r1 chk [OF r1(1)] by simp
  have "find_by acc_id k2 (accounts ?d2) = Some r2"
    using r2 assms(4) by (simp add: find_by_update_other)
  then have u2: "update_balance k2 b2 now ?d2 = Inr ((), ?d3)"
    using update_balance_fine [of k2 ?d2 r2] r2 chk [OF r2(1)] by simp
  have "map acc_id (accounts ?d3) = map acc_id (accounts (work s))"
    by (simp add: map_key_update_by)
  then have keys: "acc_id ` set (accounts ?d3) = acc_id ` set (accounts (work s))"
    by (metis list.set_map)
  have "k1 \<in> acc_id ` set (accounts (work s))" "k2 \<in> acc_id ` set (accounts (work s))"
    using r1(1) r2(1) by (auto dest: find_by_key_in)
  then have "entry_refs_ok ?d3 x" "entry_refs_ok (?d3\<lparr>account_entries := account_entries ?d3 @ [x]\<rparr>) y"
    using refs keys by (auto simp: entry_refs_ok_def)
  then have e: "insert_entry x ?d3 = Inr ((), ?d3\<lparr>account_entries := account_entries ?d3 @ [x]\<rparr>)"
    "insert_entry y (?d3\<lparr>account_entries := account_entries ?d3 @ [x]\<rparr>) =
      Inr ((), ?d3\<lparr>account_entries := account_entries ?d3 @ [x, y]\<rparr>)"
    using es insert_entry_fine [of x ?d3]
      insert_entry_fine [of y "?d3\<lparr>account_entries := account_entries ?d3 @ [x]\<rparr>"] by simp_all
  show ?thesis
    using assms(1) i u1 u2 e
    by (simp add: record_posting_def tx_then_def tx_bind_def map_err_def execute_fine tx_return_def
        apply_posting_def write_balances_def)
qed

lemma find_acc_id: "find_by acc_id k rows = Some a \<Longrightarrow> acc_id a = k"
  by (drule find_by_SomeD) simp

lemma schema_account_check:
  "schema_ok d \<Longrightarrow> find_by acc_id k (accounts d) = Some r \<Longrightarrow> account_check r"
  by (auto simp: schema_ok_def checks_ok_def list_all_iff dest: find_by_SomeD)

lemma ucast_scale:
  assumes "account_check a"
  shows "unat (ucast (currency_scale a) :: u8) \<le> 38"
proof -
  have s: "0 \<le> sint (currency_scale a)" "sint (currency_scale a) \<le> 18"
    using assms by (simp_all add: account_check_def)
  then have u: "uint (currency_scale a) = sint (currency_scale a)"
    by (simp add: uint_sint take_bit_int_eq_self_iff)
  have "uint (ucast (currency_scale a) :: u8) = take_bit 8 (uint (currency_scale a))"
    by (simp add: unsigned_ucast_eq)
  also have "\<dots> = sint (currency_scale a)" using s u by (simp add: take_bit_int_eq_self_iff)
  finally have "unat (ucast (currency_scale a) :: u8) = nat (sint (currency_scale a))"
    by (metis nat_uint_eq)
  then show ?thesis using s by simp
qed

text \<open>Any balanced posting that completes its idempotency record keeps the ledger.\<close>

lemma posting_with_record:
  assumes "ledger_ok d" and "balanced_posting t bs es d" and "amounts_ok t"
    and "reversal_link_ok (transfers d) t" and "\<exists>d1. insert_transfer t d = Inr ((), d1)"
    and "record_complete r"
    and "d' = (apply_posting now t bs es d)\<lparr>idempotency_records := idempotency_records d @ [r]\<rparr>"
    and "schema_ok d'"
  shows "ledger_ok d' \<and> (\<forall>k. opening_balance k d' = opening_balance k d)"
proof -
  have "books_ok (apply_posting now t bs es d)"
    using assms(1-5) by (auto intro: posting_keeps_books dest: ledger_okD)
  then have "books_ok d'" using books_ok_cong [of d' "apply_posting now t bs es d"] by (simp add: assms(7))
  moreover have "list_all record_complete (idempotency_records d')"
    using ledger_okD(3) [OF assms(1)] assms(6) by (simp add: assms(7))
  moreover have "opening_balance k d' = opening_balance k (apply_posting now t bs es d)" for k
    by (simp add: assms(7) opening_balance_def balance_of_def)
  ultimately show ?thesis
    using assms(8) posting_opening_balance [OF assms(2)] by (simp add: ledger_ok_def)
qed

lemma record_complete_completed [simp]: "record_complete (completed_row now ret k fp st b u)"
  by (simp add: record_complete_def completed_row_def set_response_simps)

text \<open>A complete record answers, so no key is ever pending between requests.\<close>

lemma ledger_never_pending:
  assumes "ledger_ok d"
  shows "record_store.answer d k fp \<noteq> Pending"
proof
  assume p: "record_store.answer d k fp = Pending"
  then obtain r where r: "find_by idem_row_key k (idempotency_records d) = Some r"
    and none: "(case (http_status r, response_body r) of (Some s, Some b) \<Rightarrow> Some (s, b) | _ \<Rightarrow> None) = None"
    by (auto simp: record_store.answer_def stored_record_def split: option.splits if_splits)
  have "record_complete r"
    using find_by_SomeD [OF r] ledger_okD(3) [OF assms] by (simp add: list_all_iff)
  then show False using none by (auto simp: record_complete_def)
qed

definition replayed_from ::
  "Platform \<Rightarrow> Database \<Rightarrow> string \<times> string \<times> string \<Rightarrow> string \<Rightarrow> Response \<Rightarrow> bool" where
  "replayed_from P d k fp resp \<longleftrightarrow>
     (\<exists>st. record_store.answer d k fp = Replayed (st, resp_body resp)
         \<and> stored_status P st = Inr (resp_status resp))"

section \<open>The interface of an endpoint that writes the ledger\<close>

text \<open>
  \<open>commits h d d'\<close>: some run of the handler \<open>h\<close>, under some fates, takes the committed database
  from \<open>d\<close> to \<open>d'\<close>.
\<close>

definition commits :: "('e, 'a) tx \<Rightarrow> Database \<Rightarrow> Database \<Rightarrow> bool" where
  "commits h d d' \<longleftrightarrow> (\<exists>s r s'. h s = (r, s') \<and> committed s = d \<and> committed s' = d')"

locale ledger_operation =
  fixes change :: "Database \<Rightarrow> Database \<Rightarrow> bool"
  assumes keeps_ledger: "ledger_ok d \<Longrightarrow> change d d' \<Longrightarrow> ledger_ok d'"
    and appends: "ledger_ok d \<Longrightarrow> change d d' \<Longrightarrow>
      prefix (transfers d) (transfers d') \<and> prefix (account_entries d) (account_entries d')"
    and keeps_opening: "ledger_ok d \<Longrightarrow> change d d' \<Longrightarrow> find_by acc_id k (accounts d) \<noteq> None \<Longrightarrow>
      find_by acc_id k (accounts d') \<noteq> None \<and> opening_balance k d' = opening_balance k d"
begin

lemma chain_ledger: "change\<^sup>*\<^sup>* d d' \<Longrightarrow> ledger_ok d \<Longrightarrow> ledger_ok d'"
  by (induction rule: rtranclp_induct) (auto intro: keeps_ledger)

lemma chain_appends:
  "change\<^sup>*\<^sup>* d d' \<Longrightarrow> ledger_ok d \<Longrightarrow>
     prefix (transfers d) (transfers d') \<and> prefix (account_entries d) (account_entries d')"
proof (induction rule: rtranclp_induct)
  case (step d1 d2)
  then show ?case using appends [of d1 d2] chain_ledger [of d d1] by (meson prefix_order.trans)
qed simp

lemma chain_opening:
  assumes "change\<^sup>*\<^sup>* d d'" and "ledger_ok d" and "find_by acc_id k (accounts d) \<noteq> None"
  shows "find_by acc_id k (accounts d') \<noteq> None \<and> opening_balance k d' = opening_balance k d"
  using assms
proof (induction rule: rtranclp_induct)
  case (step d1 d2)
  then show ?case using keeps_opening [of d1 d2 k] chain_ledger [of d d1] by simp
qed simp

end

text \<open>What the environment owes an insert: fresh identifiers, versions that can grow.\<close>

definition fresh_ids :: "Ambient \<Rightarrow> Database \<Rightarrow> bool" where
  "fresh_ids amb d \<longleftrightarrow>
     find_by tr_id (new_v4 amb 0) (transfers d) = None
     \<and> find_by en_id (new_v4 amb 1) (account_entries d) = None
     \<and> find_by en_id (new_v4 amb 2) (account_entries d) = None \<and> new_v4 amb 1 \<noteq> new_v4 amb 2"

definition versions_ok :: "Database \<Rightarrow> bool" where
  "versions_ok d \<longleftrightarrow> list_all (\<lambda>r. sint (acc_version r) < i64_max) (accounts d)"

section \<open>A concrete ledger\<close>

text \<open>Three accounts, one exchange rate (0.25) and one default fee rule (1 percent).\<close>

definition demo_account :: "uuid \<Rightarrow> string \<Rightarrow> string \<Rightarrow> i64 \<Rightarrow> AccountRow" where
  "demo_account u owner cur balance =
     \<lparr>acc_id = u, owner_id = owner, acc_currency = cur, currency_scale = 2,
      balance_minor = balance, acc_status = Active, acc_version = 0,
      acc_created_at = 0, acc_updated_at = 0\<rparr>"

definition demo_ledger :: Database where
  "demo_ledger =
     \<lparr>accounts = [demo_account 1 ''alice'' ''PLN'' 5000, demo_account 2 ''bob'' ''PLN'' 100,
                  demo_account 3 ''carol'' ''USD'' 900],
      transfers = [], account_entries = [], idempotency_records = [],
      exchange_rates = [\<lparr>ra_id = 7, ra_source = ''PLN'', ra_destination = ''USD'',
        ra_rate = 250000000000, ra_from = 0, ra_until = 5000\<rparr>],
      fx_fee_rules = [\<lparr>fr_id = 8, fr_source = None, fr_destination = None, fr_bps = 100,
        fr_from = 0, fr_until = 5000\<rparr>]\<rparr>"

lemma demo_ledger_ok [simp]: "ledger_ok demo_ledger"
proof -
  have "nonblank ''alice''" "nonblank ''bob''" "nonblank ''carol''" by code_simp+
  moreover have "currency_code_ok ''PLN''" "currency_code_ok ''USD''" by code_simp+
  ultimately show ?thesis
    by (simp add: ledger_ok_def schema_ok_def keys_ok_def checks_ok_def refs_ok_def books_ok_def
        double_entry_def demo_ledger_def demo_account_def account_check_def rate_check_def
        fee_check_def)
qed

lemma demo_ledger_versions [simp]: "versions_ok demo_ledger"
  by (simp add: versions_ok_def demo_ledger_def demo_account_def i64_max_def)

lemma demo_ledger_fresh [simp]: "fresh_ids demo_ambient demo_ledger"
  by (simp add: fresh_ids_def demo_ledger_def demo_ambient_def)

lemma demo_retention [simp]: "retention_ok demo_state demo_ambient"
  by (simp add: retention_ok_def demo_state_def demo_ambient_def i64_max_def timestamptz_end_def)

end
