(* ===== verification/Accounts.thy ===== *)
theory Accounts
  imports Ledger_Posting
begin

text \<open>
  Component \<open>accounts\<close> (\<open>src/api/accounts.rs\<close>): account creation, idempotent under the client's
  key, and the balance of an owned account.
\<close>

record CreateAccountRequest =
  car_currency :: string
  car_initial_balance :: string

definition money_error :: "MoneyError \<Rightarrow> AppError" where
  "money_error e =
     (case e of
        Malformed \<Rightarrow> Validation ''malformed_amount'' ''The amount is malformed''
      | TooManyFractionalDigits \<Rightarrow>
          Validation ''too_many_fractional_digits''
            ''The amount has too many fractional digits for this currency''
      | Negative \<Rightarrow>
          Validation ''negative_initial_balance'' ''The initial balance cannot be negative''
      | Overflow \<Rightarrow> Validation ''amount_overflow'' ''The amount is out of range'')"

definition account_created_response :: "Platform \<Rightarrow> uuid \<Rightarrow> string \<Rightarrow> string \<Rightarrow> Value" where
  "account_created_response P u cur balance =
     to_value [(''id'', uuid_value P u), (''currency'', JString cur), (''balance'', JString balance)]"

definition new_account ::
  "timestamp \<Rightarrow> uuid \<Rightarrow> string \<Rightarrow> Currency \<Rightarrow> i64 \<Rightarrow> AccountRow" where
  "new_account now u owner cur balance =
     \<lparr>acc_id = u, owner_id = owner, acc_currency = cur_code cur,
      currency_scale = ucast (cur_scale cur), balance_minor = balance, acc_status = Active,
      acc_version = 0, acc_created_at = now, acc_updated_at = now\<rparr>"

text \<open>
  The transaction's body: the stored status and body of a replay, or the new response.
\<close>

definition create_account_body ::
  "Platform \<Rightarrow> AppState \<Rightarrow> Ambient \<Rightarrow> string \<Rightarrow> string \<Rightarrow> Currency \<Rightarrow> i64
    \<Rightarrow> (AppError, (i32 \<times> Value) + Response) tx" where
  "create_account_body P st amb client_id k cur balance =
     (let fp = account_creation_fingerprint P (cur_code cur) balance; u = new_v4 amb 0 in
      tx_bind (map_err internal_sql
          (reserve (tx_time amb) client_id ACCOUNT_CREATION_OPERATION k fp
             (idempotency_retention st))) (\<lambda>reservation.
        case reservation of
          Reservation_Replay status body \<Rightarrow> tx_return (Inl (status, body))
        | Reservation_Conflict \<Rightarrow> tx_throw IdempotencyConflict
        | Reservation_Owned \<Rightarrow>
            tx_then (run_statement (insert_account (new_account (tx_time amb) u client_id cur balance)))
           (tx_bind (format_amount balance (cur_scale cur)) (\<lambda>shown.
              let body = account_created_response P u (cur_code cur) shown in
              tx_then (map_err internal_sql
                  (store_success client_id ACCOUNT_CREATION_OPERATION k 201 body u))
                (tx_return (Inr \<lparr>resp_status = 201, resp_body = body\<rparr>))))))"

definition create_account ::
  "Platform \<Rightarrow> AppState \<Rightarrow> Ambient \<Rightarrow> string \<Rightarrow> HeaderMap \<Rightarrow> CreateAccountRequest option
    \<Rightarrow> (AppError, Response) tx" where
  "create_account P st amb client_id headers request =
     tx_bind (from_result (from_headers P headers)) (\<lambda>k.
     tx_bind (ok_or invalid_json request) (\<lambda>req.
     tx_bind (ok_or (Validation ''unsupported_currency'' ''The currency is not supported'')
         (currency (car_currency req))) (\<lambda>cur.
     tx_bind (from_result (map_sum money_error id
         (parse_initial_balance (car_initial_balance req) (cur_scale cur)))) (\<lambda>balance.
     transactional (create_account_body P st amb client_id k cur balance)
       (\<lambda>answer. case answer of
          Inl (status, body) \<Rightarrow> stored_response P status body
        | Inr response \<Rightarrow> tx_return response)))))"

definition account_balance_response :: "Platform \<Rightarrow> uuid \<Rightarrow> string \<Rightarrow> string \<Rightarrow> i64 \<Rightarrow> Value" where
  "account_balance_response P u cur balance v =
     to_value [(''id'', uuid_value P u), (''currency'', JString cur), (''balance'', JString balance),
               (''version'', JNumber (sint v))]"

definition get_balance :: "Platform \<Rightarrow> string \<Rightarrow> string \<Rightarrow> (AppError, Response) tx" where
  "get_balance P client_id account_id =
     tx_bind (ok_or malformed_account_id (parse_uuid P account_id)) (\<lambda>u.
     tx_bind (map_err internal_sql (pool_query (select_owned_account u client_id))) (\<lambda>row.
     tx_bind (ok_or NotFound row) (\<lambda>account.
     tx_bind (format_amount (balance_minor account) (ucast (currency_scale account))) (\<lambda>shown.
       tx_return \<lparr>resp_status = 200,
         resp_body = account_balance_response P u (acc_currency account) shown (acc_version account)\<rparr>))))"

section \<open>Account creation\<close>

lemma calm_create_account_body [calm_intros]:
  "calm lost (create_account_body P st amb client_id k cur balance)"
  unfolding create_account_body_def Let_def
  by (auto intro!: calm_intros split: Reservation.split)

definition account_created ::
  "Platform \<Rightarrow> AppState \<Rightarrow> Ambient \<Rightarrow> string \<Rightarrow> string \<Rightarrow> Currency \<Rightarrow> i64 \<Rightarrow> string \<Rightarrow> Database \<Rightarrow> Database" where
  "account_created P st amb client_id k cur balance shown d =
     d\<lparr>accounts := accounts d @ [new_account (tx_time amb) (new_v4 amb 0) client_id cur balance],
       idempotency_records := idempotency_records d @
         [completed_row (tx_time amb) (idempotency_retention st)
            (client_id, ACCOUNT_CREATION_OPERATION, k)
            (account_creation_fingerprint P (cur_code cur) balance) 201
            (account_created_response P (new_v4 amb 0) (cur_code cur) shown) (new_v4 amb 0)]\<rparr>"

lemma create_account_body_InrD:
  assumes "create_account_body P st amb client_id k cur balance s = (Inr x, s')"
  shows "(schema_ok (work s) \<longrightarrow> schema_ok (work s'))
    \<and> (case x of
         Inl (status, body) \<Rightarrow>
           work s' = work s
           \<and> stored_record (work s) (client_id, ACCOUNT_CREATION_OPERATION, k)
               = Some (account_creation_fingerprint P (cur_code cur) balance, Some (status, body))
       | Inr response \<Rightarrow>
           (\<exists>shown. format_minor_units balance (cur_scale cur) = Some shown
             \<and> find_by idem_row_key (client_id, ACCOUNT_CREATION_OPERATION, k)
                 (idempotency_records (work s)) = None
             \<and> find_by acc_id (new_v4 amb 0) (accounts (work s)) = None
             \<and> work s' = account_created P st amb client_id k cur balance shown (work s)
             \<and> response = \<lparr>resp_status = 201, resp_body =
                  account_created_response P (new_v4 amb 0) (cur_code cur) shown\<rparr>))"
proof -
  let ?fp = "account_creation_fingerprint P (cur_code cur) balance"
  let ?k = "(client_id, ACCOUNT_CREATION_OPERATION, k)"
  let ?now = "tx_time amb" and ?ret = "idempotency_retention st" and ?u = "new_v4 amb 0"
  from assms obtain res s1 where
    one: "reserve ?now client_id ACCOUNT_CREATION_OPERATION k ?fp ?ret s = (Inr res, s1)"
    by (auto simp: create_account_body_def Let_def tx_bind_Inr map_err_Inr)
  note r = reserve_InrD [OF one]
  show ?thesis
  proof (cases res)
    case Reservation_Owned
    with assms one obtain s2 s3 shown body where
      ins: "run_statement (insert_account (new_account ?now ?u client_id cur balance)) s1 = (Inr (), s2)"
      and shown: "format_minor_units balance (cur_scale cur) = Some shown"
      and body: "body = account_created_response P ?u (cur_code cur) shown"
      and store: "store_success client_id ACCOUNT_CREATION_OPERATION k 201 body ?u s2 = (Inr (), s3)"
      and x: "x = Inr \<lparr>resp_status = 201, resp_body = body\<rparr>" "s' = s3"
      by (auto simp: create_account_body_def Let_def tx_bind_def map_err_def tx_then_def
          format_amount_def tx_expect_def tx_return_def tx_panic_def
          split: prod.splits sum.splits option.splits)
    note i = run_statement_InrD [OF ins]
    have w2: "work s2 = (work s1)\<lparr>accounts := accounts (work s1) @ [new_account ?now ?u client_id cur balance]\<rparr>"
      "find_by acc_id ?u (accounts (work s1)) = None"
      using i by (auto simp: insert_account_def new_account_def split: if_splits)
    have w1: "work s1 = claim_record ?now ?ret ?k ?fp (work s)"
      "find_by idem_row_key ?k (idempotency_records (work s)) = None"
      "schema_ok (work s) \<longrightarrow> schema_ok (work s1)"
      using r Reservation_Owned insert_idempotency_schema by auto
    have "idempotency_records (work s2) = idempotency_records (work s) @ [reservation_row ?now ?ret ?k ?fp]"
      by (simp add: w2 w1)
    note st = store_success_InrD [OF store this w1(2)]
    show ?thesis
      using st i w1 w2 x shown body insert_account_schema
      by (auto simp: account_created_def claim_record_def insert_idempotency_row_def)
  next
    case (Reservation_Replay status body)
    then show ?thesis
      using assms one r
      by (auto simp: create_account_body_def Let_def tx_bind_def map_err_def tx_return_def)
  next
    case Reservation_Conflict
    then show ?thesis
      using assms one by (auto simp: create_account_body_def Let_def tx_bind_def map_err_def tx_throw_def)
  qed
qed

text \<open>What a run of \<open>create_account\<close> can commit, under any fates.\<close>

definition account_request_ok ::
  "Platform \<Rightarrow> HeaderMap \<Rightarrow> CreateAccountRequest option \<Rightarrow> string \<Rightarrow> Currency \<Rightarrow> i64 \<Rightarrow> bool" where
  "account_request_ok P headers request k cur balance \<longleftrightarrow>
     from_headers P headers = Inr k
     \<and> (case request of
          None \<Rightarrow> False
        | Some req \<Rightarrow> currency (car_currency req) = Some cur
            \<and> parse_initial_balance (car_initial_balance req) (cur_scale cur) = Inr balance)"

lemma map_sum_id_eq: "map_sum f id x = Inr y \<longleftrightarrow> x = Inr y"
  by (cases x) auto

lemma account_request_unique:
  assumes "account_request_ok P headers request k cur balance"
    and "account_request_ok P headers request k' cur' balance'"
  shows "k' = k \<and> cur' = cur \<and> balance' = balance"
  using assms by (auto simp: account_request_ok_def split: option.splits)

lemma create_account_unfold:
  assumes "account_request_ok P headers request k cur balance"
  shows "create_account P st amb client_id headers request =
    transactional (create_account_body P st amb client_id k cur balance)
       (\<lambda>answer. case answer of
          Inl (status, body) \<Rightarrow> stored_response P status body
        | Inr response \<Rightarrow> tx_return response)"
  using assms
  by (auto simp: account_request_ok_def create_account_def tx_bind_def from_result_def ok_or_def
      tx_return_def fun_eq_iff split: option.splits)

lemma create_account_invalid:
  assumes "\<nexists>k cur balance. account_request_ok P headers request k cur balance"
  shows "\<exists>e. create_account P st amb client_id headers request s = (Inl (Fail e), s)"
  using assms
  by (auto simp: account_request_ok_def create_account_def tx_bind_def from_result_def ok_or_def
      tx_return_def tx_throw_def split: sum.splits option.splits)
    (metis Inl_Inr_False map_sum_id_eq old.sum.exhaust)+

lemma create_account_cases:
  assumes run: "create_account P st amb client_id headers request s = (r, s')"
  shows "(committed s' = committed s
           \<and> (\<forall>resp. r = Inr resp \<longrightarrow> (\<exists>k cur balance status.
                account_request_ok P headers request k cur balance
                \<and> record_store.answer (committed s) (client_id, ACCOUNT_CREATION_OPERATION, k)
                    (account_creation_fingerprint P (cur_code cur) balance)
                  = Replayed (status, resp_body resp)
                \<and> stored_status P status = Inr (resp_status resp))))
    \<or> (\<exists>k cur balance shown.
         account_request_ok P headers request k cur balance
         \<and> format_minor_units balance (cur_scale cur) = Some shown
         \<and> find_by idem_row_key (client_id, ACCOUNT_CREATION_OPERATION, k)
             (idempotency_records (committed s)) = None
         \<and> find_by acc_id (new_v4 amb 0) (accounts (committed s)) = None
         \<and> committed s' = account_created P st amb client_id k cur balance shown (committed s)
         \<and> (schema_ok (committed s) \<longrightarrow> schema_ok (committed s'))
         \<and> (\<forall>resp. r = Inr resp \<longrightarrow> resp = \<lparr>resp_status = 201, resp_body =
               account_created_response P (new_v4 amb 0) (cur_code cur) shown\<rparr>))"
proof (cases "\<exists>k cur balance. account_request_ok P headers request k cur balance")
  case False
  then show ?thesis using create_account_invalid [of P headers request st amb client_id s] run by auto
next
  case True
  then obtain k cur balance where ok: "account_request_ok P headers request k cur balance" by blast
  define answer where "answer = (\<lambda>x. case x of
      Inl (status, body) \<Rightarrow> stored_response P status body | Inr response \<Rightarrow> tx_return response)"
  have quiet: "committed s2 = committed s1" if "answer x s1 = (r2, s2)" for x s1 r2 s2
    using that
    by (auto simp: answer_def stored_response_def tx_bind_def from_result_def tx_return_def
        tx_throw_def split: sum.splits prod.splits)
  have "(committed s' = committed s \<and> (\<forall>y. r \<noteq> Inr y))
    \<or> (\<exists>x sw. create_account_body P st amb client_id k cur balance
          (s\<lparr>work := committed s, fates := []\<rparr>) = (Inr x, sw) \<and> committed s' = work sw
        \<and> (\<forall>y. r = Inr y \<longrightarrow> (\<exists>s1 s2. answer x s1 = (Inr y, s2))))"
    by (rule transactional_cases [OF calm_create_account_body])
       (erule quiet, rule run [unfolded create_account_unfold [OF ok], folded answer_def])
  then consider (unchanged) "committed s' = committed s" "\<forall>resp. r \<noteq> Inr resp"
    | (finished) x sw where
        "create_account_body P st amb client_id k cur balance
           (s\<lparr>work := committed s, fates := []\<rparr>) = (Inr x, sw)"
        "committed s' = work sw"
        "\<forall>y. r = Inr y \<longrightarrow> (\<exists>s1 s2. answer x s1 = (Inr y, s2))"
    by blast
  then show ?thesis
  proof cases
    case unchanged
    then show ?thesis by simp
  next
    case finished
    note b = create_account_body_InrD [OF finished(1)]
    show ?thesis
    proof (cases x)
      case (Inl p)
      obtain status body where p: "p = (status, body)" by (cases p)
      have "committed s' = committed s" using b finished(2) by (simp add: Inl p)
      moreover have "stored_status P status = Inr (resp_status resp) \<and> resp_body resp = body"
        if "r = Inr resp" for resp
        using finished(3) that by (auto simp: answer_def Inl p stored_response_Inr)
      ultimately show ?thesis
        using b ok by (auto simp: Inl p answer_Replayed_iff)
    next
      case (Inr resp)
      then obtain shown where
        "format_minor_units balance (cur_scale cur) = Some shown"
        "find_by idem_row_key (client_id, ACCOUNT_CREATION_OPERATION, k)
           (idempotency_records (committed s)) = None"
        "find_by acc_id (new_v4 amb 0) (accounts (committed s)) = None"
        "work sw = account_created P st amb client_id k cur balance shown (committed s)"
        "schema_ok (committed s) \<longrightarrow> schema_ok (work sw)"
        "resp = \<lparr>resp_status = 201, resp_body =
           account_created_response P (new_v4 amb 0) (cur_code cur) shown\<rparr>"
        using b by auto
      then show ?thesis
        using ok finished(2,3) Inr
        by (intro disjI2 exI [of _ k] exI [of _ cur] exI [of _ balance] exI [of _ shown])
           (simp add: answer_def tx_return_Inr)
    qed
  qed
qed

section \<open>The ledger across account creation\<close>

lemma account_created_simps [simp]:
  "accounts (account_created P st amb c k cur balance shown d) =
     accounts d @ [new_account (tx_time amb) (new_v4 amb 0) c cur balance]"
  "transfers (account_created P st amb c k cur balance shown d) = transfers d"
  "account_entries (account_created P st amb c k cur balance shown d) = account_entries d"
  "exchange_rates (account_created P st amb c k cur balance shown d) = exchange_rates d"
  "fx_fee_rules (account_created P st amb c k cur balance shown d) = fx_fee_rules d"
  by (simp_all add: account_created_def)

lemma new_account_id [simp]: "acc_id (new_account now u c cur balance) = u"
  by (simp add: new_account_def)

lemma account_created_keeps_ledger:
  assumes "ledger_ok d" and "schema_ok (account_created P st amb c k cur balance shown d)"
    and "find_by acc_id (new_v4 amb 0) (accounts d) = None"
  shows "ledger_ok (account_created P st amb c k cur balance shown d)"
proof -
  let ?d = "account_created P st amb c k cur balance shown d"
  have "currencies_ok ?d t" if "currencies_ok d t" for t
    using that by (auto simp: currencies_ok_def account_currency_def find_by_append)
  then have "books_ok ?d"
    using ledger_okD(2) [OF assms(1)]
    by (auto simp: books_ok_def double_entry_def list_all_iff)
  moreover have "list_all record_complete (idempotency_records ?d)"
    using ledger_okD(3) [OF assms(1)]
    by (simp add: account_created_def record_complete_def completed_row_def set_response_simps)
  ultimately show ?thesis using assms(2) by (simp add: ledger_ok_def)
qed

lemma account_created_opening:
  assumes "find_by acc_id a (accounts d) \<noteq> None"
  shows "opening_balance a (account_created P st amb c k cur balance shown d) = opening_balance a d"
  using assms by (auto simp: opening_balance_def balance_of_def find_by_append)

lemma net_entries_absent:
  assumes "list_all (entry_refs_ok d) (account_entries d)" and "a \<notin> acc_id ` set (accounts d)"
  shows "net_entries a (account_entries d) = 0"
proof -
  have "(if en_account e = a then entry_net e else 0) = 0" if "e \<in> set (account_entries d)" for e
    using assms that unfolding list_all_iff entry_refs_ok_def by metis
  then have "map (\<lambda>e. if en_account e = a then entry_net e else 0) (account_entries d)
      = map (\<lambda>_. 0) (account_entries d)"
    by (intro map_cong) auto
  then show ?thesis by (simp only: net_entries_def) simp
qed

definition account_creation_change :: "Database \<Rightarrow> Database \<Rightarrow> bool" where
  "account_creation_change d d' \<longleftrightarrow>
     (\<exists>P st amb c headers request. commits (create_account P st amb c headers request) d d')"

lemma account_creation_changeE:
  assumes "account_creation_change d d'"
  obtains "d' = d"
  | P st amb c k cur balance shown where
      "d' = account_created P st amb c k cur balance shown d"
      "find_by acc_id (new_v4 amb 0) (accounts d) = None"
      "schema_ok d \<longrightarrow> schema_ok d'"
  using assms create_account_cases unfolding account_creation_change_def commits_def by metis

interpretation account_creation: ledger_operation account_creation_change
proof
  fix d d' k
  assume change: "account_creation_change d d'"
  show "ledger_ok d \<Longrightarrow> ledger_ok d'"
    by (rule account_creation_changeE [OF change])
       (auto intro: account_created_keeps_ledger dest: ledger_okD(1))
  show "prefix (transfers d) (transfers d') \<and> prefix (account_entries d) (account_entries d')"
    by (rule account_creation_changeE [OF change]) auto
  show "find_by acc_id k (accounts d') \<noteq> None \<and> opening_balance k d' = opening_balance k d"
    if "find_by acc_id k (accounts d) \<noteq> None"
    by (rule account_creation_changeE [OF change])
       (use that account_created_opening in \<open>auto simp: find_by_append\<close>)
qed

section \<open>Undisturbed account creation\<close>

lemma currencies_check:
  assumes "cur \<in> set CURRENCIES"
  shows "currency_code_ok (cur_code cur)" and "unat (cur_scale cur) \<le> 2"
    and "0 \<le> sint (ucast (cur_scale cur) :: i16)" and "sint (ucast (cur_scale cur) :: i16) \<le> 18"
  using assms by (auto simp: CURRENCIES_def currency_code_ok_def)

lemma create_account_body_fresh:
  assumes "fates s = []" and "platform_ok P" and "nonblank c" and "valid_key k"
    and "retention_ok st amb" and "cur \<in> set CURRENCIES"
    and "find_by idem_row_key (c, ACCOUNT_CREATION_OPERATION, k) (idempotency_records (work s)) = None"
    and "find_by acc_id (new_v4 amb 0) (accounts (work s)) = None"
    and "format_minor_units balance (cur_scale cur) = Some shown"
  shows "create_account_body P st amb c k cur balance s =
    (Inr (Inr \<lparr>resp_status = 201, resp_body =
        account_created_response P (new_v4 amb 0) (cur_code cur) shown\<rparr>),
     s\<lparr>work := account_created P st amb c k cur balance shown (work s)\<rparr>)"
proof -
  let ?fp = "account_creation_fingerprint P (cur_code cur) balance"
  let ?k = "(c, ACCOUNT_CREATION_OPERATION, k)"
  let ?d1 = "claim_record (tx_time amb) (idempotency_retention st) ?k ?fp (work s)"
  let ?acc = "new_account (tx_time amb) (new_v4 amb 0) c cur balance"
  have chk: "idempotency_check (reservation_row (tx_time amb) (idempotency_retention st) ?k ?fp)"
    unfolding account_creation_fingerprint_def using assms by (intro reservation_check) simp_all
  have ret: "uint (idempotency_retention st) \<le> i64_max"
    "tx_time amb + uint (idempotency_retention st) * 1000000 < timestamptz_end"
    using assms(5) by (simp_all add: retention_ok_def)
  note owned = reserve_fresh [OF assms(1) ret chk assms(7)]
  have "account_check ?acc"
    using assms(3) currencies_check [OF assms(6)] by (simp add: account_check_def new_account_def)
  then have ins: "insert_account ?acc ?d1 = Inr ((), ?d1\<lparr>accounts := accounts ?d1 @ [?acc]\<rparr>)"
    using assms(8) by (simp add: insert_account_def)
  have "idempotency_check (completed_row (tx_time amb) (idempotency_retention st) ?k ?fp 201 b u)" for b u
    using chk by (rule completed_check) simp_all
  note store = store_success_fine [OF _ _ assms(7) this]
  show ?thesis
    using assms(1,9) ins
    by (simp add: create_account_body_def Let_def tx_bind_def tx_then_def map_err_def owned
        execute_fine format_amount_def tx_expect_def tx_return_def store account_created_def
        claim_record_def insert_idempotency_row_def)
qed

lemma create_account_fresh:
  assumes "fates s = []" and "platform_ok P" and "nonblank c" and "retention_ok st amb"
    and "account_request_ok P headers request k cur balance"
    and "find_by idem_row_key (c, ACCOUNT_CREATION_OPERATION, k)
           (idempotency_records (committed s)) = None"
    and "find_by acc_id (new_v4 amb 0) (accounts (committed s)) = None"
  shows "\<exists>shown s'. format_minor_units balance (cur_scale cur) = Some shown
    \<and> create_account P st amb c headers request s =
        (Inr \<lparr>resp_status = 201, resp_body =
            account_created_response P (new_v4 amb 0) (cur_code cur) shown\<rparr>, s')
    \<and> committed s' = account_created P st amb c k cur balance shown (committed s)"
proof -
  have cur: "cur \<in> set CURRENCIES" and k: "valid_key k"
    using assms(5)
    by (auto simp: account_request_ok_def from_headers_valid currency_in_list split: option.splits)
  obtain shown where shown: "format_minor_units balance (cur_scale cur) = Some shown"
    using format_minor_units_total [of "cur_scale cur" balance] currencies_check(2) [OF cur] by auto
  let ?d = "account_created P st amb c k cur balance shown (committed s)"
  let ?resp = "\<lparr>resp_status = 201, resp_body =
      account_created_response P (new_v4 amb 0) (cur_code cur) shown\<rparr>"
  have body: "create_account_body P st amb c k cur balance (s\<lparr>work := committed s\<rparr>)
      = (Inr (Inr ?resp), s\<lparr>work := ?d\<rparr>)"
    using create_account_body_fresh [of "s\<lparr>work := committed s\<rparr>" P c k st amb cur balance shown]
      assms cur k shown by simp
  show ?thesis
    using assms(1) shown
    by (simp add: create_account_unfold [OF assms(5)]
        transactional_fine [where s = s and body = "create_account_body P st amb c k cur balance",
          OF assms(1) body] tx_return_def)
qed

section \<open>Properties\<close>

text \<open>
  C23: An account creation with a valid key, a supported currency and a non-negative balance in
  range, on a database that has neither the key nor the fresh identifier, undisturbed, commits
  exactly the new account (active, version 0, owned by the caller, with the parsed balance)
  together with the completed idempotency record, and answers 201 with its identifier, currency
  and balance.
\<close>

theorem create_account_succeeds:
  assumes "fates s = []" and "platform_ok P" and "nonblank c" and "retention_ok st amb"
    and "account_request_ok P headers request k cur balance"
    and "find_by idem_row_key (c, ACCOUNT_CREATION_OPERATION, k)
           (idempotency_records (committed s)) = None"
    and "find_by acc_id (new_v4 amb 0) (accounts (committed s)) = None"
  shows "\<exists>shown s'. format_minor_units balance (cur_scale cur) = Some shown
    \<and> create_account P st amb c headers request s =
        (Inr \<lparr>resp_status = 201, resp_body =
            account_created_response P (new_v4 amb 0) (cur_code cur) shown\<rparr>, s')
    \<and> committed s' = account_created P st amb c k cur balance shown (committed s)"
  using assms by (rule create_account_fresh)

theorem create_account_succeeds_witness:
  "\<exists>shown s'. format_minor_units 1025 2 = Some shown
     \<and> create_account demo_platform demo_state demo_ambient ''alice'' demo_headers
         (Some \<lparr>car_currency = '' pln'', car_initial_balance = ''10.25''\<rparr>)
         (demo_session \<lparr>accounts = [], transfers = [], account_entries = [],
            idempotency_records = [], exchange_rates = [], fx_fee_rules = []\<rparr>)
       = (Inr \<lparr>resp_status = 201, resp_body =
            account_created_response demo_platform 100 ''PLN'' shown\<rparr>, s')
     \<and> map acc_id (accounts (committed s')) = [100]
     \<and> map balance_minor (accounts (committed s')) = [1025]"
proof -
  let ?d = "\<lparr>accounts = [], transfers = [], account_entries = [],
            idempotency_records = [], exchange_rates = [], fx_fee_rules = []\<rparr>"
  let ?cur = "\<lparr>cur_code = ''PLN'', cur_scale = 2\<rparr>"
  have "account_request_ok demo_platform demo_headers
      (Some \<lparr>car_currency = '' pln'', car_initial_balance = ''10.25''\<rparr>) ''k1'' ?cur 1025"
    by code_simp
  moreover have "nonblank ''alice''" and "retention_ok demo_state demo_ambient" by code_simp+
  ultimately show ?thesis
    using create_account_succeeds [of "demo_session ?d" demo_platform "''alice''" demo_state
        demo_ambient demo_headers "Some \<lparr>car_currency = '' pln'', car_initial_balance = ''10.25''\<rparr>"
        "''k1''" ?cur 1025]
    by (auto simp: demo_session_def demo_ambient_def new_account_def)
qed

lemma create_account_done:
  assumes "fates s = []" and "platform_ok P" and "nonblank c" and "retention_ok st amb"
    and "account_request_ok P headers request k cur balance"
    and "stored_record (committed s) (c, ACCOUNT_CREATION_OPERATION, k) = Some (fp, Some (st', b))"
  shows "committed (snd (create_account P st amb c headers request s)) = committed s
    \<and> fst (create_account P st amb c headers request s) =
        (if fp \<noteq> account_creation_fingerprint P (cur_code cur) balance then Inl (Fail IdempotencyConflict)
         else case stored_status P st' of
           Inl e \<Rightarrow> Inl (Fail e) | Inr n \<Rightarrow> Inr \<lparr>resp_status = n, resp_body = b\<rparr>)"
proof -
  let ?fp = "account_creation_fingerprint P (cur_code cur) balance"
  have k: "valid_key k" using assms(5) by (auto simp: account_request_ok_def intro: from_headers_valid)
  have "idempotency_check (reservation_row (tx_time amb) (idempotency_retention st)
      (c, ACCOUNT_CREATION_OPERATION, k) ?fp)"
    unfolding account_creation_fingerprint_def using assms k by (intro reservation_check) simp_all
  then have res: "reserve (tx_time amb) c ACCOUNT_CREATION_OPERATION k ?fp (idempotency_retention st)
      (s\<lparr>work := committed s\<rparr>)
      = (Inr (if fp \<noteq> ?fp then Reservation_Conflict else Reservation_Replay st' b),
         s\<lparr>work := committed s\<rparr>)"
    using assms(1,4,6) by (intro reserve_done) (simp_all add: retention_ok_def)
  have body: "create_account_body P st amb c k cur balance (s\<lparr>work := committed s\<rparr>)
      = ((if fp \<noteq> ?fp then Inl (Fail IdempotencyConflict) else Inr (Inl (st', b))),
         s\<lparr>work := committed s\<rparr>)"
    using res
    by (simp add: create_account_body_def Let_def tx_bind_def map_err_def map_fault_def
        tx_throw_def tx_return_def)
  show ?thesis
    using assms(1)
    by (simp add: create_account_unfold [OF assms(5)]
        transactional_fine [where s = s and body = "create_account_body P st amb c k cur balance",
          OF assms(1) body] stored_response_def tx_bind_def from_result_def tx_return_def
        tx_throw_def drop_transaction_def split: sum.splits)
qed

text \<open>
  C22: Account creation happens at most once per key, whatever interrupts the first attempt: if
  that attempt changed the database at all, even though its caller saw an error or nothing, a
  later undisturbed attempt with the same key and request changes nothing and answers 201 with
  the body of the account that was created (the same answer the first attempt gave, if it gave
  one); an attempt with that key and a request of another fingerprint is a conflict and changes
  nothing.
\<close>

theorem create_account_exactly_once:
  assumes "platform_ok P" and "nonblank c" and "retention_ok st amb'"
    and "create_account P st amb c headers request s = (r, s')"
    and "committed s' \<noteq> committed s"
    and "fates s2 = []" and "committed s2 = committed s'"
  shows "\<exists>resp. resp_status resp = 201
    \<and> (\<forall>x. r = Inr x \<longrightarrow> x = resp)
    \<and> fst (create_account P st amb' c headers request s2) = Inr resp
    \<and> committed (snd (create_account P st amb' c headers request s2)) = committed s'
    \<and> (\<forall>headers' request' k cur balance cur' balance'.
         account_request_ok P headers request k cur balance
         \<and> account_request_ok P headers' request' k cur' balance'
         \<and> account_creation_fingerprint P (cur_code cur') balance'
             \<noteq> account_creation_fingerprint P (cur_code cur) balance
         \<longrightarrow> fst (create_account P st amb' c headers' request' s2) = Inl (Fail IdempotencyConflict)
           \<and> committed (snd (create_account P st amb' c headers' request' s2)) = committed s')"
proof -
  from create_account_cases [OF assms(4)] assms(5) obtain k cur balance shown where
    ok: "account_request_ok P headers request k cur balance" and
    absent: "find_by idem_row_key (c, ACCOUNT_CREATION_OPERATION, k)
      (idempotency_records (committed s)) = None" and
    eff: "committed s' = account_created P st amb c k cur balance shown (committed s)" and
    resp: "\<forall>resp. r = Inr resp \<longrightarrow> resp = \<lparr>resp_status = 201, resp_body =
       account_created_response P (new_v4 amb 0) (cur_code cur) shown\<rparr>"
    by blast
  let ?b = "account_created_response P (new_v4 amb 0) (cur_code cur) shown"
  have "record_store.answer (committed s') (c, ACCOUNT_CREATION_OPERATION, k)
      (account_creation_fingerprint P (cur_code cur) balance) = Replayed (201, ?b)"
    by (rule completed_answers(1) [OF absent]) (simp add: eff account_created_def)
  then have stored: "stored_record (committed s2) (c, ACCOUNT_CREATION_OPERATION, k)
      = Some (account_creation_fingerprint P (cur_code cur) balance, Some (201, ?b))"
    by (simp add: assms(7) answer_Replayed_iff)
  have st: "stored_status P 201 = Inr 201" using stored_status_2xx [OF assms(1), of 201] by simp
  note again = create_account_done [OF assms(6,1,2,3) _ stored]
  have same: "fst (create_account P st amb' c headers request s2) = Inr \<lparr>resp_status = 201, resp_body = ?b\<rparr>"
    "committed (snd (create_account P st amb' c headers request s2)) = committed s'"
    using again [OF ok] st by (simp_all add: assms(7))
  have other: "fst (create_account P st amb' c headers' request' s2) = Inl (Fail IdempotencyConflict)
      \<and> committed (snd (create_account P st amb' c headers' request' s2)) = committed s'"
    if "account_request_ok P headers request k1 cur1 balance1"
      "account_request_ok P headers' request' k1 cur' balance'"
      "account_creation_fingerprint P (cur_code cur') balance'
         \<noteq> account_creation_fingerprint P (cur_code cur1) balance1"
    for headers' request' k1 cur1 balance1 cur' balance'
  proof -
    have "k1 = k" "cur1 = cur" "balance1 = balance"
      using account_request_unique [OF ok that(1)] by simp_all
    with again [of headers' request' cur' balance'] that show ?thesis by (simp add: assms(7))
  qed
  show ?thesis
    by (rule exI [of _ "\<lparr>resp_status = 201, resp_body = ?b\<rparr>"])
       (use same other resp in auto)
qed

definition empty_database :: Database where
  "empty_database = \<lparr>accounts = [], transfers = [], account_entries = [],
     idempotency_records = [], exchange_rates = [], fx_fee_rules = []\<rparr>"

definition demo_account_request :: "CreateAccountRequest option" where
  "demo_account_request = Some \<lparr>car_currency = ''PLN'', car_initial_balance = ''10.25''\<rparr>"

theorem create_account_exactly_once_witness:
  "\<exists>r s' resp. create_account demo_platform demo_state demo_ambient ''alice'' demo_headers
         demo_account_request (demo_session empty_database) = (r, s')
     \<and> committed s' \<noteq> empty_database
     \<and> fst (create_account demo_platform demo_state demo_ambient ''alice'' demo_headers
         demo_account_request (demo_session (committed s'))) = Inr resp
     \<and> resp_status resp = 201"
proof -
  let ?run = "create_account demo_platform demo_state demo_ambient ''alice'' demo_headers
      demo_account_request"
  have req: "nonblank ''alice''" "retention_ok demo_state demo_ambient" by code_simp+
  have "account_request_ok demo_platform demo_headers demo_account_request ''k1''
      \<lparr>cur_code = ''PLN'', cur_scale = 2\<rparr> 1025" by code_simp
  from create_account_fresh [OF _ demo_platform_ok req this, of "demo_session empty_database"]
  obtain r s' shown where run: "?run (demo_session empty_database) = (r, s')" and
    "committed s' = account_created demo_platform demo_state demo_ambient ''alice'' ''k1''
       \<lparr>cur_code = ''PLN'', cur_scale = 2\<rparr> 1025 shown empty_database"
    by (auto simp: demo_session_def empty_database_def)
  then have ne: "committed s' \<noteq> committed (demo_session empty_database)"
    by (auto simp: account_created_def demo_session_def empty_database_def)
  have "fates (demo_session (committed s')) = []"
    "committed (demo_session (committed s')) = committed s'"
    by (simp_all add: demo_session_def)
  from create_account_exactly_once [OF demo_platform_ok req run ne this]
  obtain resp where "resp_status resp = 201"
    and "fst (?run (demo_session (committed s'))) = Inr resp"
    by blast
  with run ne show ?thesis by (auto simp: demo_session_def)
qed

end
