(* ===== verification/Fx_Configuration.thy ===== *)
theory Fx_Configuration
  imports Platform "HOL-Library.Product_Lexorder"
begin

text \<open>
  Component \<open>fx\<close>, configuration half (\<open>src/fx.rs\<close>): the selection of the applicable exchange
  rate and fee rule.  Both queries ask for at most two rows, so that more than one applicable
  row is noticed and refused.
\<close>

record ExchangeRate =
  er_id :: uuid
  er_source_currency :: string
  er_destination_currency :: string
  er_rate :: string

record FeeRule =
  fee_rule_id :: uuid
  fee_bps :: i32

datatype ConfigurationError =
    RateUnavailable | RateAmbiguous | FeeRuleUnavailable | FeeRuleAmbiguous
  | ConfigurationDatabase SqlError

definition valid_at :: "timestamp \<Rightarrow> timestamp \<Rightarrow> timestamp \<Rightarrow> bool" where
  "valid_at since until t \<longleftrightarrow> since \<le> t \<and> t < until"

definition rate_applies :: "string \<Rightarrow> string \<Rightarrow> timestamp \<Rightarrow> RateRow \<Rightarrow> bool" where
  "rate_applies src dst t r \<longleftrightarrow>
     ra_source r = src \<and> ra_destination r = dst \<and> valid_at (ra_from r) (ra_until r) t"

definition rate_columns :: "RateRow \<Rightarrow> ExchangeRate" where
  "rate_columns r =
     \<lparr>er_id = ra_id r, er_source_currency = ra_source r,
      er_destination_currency = ra_destination r, er_rate = numeric_text (ra_rate r)\<rparr>"

definition select_rates :: "string \<Rightarrow> string \<Rightarrow> timestamp \<Rightarrow> ExchangeRate list statement" where
  "select_rates src dst t d =
     Inr (map rate_columns
            (take 2 (sort_key (\<lambda>r. (ra_from r, unat (ra_id r)))
               (filter (rate_applies src dst t) (exchange_rates d)))), d)"

definition select_exchange_rate ::
  "string \<Rightarrow> string \<Rightarrow> timestamp \<Rightarrow> (ConfigurationError, ExchangeRate) tx" where
  "select_exchange_rate src dst t =
     tx_bind (map_err ConfigurationDatabase (execute (select_rates src dst t))) (\<lambda>rows.
       case rows of
         [] \<Rightarrow> tx_throw RateUnavailable
       | [rate] \<Rightarrow> tx_return rate
       | _ \<Rightarrow> tx_throw RateAmbiguous)"

definition pair_fee_applies :: "string \<Rightarrow> string \<Rightarrow> timestamp \<Rightarrow> FeeRow \<Rightarrow> bool" where
  "pair_fee_applies src dst t r \<longleftrightarrow>
     fr_source r = Some src \<and> fr_destination r = Some dst \<and> valid_at (fr_from r) (fr_until r) t"

definition default_fee_applies :: "timestamp \<Rightarrow> FeeRow \<Rightarrow> bool" where
  "default_fee_applies t r \<longleftrightarrow>
     fr_source r = None \<and> fr_destination r = None \<and> valid_at (fr_from r) (fr_until r) t"

definition fee_columns :: "FeeRow \<Rightarrow> FeeRule" where
  "fee_columns r = \<lparr>fee_rule_id = fr_id r, fee_bps = fr_bps r\<rparr>"

definition select_fees :: "(FeeRow \<Rightarrow> bool) \<Rightarrow> FeeRule list statement" where
  "select_fees applies d =
     Inr (map fee_columns
            (take 2 (sort_key (\<lambda>r. (fr_from r, unat (fr_id r)))
               (filter applies (fx_fee_rules d)))), d)"

definition pair_fee_rows ::
  "string \<Rightarrow> string \<Rightarrow> timestamp \<Rightarrow> (ConfigurationError, FeeRule list) tx" where
  "pair_fee_rows src dst t =
     map_err ConfigurationDatabase (execute (select_fees (pair_fee_applies src dst t)))"

definition default_fee_rows :: "timestamp \<Rightarrow> (ConfigurationError, FeeRule list) tx" where
  "default_fee_rows t = map_err ConfigurationDatabase (execute (select_fees (default_fee_applies t)))"

definition select_fee_rule ::
  "string \<Rightarrow> string \<Rightarrow> timestamp \<Rightarrow> (ConfigurationError, FeeRule) tx" where
  "select_fee_rule src dst t =
     tx_bind (pair_fee_rows src dst t) (\<lambda>pair.
       case pair of
         [rule] \<Rightarrow> tx_return rule
       | _ # _ \<Rightarrow> tx_throw FeeRuleAmbiguous
       | [] \<Rightarrow>
           tx_bind (default_fee_rows t) (\<lambda>defaults.
             case defaults of
               [] \<Rightarrow> tx_throw FeeRuleUnavailable
             | [rule] \<Rightarrow> tx_return rule
             | _ \<Rightarrow> tx_throw FeeRuleAmbiguous))"

section \<open>Reference: the unique applicable row\<close>

text \<open>The choice from all applicable rows, with no ordering and no limit.\<close>

definition unique_row :: "'e \<Rightarrow> 'e \<Rightarrow> ('r \<Rightarrow> 'a) \<Rightarrow> 'r list \<Rightarrow> 'e + 'a" where
  "unique_row none many f rows =
     (case rows of [] \<Rightarrow> Inl none | [r] \<Rightarrow> Inr (f r) | _ \<Rightarrow> Inl many)"

definition chosen_rate :: "string \<Rightarrow> string \<Rightarrow> timestamp \<Rightarrow> Database \<Rightarrow> ConfigurationError + ExchangeRate" where
  "chosen_rate src dst t d =
     unique_row RateUnavailable RateAmbiguous rate_columns
       (filter (rate_applies src dst t) (exchange_rates d))"

definition chosen_fee :: "string \<Rightarrow> string \<Rightarrow> timestamp \<Rightarrow> Database \<Rightarrow> ConfigurationError + FeeRule" where
  "chosen_fee src dst t d =
     (let pair = filter (pair_fee_applies src dst t) (fx_fee_rules d) in
      if pair \<noteq> [] then unique_row FeeRuleUnavailable FeeRuleAmbiguous fee_columns pair
      else unique_row FeeRuleUnavailable FeeRuleAmbiguous fee_columns
             (filter (default_fee_applies t) (fx_fee_rules d)))"

lemma two_rows_decide:
  "(case map f (take 2 (sort_key k rows)) of [] \<Rightarrow> Inl none | [r] \<Rightarrow> Inr r | _ \<Rightarrow> Inl many)
     = unique_row none many f rows"
proof (cases rows)
  case (Cons a rest)
  show ?thesis
  proof (cases rest)
    case Nil
    then show ?thesis using Cons by (simp add: unique_row_def)
  next
    case (Cons b more)
    have "length (sort_key k rows) = length rows" by simp
    then obtain x y zs where "sort_key k rows = x # y # zs"
      using Cons \<open>rows = a # rest\<close> by (metis length_Suc_conv length_Cons)
    then show ?thesis using Cons \<open>rows = a # rest\<close> by (simp add: unique_row_def)
  qed
qed (simp add: unique_row_def)

lemma case_rows_distrib:
  "(case rows of [] \<Rightarrow> tx_throw none | [r] \<Rightarrow> tx_return r | _ \<Rightarrow> tx_throw many)
     = from_result (case rows of [] \<Rightarrow> Inl none | [r] \<Rightarrow> Inr r | _ \<Rightarrow> Inl many)"
  by (simp add: from_result_def split: list.splits)

lemma select_exchange_rate_fine:
  assumes "fates s = []"
  shows "select_exchange_rate src dst t s = from_result (chosen_rate src dst t (work s)) s"
  using assms two_rows_decide [where f = rate_columns and k = "\<lambda>r. (ra_from r, unat (ra_id r))"
      and rows = "filter (rate_applies src dst t) (exchange_rates (work s))"
      and none = RateUnavailable and many = RateAmbiguous]
  by (simp add: select_exchange_rate_def case_rows_distrib chosen_rate_def tx_bind_def
      map_err_def execute_fine select_rates_def)

lemma select_fee_rule_fine:
  assumes "fates s = []"
  shows "select_fee_rule src dst t s = from_result (chosen_fee src dst t (work s)) s"
proof -
  let ?pair = "filter (pair_fee_applies src dst t) (fx_fee_rules (work s))"
  let ?key = "\<lambda>r. (fr_from r, unat (fr_id r))"
  note decide = two_rows_decide [where f = fee_columns and k = ?key
      and none = FeeRuleUnavailable and many = FeeRuleAmbiguous]
  have pair: "pair_fee_rows src dst t s = (Inr (map fee_columns (take 2 (sort_key ?key ?pair))), s)"
    and dflt: "default_fee_rows t s = (Inr (map fee_columns (take 2 (sort_key ?key
        (filter (default_fee_applies t) (fx_fee_rules (work s)))))), s)"
    using assms by (simp_all add: pair_fee_rows_def default_fee_rows_def map_err_def execute_fine
        select_fees_def)
  show ?thesis
  proof (cases ?pair)
    case Nil
    then show ?thesis
      using decide [where rows = "filter (default_fee_applies t) (fx_fee_rules (work s))"]
      by (simp add: select_fee_rule_def tx_bind_def pair dflt chosen_fee_def case_rows_distrib)
  next
    case (Cons a rest)
    define rows where "rows = map fee_columns (take 2 (sort_key ?key ?pair))"
    have "length ?pair \<noteq> 0" using Cons by simp
    then have "rows \<noteq> []" by (simp add: rows_def) (metis length_0_conv length_sort)
    then obtain x more where rows: "rows = x # more" by (cases rows) auto
    have chosen: "chosen_fee src dst t (work s) = (case more of [] \<Rightarrow> Inr x | _ \<Rightarrow> Inl FeeRuleAmbiguous)"
      using decide [where rows = ?pair] Cons
      unfolding rows_def [symmetric] rows by (simp add: chosen_fee_def Let_def)
    show ?thesis
      unfolding chosen select_fee_rule_def tx_bind_def pair rows_def [symmetric] rows
      by (cases more) (simp_all add: from_result_def)
  qed
qed

text \<open>
  C24: The rate and the fee rule of a transfer are fail-closed choices: a rate is used exactly
  when one row for the directed pair is valid at the operation's time (from inclusive, until
  exclusive); a fee rule exactly when one pair rule is valid, or no pair rule and one default;
  no row and several rows are two different errors, and neither the row order nor a default
  beside several pair rules decides anything.
\<close>

theorem fx_selection_fails_closed:
  assumes "fates s = []"
  shows "select_exchange_rate src dst t s =
      ((case filter (rate_applies src dst t) (exchange_rates (work s)) of
          [] \<Rightarrow> Inl (Fail RateUnavailable)
        | [r] \<Rightarrow> Inr (rate_columns r)
        | _ \<Rightarrow> Inl (Fail RateAmbiguous)), s)
    \<and> select_fee_rule src dst t s =
      ((case (filter (pair_fee_applies src dst t) (fx_fee_rules (work s)),
              filter (default_fee_applies t) (fx_fee_rules (work s))) of
          ([r], _) \<Rightarrow> Inr (fee_columns r)
        | ([], [r]) \<Rightarrow> Inr (fee_columns r)
        | ([], []) \<Rightarrow> Inl (Fail FeeRuleUnavailable)
        | _ \<Rightarrow> Inl (Fail FeeRuleAmbiguous)), s)"
  unfolding select_exchange_rate_fine [OF assms] select_fee_rule_fine [OF assms]
  by (auto simp: chosen_rate_def chosen_fee_def unique_row_def from_result_def tx_return_def
      tx_throw_def Let_def split: list.splits)

theorem fx_selection_fails_closed_witness:
  "fst (select_exchange_rate ''USD'' ''PLN'' 5
      \<lparr>committed = undefined,
       work = \<lparr>accounts = [], transfers = [], account_entries = [], idempotency_records = [],
               exchange_rates =
                 [\<lparr>ra_id = 1, ra_source = ''USD'', ra_destination = ''PLN'', ra_rate = 4,
                   ra_from = 5, ra_until = 6\<rparr>,
                  \<lparr>ra_id = 2, ra_source = ''USD'', ra_destination = ''PLN'', ra_rate = 4,
                   ra_from = 4, ra_until = 5\<rparr>],
               fx_fee_rules = []\<rparr>,
       fates = [], emitted = []\<rparr>)
   = Inr \<lparr>er_id = 1, er_source_currency = ''USD'', er_destination_currency = ''PLN'',
          er_rate = numeric_text 4\<rparr>"
  by (subst fx_selection_fails_closed [THEN conjunct1])
     (simp_all add: rate_applies_def valid_at_def rate_columns_def)

lemma calm_select_exchange_rate [calm_intros]:
  "calm (ConfigurationDatabase ConnectionLost) (select_exchange_rate src dst t)"
  unfolding select_exchange_rate_def
  by (rule calm_bind) (auto intro!: calm_intros split: list.split)

lemma calm_select_fee_rule [calm_intros]:
  "calm (ConfigurationDatabase ConnectionLost) (select_fee_rule src dst t)"
  unfolding select_fee_rule_def pair_fee_rows_def default_fee_rows_def
  by (rule calm_bind) (auto intro!: calm_intros split: list.split)

text \<open>What a successful selection says, under any fates.\<close>

lemma from_result_fates:
  assumes "from_result r (s\<lparr>fates := []\<rparr>) = (Inr x, s'\<lparr>fates := []\<rparr>)"
  shows "r = Inr x \<and> work s' = work s \<and> committed s' = committed s \<and> emitted s' = emitted s"
proof -
  have "r = Inr x" and "s'\<lparr>fates := []\<rparr> = s\<lparr>fates := []\<rparr>"
    using assms by (simp_all add: from_result_Inr)
  from this(2) have "work (s'\<lparr>fates := []\<rparr>) = work (s\<lparr>fates := []\<rparr>)"
    "committed (s'\<lparr>fates := []\<rparr>) = committed (s\<lparr>fates := []\<rparr>)"
    "emitted (s'\<lparr>fates := []\<rparr>) = emitted (s\<lparr>fates := []\<rparr>)" by (simp_all only:)
  with \<open>r = Inr x\<close> show ?thesis by simp
qed

lemma select_exchange_rate_InrD:
  assumes "select_exchange_rate src dst t s = (Inr x, s')"
  shows "chosen_rate src dst t (work s) = Inr x
    \<and> work s' = work s \<and> committed s' = committed s \<and> emitted s' = emitted s"
  using from_result_fates [of "chosen_rate src dst t (work s)" s x s']
    calm_Inr_fine [OF calm_select_exchange_rate assms] by (simp add: select_exchange_rate_fine)

lemma select_fee_rule_InrD:
  assumes "select_fee_rule src dst t s = (Inr x, s')"
  shows "chosen_fee src dst t (work s) = Inr x
    \<and> work s' = work s \<and> committed s' = committed s \<and> emitted s' = emitted s"
  using from_result_fates [of "chosen_fee src dst t (work s)" s x s']
    calm_Inr_fine [OF calm_select_fee_rule assms] by (simp add: select_fee_rule_fine)

end
