(* ===== verification/Transfers.thy ===== *)
theory Transfers
  imports Accounts Fx_Configuration
begin

text \<open>
  Component \<open>transfers\<close> (\<open>src/api/transfers.rs\<close>): the posting of a transfer, same-currency or
  FX, and the view of a stored transfer.  \<open>create_transfer\<close> is split where the handler's stages
  are; the stages run in the handler's order.
\<close>

record CreateTransferRequest =
  ctr_source_account_id :: string
  ctr_destination_account_id :: string
  ctr_amount :: string

section \<open>Error mappings\<close>

definition transfer_money_error :: "MoneyError \<Rightarrow> AppError" where
  "transfer_money_error e =
     (case e of
        Malformed \<Rightarrow> Validation ''malformed_amount'' ''The amount is malformed''
      | TooManyFractionalDigits \<Rightarrow>
          Validation ''too_many_fractional_digits''
            ''The amount has too many fractional digits for this currency''
      | Negative \<Rightarrow> Validation ''non_positive_amount'' ''The amount must be greater than zero''
      | Overflow \<Rightarrow> Validation ''amount_overflow'' ''The amount is out of range'')"

definition transfer_configuration_error :: "ConfigurationError \<Rightarrow> AppError" where
  "transfer_configuration_error e =
     (case e of
        RateUnavailable \<Rightarrow> Business ''rate_unavailable'' ''An FX rate is unavailable''
      | RateAmbiguous \<Rightarrow>
          Business ''rate_configuration_ambiguous'' ''FX rate configuration is ambiguous''
      | FeeRuleUnavailable \<Rightarrow> Business ''fee_rule_unavailable'' ''An FX fee rule is unavailable''
      | FeeRuleAmbiguous \<Rightarrow>
          Business ''fee_rule_configuration_ambiguous'' ''FX fee rule configuration is ambiguous''
      | ConfigurationDatabase e \<Rightarrow> internal_sql e)"

definition transfer_arithmetic_error :: "ArithmeticError \<Rightarrow> AppError" where
  "transfer_arithmetic_error e =
     (case e of
        DestinationTooSmall \<Rightarrow>
          Business ''destination_amount_too_small'' ''The converted destination amount rounds to zero''
      | ArithmeticOverflow \<Rightarrow>
          Business ''arithmetic_overflow'' ''The transfer amount is out of range''
      | InvalidRate \<Rightarrow> Internal (Anyhow ''invalid persisted FX configuration'')
      | InvalidScale \<Rightarrow> Internal (Anyhow ''invalid persisted FX configuration'')
      | InvalidAmount \<Rightarrow> Internal (Anyhow ''invalid persisted FX configuration''))"

definition transfer_out_of_range :: AppError where
  "transfer_out_of_range = Business ''arithmetic_overflow'' ''The transfer amount is out of range''"

section \<open>Stages\<close>

text \<open>Before any connection: the key, the body and the two account identifiers.\<close>

definition validate_transfer ::
  "Platform \<Rightarrow> HeaderMap \<Rightarrow> CreateTransferRequest option
    \<Rightarrow> AppError + (string \<times> CreateTransferRequest \<times> uuid \<times> uuid)" where
  "validate_transfer P headers request =
     (case from_headers P headers of
        Inl e \<Rightarrow> Inl e
      | Inr k \<Rightarrow>
          (case request of
             None \<Rightarrow> Inl invalid_json
           | Some req \<Rightarrow>
               (case parse_uuid P (ctr_source_account_id req) of
                  None \<Rightarrow> Inl malformed_account_id
                | Some source \<Rightarrow>
                    (case parse_uuid P (ctr_destination_account_id req) of
                       None \<Rightarrow> Inl malformed_account_id
                     | Some destination \<Rightarrow>
                         if source = destination
                         then Inl (Validation ''same_source_and_destination''
                                     ''The source and destination accounts must differ'')
                         else Inr (k, req, source, destination)))))"

text \<open>The preliminary read: both accounts' currency metadata, unlocked.\<close>

record Preliminary =
  pre_source_currency :: string
  pre_source_scale :: i16
  pre_destination_currency :: string
  pre_destination_scale :: i16

definition preliminary_of :: "AccountRow \<Rightarrow> AccountRow \<Rightarrow> Preliminary" where
  "preliminary_of a b =
     \<lparr>pre_source_currency = acc_currency a, pre_source_scale = currency_scale a,
      pre_destination_currency = acc_currency b, pre_destination_scale = currency_scale b\<rparr>"

definition select_preliminary :: "uuid \<Rightarrow> uuid \<Rightarrow> Preliminary option statement" where
  "select_preliminary source destination d =
     Inr ((case (find_by acc_id source (accounts d), find_by acc_id destination (accounts d)) of
             (Some a, Some b) \<Rightarrow> Some (preliminary_of a b) | _ \<Rightarrow> None), d)"

definition classify_transfer :: "Preliminary \<Rightarrow> AppError + FinancialOperation" where
  "classify_transfer p =
     (if pre_source_currency p = pre_destination_currency p then
        if pre_source_scale p \<noteq> pre_destination_scale p
        then Inl (Internal (Anyhow ''same currency accounts have different scales''))
        else Inr Operation_Transfer
      else Inr Operation_FxTransfer)"

text \<open>The idempotency operation type of the operation being observed.\<close>

definition operation_type :: "FinancialOperation \<Rightarrow> string" where
  "operation_type fin =
     (case fin of Operation_Transfer \<Rightarrow> TRANSFER_OPERATION | Operation_FxTransfer \<Rightarrow> FX_TRANSFER_OPERATION
      | Operation_Reversal \<Rightarrow> REVERSAL_OPERATION)"

definition transfer_amount :: "Preliminary \<Rightarrow> string \<Rightarrow> AppError + i64" where
  "transfer_amount p input =
     (case u8_try_from (pre_source_scale p) of
        Inl e \<Rightarrow> Inl e
      | Inr scale \<Rightarrow>
          (case parse_minor_units input scale of
             Inl e \<Rightarrow> Inl (transfer_money_error e)
           | Inr amount \<Rightarrow>
               if sint amount \<le> 0
               then Inl (Validation ''non_positive_amount'' ''The amount must be greater than zero'')
               else Inr amount))"

text \<open>The rate and the fee rule of an FX transfer, at the transaction's timestamp.\<close>

definition fx_configuration ::
  "FinancialOperation \<Rightarrow> Preliminary \<Rightarrow> timestamp \<Rightarrow> (AppError, (ExchangeRate \<times> FeeRule) option) tx" where
  "fx_configuration fin p t =
     (if fin = Operation_FxTransfer then
        tx_bind (map_err transfer_configuration_error
            (select_exchange_rate (pre_source_currency p) (pre_destination_currency p) t)) (\<lambda>rate.
        tx_bind (map_err transfer_configuration_error
            (select_fee_rule (pre_source_currency p) (pre_destination_currency p) t)) (\<lambda>fee.
          tx_return (Some (rate, fee))))
      else tx_return None)"

record LockedAccount =
  la_id :: uuid
  la_owner :: string
  la_currency :: string
  la_scale :: i16
  la_balance :: i64
  la_status :: string

definition locked_account :: "AccountRow \<Rightarrow> LockedAccount" where
  "locked_account r =
     \<lparr>la_id = acc_id r, la_owner = owner_id r, la_currency = acc_currency r,
      la_scale = currency_scale r, la_balance = balance_minor r,
      la_status = status_text (acc_status r)\<rparr>"

definition lock_accounts :: "uuid \<Rightarrow> uuid \<Rightarrow> (AppError, LockedAccount \<times> LockedAccount) tx" where
  "lock_accounts source destination =
     tx_bind (run_statement (select_accounts_for_update [source, destination])) (\<lambda>rows.
     tx_then (ensure (length rows = 2) AccountUnavailable)
    (let locked = map locked_account rows in
     tx_bind (tx_expect (find (\<lambda>a. la_id a = source) locked)) (\<lambda>src.
     tx_bind (tx_expect (find (\<lambda>a. la_id a = destination) locked)) (\<lambda>dst.
       tx_return (src, dst)))))"

definition check_participants ::
  "string \<Rightarrow> Preliminary \<Rightarrow> LockedAccount \<Rightarrow> LockedAccount \<Rightarrow> AppError + unit" where
  "check_participants client_id p src dst =
     (if la_owner src \<noteq> client_id \<or> la_status src \<noteq> ''active'' \<or> la_status dst \<noteq> ''active''
      then Inl AccountUnavailable
      else if (la_currency src, la_scale src, la_currency dst, la_scale dst)
              \<noteq> (pre_source_currency p, pre_source_scale p,
                 pre_destination_currency p, pre_destination_scale p)
      then Inl (Internal (Anyhow ''account currency metadata changed during transfer''))
      else Inr ())"

record TransferAmounts =
  ta_kind :: TransferKind
  ta_destination :: i64
  ta_fee :: i64
  ta_debit :: i64
  ta_fee_bps :: "i32 option"
  ta_rate :: "string option"
  ta_rate_id :: "uuid option"

definition transfer_amounts ::
  "i64 \<Rightarrow> (ExchangeRate \<times> FeeRule) option \<Rightarrow> LockedAccount \<Rightarrow> LockedAccount \<Rightarrow> AppError + TransferAmounts" where
  "transfer_amounts amount fx src dst =
     (case fx of
        None \<Rightarrow>
          Inr \<lparr>ta_kind = Kind_Transfer, ta_destination = amount, ta_fee = 0, ta_debit = amount,
               ta_fee_bps = None, ta_rate = None, ta_rate_id = None\<rparr>
      | Some (rate, fee) \<Rightarrow>
          (case calculate_fee amount (fee_bps fee) of
             Inl e \<Rightarrow> Inl (transfer_arithmetic_error e)
           | Inr calc \<Rightarrow>
               (case parse_exact_rate (er_rate rate) of
                  Inl e \<Rightarrow> Inl (transfer_arithmetic_error e)
                | Inr exact \<Rightarrow>
                    (case calculate_destination amount (ucast (la_scale src)) (ucast (la_scale dst)) exact of
                       Inl e \<Rightarrow> Inl (transfer_arithmetic_error e)
                     | Inr destination \<Rightarrow>
                         Inr \<lparr>ta_kind = Kind_FxTransfer, ta_destination = destination,
                              ta_fee = fee_minor calc, ta_debit = total_source_debit_minor calc,
                              ta_fee_bps = Some (fee_bps fee), ta_rate = Some (er_rate rate),
                              ta_rate_id = Some (er_id rate)\<rparr>))))"

definition transfer_balances ::
  "LockedAccount \<Rightarrow> LockedAccount \<Rightarrow> TransferAmounts \<Rightarrow> AppError + (i64 \<times> i64)" where
  "transfer_balances src dst ta =
     (if sint (la_balance src) < sint (ta_debit ta)
      then Inl (Business ''insufficient_funds'' ''The source account has insufficient funds'')
      else
        (case checked_sub_i64 (la_balance src) (ta_debit ta) of
           None \<Rightarrow> Inl transfer_out_of_range
         | Some source_balance \<Rightarrow>
             (case checked_add_i64 (la_balance dst) (ta_destination ta) of
                None \<Rightarrow> Inl transfer_out_of_range
              | Some destination_balance \<Rightarrow> Inr (source_balance, destination_balance))))"

text \<open>\<open>CAST($11 AS numeric)\<close> of the rate: an invalid numeral is a data error.\<close>

definition transfer_row ::
  "Ambient \<Rightarrow> string \<Rightarrow> LockedAccount \<Rightarrow> LockedAccount \<Rightarrow> i64 \<Rightarrow> TransferAmounts \<Rightarrow> int option \<Rightarrow> TransferRow" where
  "transfer_row amb client_id src dst amount ta rate =
     \<lparr>tr_id = new_v4 amb 0, tr_source = la_id src, tr_destination = la_id dst,
      tr_source_currency = la_currency src, tr_destination_currency = la_currency dst,
      source_amount_minor = amount, destination_amount_minor = ta_destination ta,
      fee_amount_minor = ta_fee ta, total_debit_minor = ta_debit ta, tr_fee_bps = ta_fee_bps ta,
      tr_exchange_rate = rate, tr_exchange_rate_id = ta_rate_id ta, tr_kind = ta_kind ta,
      reverses = None, initiated_by = client_id, tr_created_at = tx_time amb\<rparr>"

definition cast_rate :: "string option \<Rightarrow> (AppError, int option) tx" where
  "cast_rate r =
     (case r of
        None \<Rightarrow> tx_return None
      | Some s \<Rightarrow>
          tx_bind (ok_or (internal_sql OutOfRange) (cast_numeric s)) (\<lambda>n. tx_return (Some n)))"

definition transfer_entries :: "Ambient \<Rightarrow> TransferRow \<Rightarrow> EntryRow list" where
  "transfer_entries amb t =
     (let is_fx = (tr_kind t = Kind_FxTransfer) in
     [\<lparr>en_id = new_v4 amb 1, en_account = tr_source t, en_transfer = tr_id t,
       en_counterparty = tr_destination t, direction = Debit, en_kind = tr_kind t,
       amount_minor = total_debit_minor t, en_currency = tr_source_currency t,
       principal_minor = (if is_fx then Some (source_amount_minor t) else None),
       entry_fee_minor = (if is_fx then Some (fee_amount_minor t) else None),
       en_created_at = tx_time amb\<rparr>,
      \<lparr>en_id = new_v4 amb 2, en_account = tr_destination t, en_transfer = tr_id t,
       en_counterparty = tr_source t, direction = Credit, en_kind = tr_kind t,
       amount_minor = destination_amount_minor t, en_currency = tr_destination_currency t,
       principal_minor = (if is_fx then Some (destination_amount_minor t) else None),
       entry_fee_minor = None, en_created_at = tx_time amb\<rparr>])"

definition transfer_response ::
  "Platform \<Rightarrow> TransferRow \<Rightarrow> LockedAccount \<Rightarrow> LockedAccount \<Rightarrow> (AppError, Value) tx" where
  "transfer_response P t src dst =
     (let source_scale = ucast (la_scale src); destination_scale = ucast (la_scale dst);
          created_at = JString (timestamptz_text P (tr_created_at t))
      in
      if tr_kind t = Kind_FxTransfer then
        tx_bind (format_amount (source_amount_minor t) source_scale) (\<lambda>source_amount.
        tx_bind (format_amount (destination_amount_minor t) destination_scale) (\<lambda>destination_amount.
        tx_bind (format_amount (fee_amount_minor t) source_scale) (\<lambda>fee.
        tx_bind (format_amount (total_debit_minor t) source_scale) (\<lambda>debit.
          tx_return (to_value
            [(''kind'', JString ''fx_transfer''), (''id'', uuid_value P (tr_id t)),
             (''status'', JString ''completed''), (''source_account_id'', uuid_value P (tr_source t)),
             (''destination_account_id'', uuid_value P (tr_destination t)),
             (''source_currency'', JString (la_currency src)), (''source_amount'', JString source_amount),
             (''destination_currency'', JString (la_currency dst)),
             (''destination_amount'', JString destination_amount), (''fee_amount'', JString fee),
             (''total_source_debit'', JString debit), (''created_at'', created_at)])))))
      else
        tx_bind (format_amount (source_amount_minor t) source_scale) (\<lambda>amount.
          tx_return (to_value
            [(''kind'', JString ''transfer''), (''id'', uuid_value P (tr_id t)),
             (''status'', JString ''completed''), (''source_account_id'', uuid_value P (tr_source t)),
             (''destination_account_id'', uuid_value P (tr_destination t)),
             (''currency'', JString (la_currency src)), (''amount'', JString amount),
             (''created_at'', created_at)])))"

section \<open>The handler\<close>

text \<open>The part of the transaction that only the owner of the key runs.\<close>

definition post_transfer ::
  "Platform \<Rightarrow> Ambient \<Rightarrow> string \<Rightarrow> string \<Rightarrow> FinancialOperation \<Rightarrow> Preliminary \<Rightarrow> uuid \<Rightarrow> uuid \<Rightarrow> i64
    \<Rightarrow> (AppError, Response) tx" where
  "post_transfer P amb client_id k fin p source destination amount =
     tx_bind (run_statement (\<lambda>d. Inr (tx_time amb, d))) (\<lambda>operation_time.
     tx_bind (fx_configuration fin p operation_time) (\<lambda>fx.
     tx_bind (lock_accounts source destination) (\<lambda>(src, dst).
     tx_then (from_result (check_participants client_id p src dst))
    (tx_bind (from_result (transfer_amounts amount fx src dst)) (\<lambda>ta.
     tx_bind (from_result (transfer_balances src dst ta)) (\<lambda>(source_balance, destination_balance).
     tx_bind (cast_rate (ta_rate ta)) (\<lambda>rate.
     let t = transfer_row amb client_id src dst amount ta rate in
     tx_then (record_posting (tx_time amb) t
         [(source, source_balance), (destination, destination_balance)] (transfer_entries amb t))
    (tx_bind (transfer_response P t src dst) (\<lambda>body.
     tx_then (map_err internal_sql
         (store_success client_id (operation_type fin) k 201 body (tr_id t)))
    (tx_return \<lparr>resp_status = 201, resp_body = body\<rparr>))))))))))"

definition transfer_body ::
  "Platform \<Rightarrow> AppState \<Rightarrow> Ambient \<Rightarrow> string \<Rightarrow> string \<Rightarrow> FinancialOperation \<Rightarrow> Preliminary
    \<Rightarrow> uuid \<Rightarrow> uuid \<Rightarrow> string \<Rightarrow> (AppError, Response) tx" where
  "transfer_body P st amb client_id k fin p source destination input =
     tx_bind (from_result (transfer_amount p input)) (\<lambda>amount.
     tx_bind (replay_or_reserve P fin (tx_time amb) (idempotency_retention st) client_id
         (operation_type fin) k
         (transfer_fingerprint P source destination (pre_source_currency p) amount)) (\<lambda>replayed.
       case replayed of
         Some response \<Rightarrow> tx_return response
       | None \<Rightarrow> post_transfer P amb client_id k fin p source destination amount))"

definition create_transfer ::
  "Platform \<Rightarrow> AppState \<Rightarrow> Ambient \<Rightarrow> string \<Rightarrow> HeaderMap \<Rightarrow> CreateTransferRequest option
    \<Rightarrow> (AppError, Response) tx" where
  "create_transfer P st amb client_id headers request =
     tx_bind (from_result (validate_transfer P headers request)) (\<lambda>(k, req, source, destination).
     tx_bind (\<lambda>s. case pool_acquire s of
           (Inr _, s1) \<Rightarrow> (Inr (), s1\<lparr>emitted := emitted s1 @ record_transfer_pool_acquire Pool_Success\<rparr>)
         | (Inl (Fail e), s1) \<Rightarrow>
             (Inl (Fail (internal_sql e)),
              s1\<lparr>emitted := emitted s1 @ record_transfer_pool_acquire Pool_Failure\<rparr>)
         | (Inl f, s1) \<Rightarrow> (Inl (map_fault internal_sql f), s1)) (\<lambda>_.
     tx_bind (map_err internal_sql begin_transaction) (\<lambda>_.
     tx_bind (\<lambda>s. case tx_bind (run_statement (select_preliminary source destination)) (\<lambda>row.
                       tx_bind (ok_or AccountUnavailable row) (\<lambda>p.
                       tx_bind (from_result (classify_transfer p)) (\<lambda>fin. tx_return (p, fin)))) s of
           (Inr x, s1) \<Rightarrow> (Inr x, s1)
         | (Inl f, s1) \<Rightarrow> (Inl f, drop_transaction s1)) (\<lambda>(p, fin).
     run_observed fin (transfer_body P st amb client_id k fin p source destination (ctr_amount req))))))"

section \<open>The stored transfer\<close>

definition select_visible_transfer ::
  "uuid \<Rightarrow> string \<Rightarrow> (TransferRow \<times> AccountRow \<times> AccountRow) option statement" where
  "select_visible_transfer k client_id d =
     Inr ((case find_by tr_id k (transfers d) of
             None \<Rightarrow> None
           | Some t \<Rightarrow>
               (case (find_by acc_id (tr_source t) (accounts d),
                      find_by acc_id (tr_destination t) (accounts d)) of
                  (Some a, Some b) \<Rightarrow>
                    if owner_id a = client_id \<or> owner_id b = client_id then Some (t, a, b) else None
                | _ \<Rightarrow> None)), d)"

definition get_transfer :: "Platform \<Rightarrow> string \<Rightarrow> string \<Rightarrow> (AppError, Response) tx" where
  "get_transfer P client_id transfer_id =
     tx_bind (ok_or malformed_transfer_id (parse_uuid P transfer_id)) (\<lambda>k.
     tx_bind (map_err internal_sql (pool_query (select_visible_transfer k client_id))) (\<lambda>row.
     tx_bind (ok_or NotFound row) (\<lambda>(t, a, b).
     let source_scale = ucast (currency_scale a); destination_scale = ucast (currency_scale b) in
     tx_bind (format_amount (source_amount_minor t) source_scale) (\<lambda>source_amount.
     tx_bind (format_amount (destination_amount_minor t) destination_scale) (\<lambda>destination_amount.
     tx_bind (format_amount (fee_amount_minor t) source_scale) (\<lambda>fee.
     tx_bind (format_amount (total_debit_minor t) source_scale) (\<lambda>debit.
       tx_return \<lparr>resp_status = 200, resp_body = to_value
         [(''id'', uuid_value P k), (''source_account_id'', uuid_value P (tr_source t)),
          (''destination_account_id'', uuid_value P (tr_destination t)),
          (''source_currency'', JString (tr_source_currency t)),
          (''destination_currency'', JString (tr_destination_currency t)),
          (''source_amount'', JString source_amount),
          (''destination_amount'', JString destination_amount),
          (''fee_amount'', JString fee), (''total_source_debit'', JString debit),
          (''fee_bps'', opt_value (\<lambda>x. JNumber (sint x)) (tr_fee_bps t)),
          (''exchange_rate'', opt_value (\<lambda>x. JString (numeric_text x)) (tr_exchange_rate t)),
          (''exchange_rate_id'', opt_value (uuid_value P) (tr_exchange_rate_id t)),
          (''kind'', JString (kind_text (tr_kind t))),
          (''reverses_transfer_id'', opt_value (uuid_value P) (reverses t)),
          (''created_at'', JString (timestamptz_text P (tr_created_at t)))]\<rparr>)))))))"

section \<open>Calm stages\<close>

lemma calm_fx_configuration [calm_intros]: "calm lost (fx_configuration fin p t)"
proof -
  have "transfer_configuration_error (ConfigurationDatabase ConnectionLost) = lost"
    by (simp add: transfer_configuration_error_def lost_def)
  then show ?thesis
    unfolding fx_configuration_def by (auto intro!: calm_intros)
qed

lemma calm_lock_accounts [calm_intros]: "calm lost (lock_accounts a b)"
  unfolding lock_accounts_def Let_def by (auto intro!: calm_intros)

lemma calm_cast_rate [calm_intros]: "calm lost (cast_rate r)"
  unfolding cast_rate_def by (auto intro!: calm_intros split: option.split)

lemma calm_transfer_response [calm_intros]: "calm lost (transfer_response P t src dst)"
  unfolding transfer_response_def Let_def by (auto intro!: calm_intros)

lemma calm_post_transfer [calm_intros]: "calm lost (post_transfer P amb c k fin p a b amount)"
  unfolding post_transfer_def Let_def by (auto intro!: calm_intros)

lemma calm_transfer_body [calm_intros]: "calm lost (transfer_body P st amb c k fin p a b input)"
  unfolding transfer_body_def by (auto intro!: calm_intros split: option.split)

section \<open>What each stage establishes\<close>

lemma fx_configuration_InrD:
  assumes "fx_configuration fin p t s = (Inr fx, s')"
  shows "work s' = work s \<and> committed s' = committed s \<and> emitted s' = emitted s
    \<and> (if fin = Operation_FxTransfer
       then \<exists>rate fee. fx = Some (rate, fee)
          \<and> chosen_rate (pre_source_currency p) (pre_destination_currency p) t (work s) = Inr rate
          \<and> chosen_fee (pre_source_currency p) (pre_destination_currency p) t (work s) = Inr fee
       else fx = None)"
  using assms
  by (auto simp: fx_configuration_def stmt_simps dest!: select_exchange_rate_InrD select_fee_rule_InrD
      split: if_splits)

lemma find_locked:
  "find (\<lambda>a. la_id a = k) (map locked_account rows) = map_option locked_account (find_by acc_id k rows)"
  by (induction rows) (auto simp: locked_account_def)

lemma lock_accounts_InrD:
  assumes "lock_accounts source destination s = (Inr (src, dst), s')"
    and "source \<noteq> destination" and "distinct (map acc_id (accounts (work s)))"
  shows "work s' = work s \<and> committed s' = committed s \<and> emitted s' = emitted s
    \<and> (\<exists>a b. find_by acc_id source (accounts (work s)) = Some a
         \<and> find_by acc_id destination (accounts (work s)) = Some b
         \<and> src = locked_account a \<and> dst = locked_account b)"
proof -
  from assms(1) obtain rows s1 where
    sel: "run_statement (select_accounts_for_update [source, destination]) s = (Inr rows, s1)" and
    rest: "find (\<lambda>a. la_id a = source) (map locked_account rows) = Some src"
      "find (\<lambda>a. la_id a = destination) (map locked_account rows) = Some dst" "s' = s1"
    by (auto simp: lock_accounts_def Let_def stmt_simps)
  note r = run_statement_InrD [OF sel]
  then have rows: "rows = order_by_id acc_id
      (filter (\<lambda>r. acc_id r \<in> {source, destination}) (accounts (work s)))"
    by (auto simp: select_accounts_for_update_def)
  have "find_by acc_id k rows = find_by acc_id k (accounts (work s))" if "k \<in> {source, destination}" for k
    using find_in_selection [OF assms(3) that, of acc_id] by (simp add: rows find_by_def)
  with rest r show ?thesis
    by (auto simp: find_locked select_accounts_for_update_def)
qed

lemma cast_rate_InrD:
  assumes "cast_rate r s = (Inr n, s')"
  shows "s' = s \<and> (case r of None \<Rightarrow> n = None | Some t \<Rightarrow> n \<noteq> None \<and> cast_numeric t = n)"
  using assms by (auto simp: cast_rate_def stmt_simps split: option.splits)

text \<open>The response is a function of the transfer and the two rows.\<close>

lemma transfer_response_state:
  "transfer_response P t src dst s = (r, s') \<Longrightarrow> fst (transfer_response P t src dst s1) = r"
  by (auto simp: transfer_response_def Let_def tx_bind_def format_amount_def tx_expect_def
      tx_return_def tx_panic_def split: option.splits if_splits prod.splits sum.splits)

lemma transfer_response_InrD:
  assumes "transfer_response P t src dst s = (Inr v, s')"
  shows "s' = s"
  using assms
  by (auto simp: transfer_response_def Let_def stmt_simps format_amount_def split: if_splits)

section \<open>The effect of a transfer\<close>

text \<open>
  Everything the owner of the key needs to have found and computed: the two rows, the
  configuration, the amounts and the new balances.
\<close>

definition transfer_computed ::
  "string \<Rightarrow> FinancialOperation \<Rightarrow> Preliminary \<Rightarrow> timestamp \<Rightarrow> uuid \<Rightarrow> uuid \<Rightarrow> i64 \<Rightarrow> Database
    \<Rightarrow> AccountRow \<Rightarrow> AccountRow \<Rightarrow> TransferAmounts \<Rightarrow> i64 \<Rightarrow> i64 \<Rightarrow> bool" where
  "transfer_computed client_id fin p now source destination amount d a b ta sb db \<longleftrightarrow>
     find_by acc_id source (accounts d) = Some a \<and> find_by acc_id destination (accounts d) = Some b
     \<and> check_participants client_id p (locked_account a) (locked_account b) = Inr ()
     \<and> (if fin = Operation_FxTransfer
        then \<exists>rate fee.
            chosen_rate (pre_source_currency p) (pre_destination_currency p) now d = Inr rate
          \<and> chosen_fee (pre_source_currency p) (pre_destination_currency p) now d = Inr fee
          \<and> transfer_amounts amount (Some (rate, fee)) (locked_account a) (locked_account b) = Inr ta
        else transfer_amounts amount None (locked_account a) (locked_account b) = Inr ta)
     \<and> transfer_balances (locked_account a) (locked_account b) ta = Inr (sb, db)"

definition new_transfer ::
  "Ambient \<Rightarrow> string \<Rightarrow> AccountRow \<Rightarrow> AccountRow \<Rightarrow> i64 \<Rightarrow> TransferAmounts \<Rightarrow> TransferRow" where
  "new_transfer amb client_id a b amount ta =
     transfer_row amb client_id (locked_account a) (locked_account b) amount ta
       (case ta_rate ta of None \<Rightarrow> None | Some r \<Rightarrow> cast_numeric r)"

definition transfer_applied ::
  "Ambient \<Rightarrow> TransferRow \<Rightarrow> i64 \<Rightarrow> i64 \<Rightarrow> IdempotencyRow \<Rightarrow> Database \<Rightarrow> Database" where
  "transfer_applied amb t sb db record d =
     (apply_posting (tx_time amb) t [(tr_source t, sb), (tr_destination t, db)]
        (transfer_entries amb t) d)
       \<lparr>idempotency_records := idempotency_records d @ [record]\<rparr>"

lemma post_transfer_InrD:
  assumes run: "post_transfer P amb c k fin p source destination amount s = (Inr resp, s')"
    and ne: "source \<noteq> destination" and keys: "distinct (map acc_id (accounts (work s)))"
    and recs: "idempotency_records (work s) = rs @
      [reservation_row (tx_time amb) retention (c, operation_type fin, k) fp]"
    and new: "find_by idem_row_key (c, operation_type fin, k) rs = None"
  shows "(schema_ok (work s) \<longrightarrow> schema_ok (work s'))
    \<and> (\<exists>a b ta sb db body. let t = new_transfer amb c a b amount ta in
         transfer_computed c fin p (tx_time amb) source destination amount (work s) a b ta sb db
       \<and> (\<exists>d. insert_transfer t (work s) = Inr ((), d))
       \<and> fst (transfer_response P t (locked_account a) (locked_account b) s) = Inr body
       \<and> resp = \<lparr>resp_status = 201, resp_body = body\<rparr>
       \<and> work s' = (apply_posting (tx_time amb) t [(source, sb), (destination, db)]
            (transfer_entries amb t) (work s))
            \<lparr>idempotency_records := rs @
              [completed_row (tx_time amb) retention (c, operation_type fin, k) fp 201 body (tr_id t)]\<rparr>)"
proof -
  from run obtain t0 fx src dst ta sb db rate body s0 s1 s2 s3 s4 s5 s6 where
    clock: "run_statement (\<lambda>d. Inr (tx_time amb, d)) s = (Inr t0, s0)" and
    fx: "fx_configuration fin p t0 s0 = (Inr fx, s1)" and
    lock: "lock_accounts source destination s1 = (Inr (src, dst), s2)" and
    chk: "check_participants c p src dst = Inr ()" and
    amts: "transfer_amounts amount fx src dst = Inr ta" and
    bals: "transfer_balances src dst ta = Inr (sb, db)" and
    cast: "cast_rate (ta_rate ta) s2 = (Inr rate, s3)" and
    post: "record_posting (tx_time amb) (transfer_row amb c src dst amount ta rate)
        [(source, sb), (destination, db)]
        (transfer_entries amb (transfer_row amb c src dst amount ta rate)) s3 = (Inr (), s4)" and
    resp: "transfer_response P (transfer_row amb c src dst amount ta rate) src dst s4 = (Inr body, s5)" and
    store: "store_success c (operation_type fin) k 201 body
        (tr_id (transfer_row amb c src dst amount ta rate)) s5 = (Inr (), s6)" and
    fin: "resp = \<lparr>resp_status = 201, resp_body = body\<rparr>" "s' = s6"
    unfolding post_transfer_def Let_def
    by (auto simp: tx_bind_Inr tx_then_Inr from_result_Inr map_err_Inr tx_return_Inr)
  have c0: "t0 = tx_time amb" "work s0 = work s" using run_statement_InrD [OF clock] by auto
  note f = fx_configuration_InrD [OF fx]
  have w1: "work s1 = work s" using f c0 by simp
  have keys1: "distinct (map acc_id (accounts (work s1)))" using keys w1 by simp
  note l = lock_accounts_InrD [OF lock ne keys1]
  then obtain a b where ab: "find_by acc_id source (accounts (work s)) = Some a"
      "find_by acc_id destination (accounts (work s)) = Some b"
      "src = locked_account a" "dst = locked_account b"
    by (auto simp: w1)
  note cr = cast_rate_InrD [OF cast]
  then have rate: "rate = (case ta_rate ta of None \<Rightarrow> None | Some r \<Rightarrow> cast_numeric r)"
    by (auto split: option.splits)
  define t where "t = new_transfer amb c a b amount ta"
  have t: "transfer_row amb c src dst amount ta rate = t"
    by (simp add: t_def new_transfer_def rate ab)
  have w3: "work s3 = work s" using cr l w1 by simp
  note po = record_posting_InrD [OF post [unfolded t]]
  have s5: "s5 = s4" using transfer_response_InrD [OF resp] by simp
  have w4: "work s4 = apply_posting (tx_time amb) t [(source, sb), (destination, db)]
      (transfer_entries amb t) (work s)"
    using po w3 by simp
  have "idempotency_records (work s5) = rs @
      [reservation_row (tx_time amb) retention (c, operation_type fin, k) fp]"
    by (simp add: s5 w4 recs)
  note st = store_success_InrD [OF store this new]
  have body: "fst (transfer_response P t (locked_account a) (locked_account b) s) = Inr body"
    using transfer_response_state [OF resp [unfolded t], of s] by (simp add: ab)
  have comp: "transfer_computed c fin p (tx_time amb) source destination amount (work s) a b ta sb db"
    using ab chk amts bals f c0 by (auto simp: transfer_computed_def split: if_splits)
  have schema: "schema_ok (work s) \<longrightarrow> schema_ok (work s')"
    using po st unfolding s5 fin w3 by blast
  have eff: "work s' = (apply_posting (tx_time amb) t [(source, sb), (destination, db)]
      (transfer_entries amb t) (work s))\<lparr>idempotency_records := rs @
        [completed_row (tx_time amb) retention (c, operation_type fin, k) fp 201 body (tr_id t)]\<rparr>"
    using st s5 w4 fin by (simp add: t)
  have ins: "\<exists>d. insert_transfer t (work s) = Inr ((), d)" using po w3 by simp
  show ?thesis
    unfolding Let_def using schema comp ins body fin(1) eff unfolding t_def by blast
qed

lemma new_transfer_simps [simp]:
  "tr_id (new_transfer amb c a b amount ta) = new_v4 amb 0"
  "tr_source (new_transfer amb c a b amount ta) = acc_id a"
  "tr_destination (new_transfer amb c a b amount ta) = acc_id b"
  "tr_source_currency (new_transfer amb c a b amount ta) = acc_currency a"
  "tr_destination_currency (new_transfer amb c a b amount ta) = acc_currency b"
  "source_amount_minor (new_transfer amb c a b amount ta) = amount"
  "destination_amount_minor (new_transfer amb c a b amount ta) = ta_destination ta"
  "fee_amount_minor (new_transfer amb c a b amount ta) = ta_fee ta"
  "total_debit_minor (new_transfer amb c a b amount ta) = ta_debit ta"
  "tr_kind (new_transfer amb c a b amount ta) = ta_kind ta"
  "reverses (new_transfer amb c a b amount ta) = None"
  "initiated_by (new_transfer amb c a b amount ta) = c"
  "tr_created_at (new_transfer amb c a b amount ta) = tx_time amb"
  by (simp_all add: new_transfer_def transfer_row_def locked_account_def)

lemma transfer_computed_cong:
  assumes "accounts d' = accounts d" and "exchange_rates d' = exchange_rates d"
    and "fx_fee_rules d' = fx_fee_rules d"
  shows "transfer_computed c fin p now source destination amount d' a b ta sb db
     \<longleftrightarrow> transfer_computed c fin p now source destination amount d a b ta sb db"
  using assms by (simp add: transfer_computed_def chosen_rate_def chosen_fee_def Let_def)

lemma insert_transfer_cong:
  assumes "accounts d' = accounts d" and "transfers d' = transfers d"
    and "exchange_rates d' = exchange_rates d"
  shows "(\<exists>x. insert_transfer t d' = Inr ((), x)) \<longleftrightarrow> (\<exists>x. insert_transfer t d = Inr ((), x))"
  unfolding insert_transfer_def assms by simp

definition transfer_posted ::
  "Platform \<Rightarrow> AppState \<Rightarrow> Ambient \<Rightarrow> string \<Rightarrow> string \<Rightarrow> FinancialOperation \<Rightarrow> Preliminary
    \<Rightarrow> uuid \<Rightarrow> uuid \<Rightarrow> i64 \<Rightarrow> Database \<Rightarrow> Database \<Rightarrow> Response \<Rightarrow> bool" where
  "transfer_posted P st amb c k fin p source destination amount d d' resp \<longleftrightarrow>
     (\<exists>a b ta sb db body.
        transfer_computed c fin p (tx_time amb) source destination amount d a b ta sb db
      \<and> (\<exists>d1. insert_transfer (new_transfer amb c a b amount ta) d = Inr ((), d1))
      \<and> (\<forall>s. fst (transfer_response P (new_transfer amb c a b amount ta)
                    (locked_account a) (locked_account b) s) = Inr body)
      \<and> resp = \<lparr>resp_status = 201, resp_body = body\<rparr>
      \<and> find_by idem_row_key (c, operation_type fin, k) (idempotency_records d) = None
      \<and> d' = transfer_applied amb (new_transfer amb c a b amount ta) sb db
               (completed_row (tx_time amb) (idempotency_retention st) (c, operation_type fin, k)
                  (transfer_fingerprint P source destination (pre_source_currency p) amount)
                  201 body (new_v4 amb 0)) d)"

lemma transfer_body_InrD:
  assumes run: "transfer_body P st amb c k fin p source destination input s = (Inr resp, s')"
    and ne: "source \<noteq> destination" and keys: "distinct (map acc_id (accounts (work s)))"
  shows "(schema_ok (work s) \<longrightarrow> schema_ok (work s'))
    \<and> (\<exists>amount. transfer_amount p input = Inr amount
       \<and> (work s' = work s
            \<and> replayed_from P (work s) (c, operation_type fin, k)
                (transfer_fingerprint P source destination (pre_source_currency p) amount) resp
          \<or> transfer_posted P st amb c k fin p source destination amount (work s) (work s') resp))"
proof -
  from run obtain amount replayed s1 where
    amt: "transfer_amount p input = Inr amount" and
    ror: "replay_or_reserve P fin (tx_time amb) (idempotency_retention st) c (operation_type fin) k
       (transfer_fingerprint P source destination (pre_source_currency p) amount) s
       = (Inr replayed, s1)" and
    rest: "(case replayed of Some response \<Rightarrow> tx_return response
       | None \<Rightarrow> post_transfer P amb c k fin p source destination amount) s1 = (Inr resp, s')"
    unfolding transfer_body_def by (auto simp: tx_bind_Inr from_result_Inr)
  note rr = replay_or_reserve_InrD [OF ror]
  show ?thesis
  proof (cases replayed)
    case (Some response)
    then show ?thesis
      using rr rest amt
      by (auto simp: tx_return_Inr replayed_from_def answer_Replayed_iff)
  next
    case None
    let ?fp = "transfer_fingerprint P source destination (pre_source_currency p) amount"
    let ?k = "(c, operation_type fin, k)"
    have w1: "work s1 = claim_record (tx_time amb) (idempotency_retention st) ?k ?fp (work s)"
      and new: "find_by idem_row_key ?k (idempotency_records (work s)) = None"
      and sch: "schema_ok (work s) \<longrightarrow> schema_ok (work s1)"
      using rr None insert_idempotency_schema by auto
    from rest None have post: "post_transfer P amb c k fin p source destination amount s1 = (Inr resp, s')"
      by simp
    have "distinct (map acc_id (accounts (work s1)))"
      and "idempotency_records (work s1) = idempotency_records (work s) @
        [reservation_row (tx_time amb) (idempotency_retention st) ?k ?fp]"
      using keys by (simp_all add: w1)
    note pt = post_transfer_InrD [OF post ne this new]
    then obtain a b ta sb db body where
      comp: "transfer_computed c fin p (tx_time amb) source destination amount (work s1) a b ta sb db"
      and ins: "\<exists>d. insert_transfer (new_transfer amb c a b amount ta) (work s1) = Inr ((), d)"
      and body: "fst (transfer_response P (new_transfer amb c a b amount ta)
          (locked_account a) (locked_account b) s1) = Inr body"
      and resp: "resp = \<lparr>resp_status = 201, resp_body = body\<rparr>"
      and eff: "work s' = (apply_posting (tx_time amb) (new_transfer amb c a b amount ta)
            [(source, sb), (destination, db)]
            (transfer_entries amb (new_transfer amb c a b amount ta)) (work s1))
            \<lparr>idempotency_records := idempotency_records (work s) @
              [completed_row (tx_time amb) (idempotency_retention st) ?k ?fp 201 body
                 (tr_id (new_transfer amb c a b amount ta))]\<rparr>"
      unfolding Let_def by blast
    have comp': "transfer_computed c fin p (tx_time amb) source destination amount (work s) a b ta sb db"
      using comp transfer_computed_cong [of "work s1" "work s"] by (simp add: w1)
    then have ids: "acc_id a = source" "acc_id b = destination"
      by (auto simp: transfer_computed_def find_acc_id)
    have ins': "\<exists>d. insert_transfer (new_transfer amb c a b amount ta) (work s) = Inr ((), d)"
      using ins insert_transfer_cong [of "work s1" "work s"] by (simp add: w1)
    have body': "\<forall>s. fst (transfer_response P (new_transfer amb c a b amount ta)
        (locked_account a) (locked_account b) s) = Inr body"
      using body transfer_response_state by (metis prod.collapse)
    have "work s' = transfer_applied amb (new_transfer amb c a b amount ta) sb db
        (completed_row (tx_time amb) (idempotency_retention st) ?k ?fp 201 body (new_v4 amb 0)) (work s)"
      by (simp add: eff transfer_applied_def ids apply_posting_def w1 claim_record_def
          insert_idempotency_row_def)
    then have "transfer_posted P st amb c k fin p source destination amount (work s) (work s') resp"
      unfolding transfer_posted_def using comp' ins' body' resp new by blast
    then show ?thesis using amt pt sch by blast
  qed
qed

text \<open>What a run of \<open>create_transfer\<close> can commit, under any fates.\<close>

definition transfer_request_ok ::
  "Platform \<Rightarrow> HeaderMap \<Rightarrow> CreateTransferRequest option \<Rightarrow> Database \<Rightarrow> string \<Rightarrow> uuid \<Rightarrow> uuid
    \<Rightarrow> Preliminary \<Rightarrow> FinancialOperation \<Rightarrow> i64 \<Rightarrow> bool" where
  "transfer_request_ok P headers request d k source destination p fin amount \<longleftrightarrow>
     (\<exists>req. validate_transfer P headers request = Inr (k, req, source, destination)
        \<and> (\<exists>a b. find_by acc_id source (accounts d) = Some a
              \<and> find_by acc_id destination (accounts d) = Some b \<and> p = preliminary_of a b)
        \<and> classify_transfer p = Inr fin
        \<and> transfer_amount p (ctr_amount req) = Inr amount)"

lemma validate_transfer_ne:
  "validate_transfer P headers request = Inr (k, req, source, destination) \<Longrightarrow> source \<noteq> destination"
  by (auto simp: validate_transfer_def split: sum.splits option.splits if_splits)

lemma create_transfer_cases:
  assumes run: "create_transfer P st amb c headers request s = (r, s')"
    and keys: "distinct (map acc_id (accounts (committed s)))"
  shows "(schema_ok (committed s) \<longrightarrow> schema_ok (committed s'))
    \<and> ((committed s' = committed s
          \<and> (\<forall>resp. r = Inr resp \<longrightarrow> (\<exists>k source destination p fin amount.
               transfer_request_ok P headers request (committed s) k source destination p fin amount
               \<and> replayed_from P (committed s) (c, operation_type fin, k)
                   (transfer_fingerprint P source destination (pre_source_currency p) amount) resp)))
      \<or> (\<exists>k source destination p fin amount resp.
           transfer_request_ok P headers request (committed s) k source destination p fin amount
           \<and> transfer_posted P st amb c k fin p source destination amount
               (committed s) (committed s') resp
           \<and> r \<in> {Inr resp, Inl (Fail lost), Inl Cancelled}))"
proof (cases "validate_transfer P headers request")
  case (Inl e)
  then show ?thesis
    using run by (auto simp: create_transfer_def tx_bind_def from_result_def tx_throw_def)
next
  case (Inr v)
  obtain k req source destination where v: "v = (k, req, source, destination)" by (cases v)
  have ne: "source \<noteq> destination" using Inr v validate_transfer_ne by metis
  define acq where "acq = (\<lambda>s. case pool_acquire s of
       (Inr _, s1) \<Rightarrow> (Inr (), s1\<lparr>emitted := emitted s1 @ record_transfer_pool_acquire Pool_Success\<rparr>)
     | (Inl (Fail e), s1) \<Rightarrow>
         (Inl (Fail (internal_sql e)),
          s1\<lparr>emitted := emitted s1 @ record_transfer_pool_acquire Pool_Failure\<rparr>)
     | (Inl f, s1) \<Rightarrow> (Inl (map_fault internal_sql f), s1))"
  define pre where "pre = (\<lambda>s. case tx_bind (run_statement (select_preliminary source destination)) (\<lambda>row.
           tx_bind (ok_or AccountUnavailable row) (\<lambda>p.
           tx_bind (from_result (classify_transfer p)) (\<lambda>fin. tx_return (p, fin)))) s of
       (Inr x, s1) \<Rightarrow> (Inr x, s1) | (Inl f, s1) \<Rightarrow> (Inl f, drop_transaction s1))"
  have run': "tx_bind acq (\<lambda>_. tx_bind (map_err internal_sql begin_transaction) (\<lambda>_.
      tx_bind pre (\<lambda>(p, fin).
        run_observed fin (transfer_body P st amb c k fin p source destination (ctr_amount req))))) s
      = (r, s')"
    using run Inr
    by (simp add: create_transfer_def tx_bind_def from_result_def tx_return_def v acq_def pre_def)
  have acq: "committed s1 = committed s0" if "acq s0 = (x, s1)" for s0 x s1
    using that
    by (auto simp: acq_def pool_acquire_def execute_def next_fate_def
        split: prod.splits sum.splits Fate.splits list.splits fault.splits)
  have pre: "committed s1 = committed s0 \<and> (\<forall>p fin. x = Inr (p, fin) \<longrightarrow>
      work s1 = work s0 \<and> (\<exists>a b. find_by acc_id source (accounts (work s0)) = Some a
        \<and> find_by acc_id destination (accounts (work s0)) = Some b \<and> p = preliminary_of a b)
      \<and> classify_transfer p = Inr fin)" if "pre s0 = (x, s1)" for s0 x s1
    using that
    by (auto simp: pre_def tx_bind_def map_err_def execute_def next_fate_def select_preliminary_def
        ok_or_def from_result_def tx_return_def tx_throw_def drop_transaction_def
        split: prod.splits sum.splits Fate.splits list.splits option.splits)
  obtain r1 s1 where a1: "acq s = (r1, s1)" by fastforce
  obtain r2 s2 where a2: "map_err internal_sql begin_transaction s1 = (r2, s2)" by fastforce
  obtain r3 s3 where a3: "pre s2 = (r3, s3)" by fastforce
  have c2: "committed s2 = committed s1 \<and> (\<forall>x. r2 = Inr x \<longrightarrow> work s2 = committed s1)"
    using a2 begin_transaction_cases
    by (fastforce simp: map_err_def split: prod.splits sum.splits)
  show ?thesis
  proof (cases "(\<exists>x. r1 = Inr x) \<and> (\<exists>x. r2 = Inr x) \<and> (\<exists>x. r3 = Inr x)")
    case False
    then have "committed s' = committed s \<and> (\<forall>x. r \<noteq> Inr x)"
      using run' a1 a2 a3 acq [OF a1] c2 pre [OF a3]
      by (cases r1; cases r2; cases r3) (auto simp: tx_bind_def)
    then show ?thesis by simp
  next
    case True
    then obtain p fin where r3: "r3 = Inr (p, fin)" by auto
    let ?body = "transfer_body P st amb c k fin p source destination (ctr_amount req)"
    have obs: "run_observed fin ?body s3 = (r, s')"
      using run' a1 a2 a3 True r3 by (auto simp: tx_bind_def)
    have w3: "work s3 = committed s" "committed s3 = committed s"
      using acq [OF a1] c2 pre [OF a3] True r3 by auto
    have p: "\<exists>a b. find_by acc_id source (accounts (committed s)) = Some a
        \<and> find_by acc_id destination (accounts (committed s)) = Some b \<and> p = preliminary_of a b"
      "classify_transfer p = Inr fin"
      using acq [OF a1] c2 pre [OF a3] True r3 by auto
    from run_observed_cases [OF calm_transfer_body obs] show ?thesis
    proof (elim disjE exE conjE)
      assume "committed s' = committed s3" "\<forall>x. r \<noteq> Inr x"
      then show ?thesis using w3 by simp
    next
      fix resp sw
      assume body: "?body (s3\<lparr>fates := []\<rparr>) = (Inr resp, sw)" and cs: "committed s' = work sw"
        and r: "r \<in> {Inr resp, Inl (Fail lost), Inl Cancelled}"
      have "distinct (map acc_id (accounts (work (s3\<lparr>fates := []\<rparr>))))" using keys w3 by simp
      from transfer_body_InrD [OF body ne this] obtain amount where
        sch: "schema_ok (committed s) \<longrightarrow> schema_ok (committed s')" and
        amt: "transfer_amount p (ctr_amount req) = Inr amount" and
        cases: "committed s' = committed s
            \<and> replayed_from P (committed s) (c, operation_type fin, k)
                (transfer_fingerprint P source destination (pre_source_currency p) amount) resp
          \<or> transfer_posted P st amb c k fin p source destination amount
              (committed s) (committed s') resp"
        by (auto simp: w3 cs)
      have ok: "transfer_request_ok P headers request (committed s) k source destination p fin amount"
        unfolding transfer_request_ok_def using Inr v p amt by blast
      from cases show ?thesis
      proof
        assume "committed s' = committed s
            \<and> replayed_from P (committed s) (c, operation_type fin, k)
                (transfer_fingerprint P source destination (pre_source_currency p) amount) resp"
        then show ?thesis using sch ok r by auto
      next
        assume "transfer_posted P st amb c k fin p source destination amount
              (committed s) (committed s') resp"
        then show ?thesis using sch ok r by blast
      qed
    qed
  qed
qed

section \<open>A posted transfer in the books\<close>

lemma calculate_fee_total:
  assumes "calculate_fee amount bps = Inr calc"
  shows "sint (total_source_debit_minor calc) = sint amount + sint (fee_minor calc)"
  using assms
  by (auto simp: calculate_fee_def checked_add_i64_Some split: if_splits sum.splits option.splits)

lemma transfer_amounts_kind:
  assumes "transfer_amounts amount fx src dst = Inr ta"
  shows "(fx = None \<longrightarrow> ta_kind ta = Kind_Transfer \<and> ta_destination ta = amount
            \<and> ta_fee ta = 0 \<and> ta_debit ta = amount)
    \<and> (fx \<noteq> None \<longrightarrow> ta_kind ta = Kind_FxTransfer
            \<and> sint (ta_debit ta) = sint amount + sint (ta_fee ta))"
  using assms calculate_fee_total
  by (auto simp: transfer_amounts_def split: option.splits prod.splits sum.splits)

lemma transfer_balances_Inr:
  assumes "transfer_balances src dst ta = Inr (sb, db)"
  shows "sint (ta_debit ta) \<le> sint (la_balance src)
    \<and> sint sb = sint (la_balance src) - sint (ta_debit ta)
    \<and> sint db = sint (la_balance dst) + sint (ta_destination ta)"
  using assms
  by (auto simp: transfer_balances_def checked_add_i64_Some checked_sub_i64_Some
      split: if_splits option.splits)

lemma locked_account_simps [simp]:
  "la_id (locked_account a) = acc_id a" "la_owner (locked_account a) = owner_id a"
  "la_currency (locked_account a) = acc_currency a" "la_scale (locked_account a) = currency_scale a"
  "la_balance (locked_account a) = balance_minor a"
  "la_status (locked_account a) = status_text (acc_status a)"
  by (simp_all add: locked_account_def)

text \<open>The facts of a computed transfer, in terms of the two rows.\<close>

lemma transfer_computed_facts:
  assumes comp: "transfer_computed c fin p now source destination amount d a b ta sb db"
    and cls: "classify_transfer p = Inr fin"
  shows "owner_id a = c" and "acc_status a = Active" and "acc_status b = Active"
    and "acc_id a = source" and "acc_id b = destination"
    and "sint (ta_debit ta) \<le> sint (balance_minor a)"
    and "sint sb = sint (balance_minor a) - sint (ta_debit ta)"
    and "sint db = sint (balance_minor b) + sint (ta_destination ta)"
    and "fin = Operation_Transfer \<Longrightarrow> acc_currency a = acc_currency b
          \<and> currency_scale a = currency_scale b \<and> ta_kind ta = Kind_Transfer
          \<and> ta_destination ta = amount \<and> ta_fee ta = 0 \<and> ta_debit ta = amount"
    and "fin \<noteq> Operation_Transfer \<Longrightarrow> fin = Operation_FxTransfer \<and> acc_currency a \<noteq> acc_currency b
          \<and> ta_kind ta = Kind_FxTransfer \<and> sint (ta_debit ta) = sint amount + sint (ta_fee ta)"
proof -
  have fin: "(if pre_source_currency p = pre_destination_currency p
      then pre_source_scale p = pre_destination_scale p \<and> fin = Operation_Transfer
      else fin = Operation_FxTransfer)"
    using cls by (auto simp: classify_transfer_def split: if_splits)
  have chk: "owner_id a = c" "acc_status a = Active" "acc_status b = Active"
    "acc_currency a = pre_source_currency p" "currency_scale a = pre_source_scale p"
    "acc_currency b = pre_destination_currency p" "currency_scale b = pre_destination_scale p"
    using comp by (auto simp: transfer_computed_def check_participants_def split: if_splits)
  then show "owner_id a = c" "acc_status a = Active" "acc_status b = Active" by simp_all
  show "acc_id a = source" "acc_id b = destination"
    using comp by (auto simp: transfer_computed_def find_acc_id)
  show "sint (ta_debit ta) \<le> sint (balance_minor a)"
    and "sint sb = sint (balance_minor a) - sint (ta_debit ta)"
    and "sint db = sint (balance_minor b) + sint (ta_destination ta)"
    using comp transfer_balances_Inr [of "locked_account a" "locked_account b" ta sb db]
    by (simp_all add: transfer_computed_def)
  show "acc_currency a = acc_currency b
          \<and> currency_scale a = currency_scale b \<and> ta_kind ta = Kind_Transfer
          \<and> ta_destination ta = amount \<and> ta_fee ta = 0 \<and> ta_debit ta = amount"
    if "fin = Operation_Transfer"
    using comp that fin chk
      transfer_amounts_kind [of amount None "locked_account a" "locked_account b" ta]
    by (auto simp: transfer_computed_def split: if_splits)
  show "fin = Operation_FxTransfer \<and> acc_currency a \<noteq> acc_currency b
          \<and> ta_kind ta = Kind_FxTransfer \<and> sint (ta_debit ta) = sint amount + sint (ta_fee ta)"
    if "fin \<noteq> Operation_Transfer"
    using comp that fin chk
    by (auto simp: transfer_computed_def split: if_splits dest: transfer_amounts_kind)
qed

lemma transfer_entries_pair:
  "\<exists>x y. transfer_entries amb t = [x, y] \<and> (tr_created_at t = tx_time amb \<longrightarrow> entry_pair t x y)"
  by (simp add: transfer_entries_def Let_def entry_pair_def)

lemma transfer_balanced:
  assumes comp: "transfer_computed c fin p now source destination amount d a b ta sb db"
    and cls: "classify_transfer p = Inr fin" and ne: "source \<noteq> destination"
  shows "balanced_posting (new_transfer amb c a b amount ta)
      [(acc_id a, sb), (acc_id b, db)] (transfer_entries amb (new_transfer amb c a b amount ta)) d"
    and "amounts_ok (new_transfer amb c a b amount ta)"
    and "reversal_link_ok ts (new_transfer amb c a b amount ta)"
proof -
  note f = transfer_computed_facts [OF comp cls]
  obtain x y where es: "transfer_entries amb (new_transfer amb c a b amount ta) = [x, y]"
    and pair: "entry_pair (new_transfer amb c a b amount ta) x y"
    using transfer_entries_pair [of amb "new_transfer amb c a b amount ta"] by auto
  have find: "find_by acc_id (acc_id a) (accounts d) = Some a"
    "find_by acc_id (acc_id b) (accounts d) = Some b"
    using comp f(4,5) by (simp_all add: transfer_computed_def)
  show "balanced_posting (new_transfer amb c a b amount ta)
      [(acc_id a, sb), (acc_id b, db)] (transfer_entries amb (new_transfer amb c a b amount ta)) d"
    unfolding balanced_posting_def
    by (rule exI [of _ sb], rule exI [of _ db], rule exI [of _ x], rule exI [of _ y],
        rule exI [of _ a], rule exI [of _ b])
       (use es pair find f ne in simp)
  show "amounts_ok (new_transfer amb c a b amount ta)"
    using f(9,10) by (cases "fin = Operation_Transfer") (simp_all add: amounts_ok_def)
  show "reversal_link_ok ts (new_transfer amb c a b amount ta)"
    using f(9,10) by (cases "fin = Operation_Transfer") (simp_all add: reversal_link_ok_def)
qed

lemma transfer_applied_simps [simp]:
  "accounts (transfer_applied amb t sb db r d) =
     write_balances (tx_time amb) [(tr_source t, sb), (tr_destination t, db)] (accounts d)"
  "transfers (transfer_applied amb t sb db r d) = transfers d @ [t]"
  "account_entries (transfer_applied amb t sb db r d) = account_entries d @ transfer_entries amb t"
  "idempotency_records (transfer_applied amb t sb db r d) = idempotency_records d @ [r]"
  "exchange_rates (transfer_applied amb t sb db r d) = exchange_rates d"
  "fx_fee_rules (transfer_applied amb t sb db r d) = fx_fee_rules d"
  by (simp_all add: transfer_applied_def)

lemma transfer_posted_ledger:
  assumes "ledger_ok d" and "transfer_request_ok P headers request d k source destination p fin amount"
    and "transfer_posted P st amb c k fin p source destination amount d d' resp" and "schema_ok d'"
  shows "ledger_ok d' \<and> (\<forall>k. opening_balance k d' = opening_balance k d)
    \<and> prefix (transfers d) (transfers d') \<and> prefix (account_entries d) (account_entries d')
    \<and> (\<forall>k. find_by acc_id k (accounts d) \<noteq> None \<longrightarrow> find_by acc_id k (accounts d') \<noteq> None)"
proof -
  from assms(2) have cls: "classify_transfer p = Inr fin" and ne: "source \<noteq> destination"
    by (auto simp: transfer_request_ok_def dest: validate_transfer_ne)
  from assms(3) obtain a b ta sb db body where
    comp: "transfer_computed c fin p (tx_time amb) source destination amount d a b ta sb db" and
    ins: "\<exists>d1. insert_transfer (new_transfer amb c a b amount ta) d = Inr ((), d1)" and
    d': "d' = transfer_applied amb (new_transfer amb c a b amount ta) sb db
               (completed_row (tx_time amb) (idempotency_retention st) (c, operation_type fin, k)
                  (transfer_fingerprint P source destination (pre_source_currency p) amount)
                  201 body (new_v4 amb 0)) d"
    unfolding transfer_posted_def by blast
  note bal = transfer_balanced [OF comp cls ne]
  have ids: "acc_id a = source" "acc_id b = destination"
    using transfer_computed_facts [OF comp cls] by simp_all
  have "ledger_ok d' \<and> (\<forall>k. opening_balance k d' = opening_balance k d)"
    by (rule posting_with_record [OF assms(1) bal ins record_complete_completed _ assms(4)])
       (simp add: d' transfer_applied_def)
  moreover have "find_by acc_id k (accounts d') \<noteq> None" if "find_by acc_id k (accounts d) \<noteq> None" for k
    using that ne ids by (auto simp: d' find_write_balances)
  ultimately show ?thesis by (simp add: d')
qed

definition transfer_change :: "Database \<Rightarrow> Database \<Rightarrow> bool" where
  "transfer_change d d' \<longleftrightarrow>
     (\<exists>P st amb c headers request. commits (create_transfer P st amb c headers request) d d')"

lemma transfer_change_keeps:
  assumes "transfer_change d d'" and "ledger_ok d"
  shows "ledger_ok d' \<and> (\<forall>k. opening_balance k d' = opening_balance k d)
    \<and> prefix (transfers d) (transfers d') \<and> prefix (account_entries d) (account_entries d')
    \<and> (\<forall>k. find_by acc_id k (accounts d) \<noteq> None \<longrightarrow> find_by acc_id k (accounts d') \<noteq> None)"
proof -
  from assms(1) obtain P st amb c headers request s r s' where
    run: "create_transfer P st amb c headers request s = (r, s')" and
    d: "committed s = d" "committed s' = d'"
    by (auto simp: transfer_change_def commits_def)
  have keys: "distinct (map acc_id (accounts (committed s)))"
    using assms(2) by (simp add: d ledger_ok_def schema_ok_def keys_ok_def)
  from create_transfer_cases [OF run keys] have
    sch: "schema_ok d \<longrightarrow> schema_ok d'" and
    cases: "d' = d \<or> (\<exists>k source destination p fin amount resp.
      transfer_request_ok P headers request d k source destination p fin amount
      \<and> transfer_posted P st amb c k fin p source destination amount d d' resp)"
    by (auto simp: d)
  from cases show ?thesis
  proof (elim disjE exE conjE)
    assume "d' = d"
    then show ?thesis using assms(2) by simp
  next
    fix k source destination p fin amount resp
    assume "transfer_request_ok P headers request d k source destination p fin amount"
      and "transfer_posted P st amb c k fin p source destination amount d d' resp"
    from transfer_posted_ledger [OF assms(2) this] sch assms(2) show ?thesis
      by (simp add: ledger_ok_def)
  qed
qed

interpretation transfer: ledger_operation transfer_change
  by unfold_locales (use transfer_change_keeps in blast)+

section \<open>The undisturbed run as a decision\<close>

text \<open>
  Reference: the decision the owner of a key takes, as a function of the database.  Its branches
  are the handler's checks in the handler's order.
\<close>

definition fx_decision ::
  "FinancialOperation \<Rightarrow> Preliminary \<Rightarrow> timestamp \<Rightarrow> Database \<Rightarrow> AppError + (ExchangeRate \<times> FeeRule) option" where
  "fx_decision fin p now d =
     (if fin = Operation_FxTransfer then
        (case chosen_rate (pre_source_currency p) (pre_destination_currency p) now d of
           Inl e \<Rightarrow> Inl (transfer_configuration_error e)
         | Inr rate \<Rightarrow>
             (case chosen_fee (pre_source_currency p) (pre_destination_currency p) now d of
                Inl e \<Rightarrow> Inl (transfer_configuration_error e)
              | Inr fee \<Rightarrow> Inr (Some (rate, fee))))
      else Inr None)"

definition transfer_decision ::
  "string \<Rightarrow> FinancialOperation \<Rightarrow> Preliminary \<Rightarrow> timestamp \<Rightarrow> uuid \<Rightarrow> uuid \<Rightarrow> i64 \<Rightarrow> Database
    \<Rightarrow> AppError + (AccountRow \<times> AccountRow \<times> TransferAmounts \<times> i64 \<times> i64)" where
  "transfer_decision client_id fin p now source destination amount d =
     (case fx_decision fin p now d of
        Inl e \<Rightarrow> Inl e
      | Inr fx \<Rightarrow>
          (case (find_by acc_id source (accounts d), find_by acc_id destination (accounts d)) of
             (Some a, Some b) \<Rightarrow>
               (case check_participants client_id p (locked_account a) (locked_account b) of
                  Inl e \<Rightarrow> Inl e
                | Inr _ \<Rightarrow>
                    (case transfer_amounts amount fx (locked_account a) (locked_account b) of
                       Inl e \<Rightarrow> Inl e
                     | Inr ta \<Rightarrow>
                         (case transfer_balances (locked_account a) (locked_account b) ta of
                            Inl e \<Rightarrow> Inl e
                          | Inr (sb, db) \<Rightarrow> Inr (a, b, ta, sb, db))))
           | _ \<Rightarrow> Inl AccountUnavailable))"

lemma transfer_decision_Inr:
  "transfer_decision c fin p now source destination amount d = Inr (a, b, ta, sb, db)
   \<longleftrightarrow> transfer_computed c fin p now source destination amount d a b ta sb db"
  by (auto simp: transfer_decision_def transfer_computed_def fx_decision_def
      split: sum.splits option.splits if_splits prod.splits)

lemma fx_configuration_fine:
  assumes "fates s = []"
  shows "fx_configuration fin p t s =
    ((case fx_decision fin p t (work s) of Inl e \<Rightarrow> Inl (Fail e) | Inr fx \<Rightarrow> Inr fx), s)"
  using assms
  by (simp add: fx_configuration_def fx_decision_def tx_bind_def map_err_def
      select_exchange_rate_fine select_fee_rule_fine from_result_def tx_return_def tx_throw_def
      map_fault_def split: sum.splits)

lemma lock_accounts_fine:
  assumes "fates s = []" and "source \<noteq> destination"
    and keys: "distinct (map acc_id (accounts (work s)))"
  shows "lock_accounts source destination s =
    ((case (find_by acc_id source (accounts (work s)), find_by acc_id destination (accounts (work s))) of
        (Some a, Some b) \<Rightarrow> Inr (locked_account a, locked_account b)
      | _ \<Rightarrow> Inl (Fail AccountUnavailable)), s)"
proof -
  let ?rows = "order_by_id acc_id (filter (\<lambda>r. acc_id r \<in> {source, destination}) (accounts (work s)))"
  have len: "length ?rows = 2 \<longleftrightarrow>
      (\<exists>x y. find_by acc_id source (accounts (work s)) = Some x
           \<and> find_by acc_id destination (accounts (work s)) = Some y)"
    using filter_two_keys [OF keys assms(2)] by simp
  have find: "find (\<lambda>a. la_id a = k) (map locked_account ?rows)
      = map_option locked_account (find_by acc_id k (accounts (work s)))"
    if "k \<in> {source, destination}" for k
    using find_in_selection [OF keys that, of acc_id] by (simp only: find_locked) (simp add: find_by_def)
  have sel: "run_statement (select_accounts_for_update [source, destination]) s = (Inr ?rows, s)"
    using assms(1) by (simp add: map_err_def execute_fine select_accounts_for_update_def)
  show ?thesis
  proof (cases "length ?rows = 2")
    case True
    then obtain x y where "find_by acc_id source (accounts (work s)) = Some x"
      "find_by acc_id destination (accounts (work s)) = Some y" using len by blast
    then show ?thesis
      using True find [of source] find [of destination]
      by (simp add: lock_accounts_def tx_bind_def sel Let_def tx_then_def ensure_def
          tx_return_def tx_expect_def del: length_order_by_id)
  next
    case False
    then show ?thesis
      using len
      by (auto simp: lock_accounts_def tx_bind_def sel Let_def tx_then_def ensure_def
          tx_throw_def split: option.splits simp del: length_order_by_id)
  qed
qed

section \<open>The undisturbed run\<close>

lemma chosen_rate_Inr:
  assumes "chosen_rate src dst t d = Inr rate"
  shows "\<exists>r \<in> set (exchange_rates d). rate = rate_columns r \<and> rate_applies src dst t r"
proof -
  obtain r where "filter (rate_applies src dst t) (exchange_rates d) = [r]" "rate = rate_columns r"
    using assms by (auto simp: chosen_rate_def unique_row_def split: list.splits)
  then have "r \<in> set (filter (rate_applies src dst t) (exchange_rates d))" by simp
  then show ?thesis using \<open>rate = rate_columns r\<close> by auto
qed

text \<open>The amounts of a computed transfer satisfy the constraints of its row.\<close>

lemma computed_amounts:
  assumes comp: "transfer_computed c fin p now source destination amount d a b ta sb db"
    and cls: "classify_transfer p = Inr fin" and "schema_ok d" and pos: "0 < sint amount"
  shows "0 < sint (ta_destination ta)" and "0 \<le> sint (ta_fee ta)" and "0 < sint (ta_debit ta)"
    and "case ta_rate ta of None \<Rightarrow> True | Some s \<Rightarrow> cast_numeric s \<noteq> None"
    and "case ta_rate_id ta of None \<Rightarrow> True | Some q \<Rightarrow> find_by ra_id q (exchange_rates d) \<noteq> None"
proof -
  have "0 < sint (ta_destination ta) \<and> 0 \<le> sint (ta_fee ta) \<and> 0 < sint (ta_debit ta)
    \<and> (case ta_rate ta of None \<Rightarrow> True | Some s \<Rightarrow> cast_numeric s \<noteq> None)
    \<and> (case ta_rate_id ta of None \<Rightarrow> True | Some q \<Rightarrow> find_by ra_id q (exchange_rates d) \<noteq> None)"
  proof (cases "fin = Operation_FxTransfer")
    case False
    then show ?thesis
      using comp pos by (auto simp: transfer_computed_def transfer_amounts_def)
  next
    case True
    then obtain rate fee where
      rate: "chosen_rate (pre_source_currency p) (pre_destination_currency p) now d = Inr rate" and
      amts: "transfer_amounts amount (Some (rate, fee)) (locked_account a) (locked_account b) = Inr ta"
      using comp by (auto simp: transfer_computed_def)
    obtain r where r: "r \<in> set (exchange_rates d)" "rate = rate_columns r"
      using chosen_rate_Inr [OF rate] by blast
    then have chk: "0 < ra_rate r" "ra_rate r < 10 ^ 30"
      using assms(3) by (auto simp: schema_ok_def checks_ok_def list_all_iff rate_check_def)
    have er: "er_rate rate = numeric_text (ra_rate r)" "er_id rate = ra_id r"
      by (simp_all add: r rate_columns_def)
    have parse: "parse_exact_rate (er_rate rate) = Inr \<lparr>coefficient = ra_rate r, rate_scale = 12\<rparr>"
      using parse_numeric_text [OF chk] by (simp add: er)
    from amts obtain calc dest where
      calc: "calculate_fee amount (fee_bps fee) = Inr calc" and
      dest: "calculate_destination amount (ucast (currency_scale a)) (ucast (currency_scale b))
        \<lparr>coefficient = ra_rate r, rate_scale = 12\<rparr> = Inr dest" and
      ta: "ta_destination ta = dest" "ta_fee ta = fee_minor calc"
        "ta_debit ta = total_source_debit_minor calc" "ta_rate ta = Some (er_rate rate)"
        "ta_rate_id ta = Some (er_id rate)"
      by (auto simp: transfer_amounts_def parse split: sum.splits)
    have "0 \<le> sint (fee_minor calc)"
      using calc fee_le_source(1) by (auto simp: calculate_fee_Inr)
    moreover have "0 < sint (total_source_debit_minor calc)"
      using calculate_fee_total [OF calc] calculation pos by simp
    moreover have "0 < sint dest"
      using dest chk(1) by (simp add: calculate_destination_Inr)
    moreover have "cast_numeric (er_rate rate) \<noteq> None"
      using cast_numeric_text [OF chk] by (simp add: er)
    moreover have "find_by ra_id (ra_id r) (exchange_rates d) \<noteq> None"
      using r(1) by (auto simp: find_by_None_iff)
    ultimately show ?thesis by (simp add: ta er)
  qed
  then show "0 < sint (ta_destination ta)" "0 \<le> sint (ta_fee ta)" "0 < sint (ta_debit ta)"
    "case ta_rate ta of None \<Rightarrow> True | Some s \<Rightarrow> cast_numeric s \<noteq> None"
    "case ta_rate_id ta of None \<Rightarrow> True | Some q \<Rightarrow> find_by ra_id q (exchange_rates d) \<noteq> None"
    by blast+
qed

lemma new_transfer_inserts:
  assumes comp: "transfer_computed c fin p now source destination amount d a b ta sb db"
    and cls: "classify_transfer p = Inr fin" and "schema_ok d" and "0 < sint amount"
    and "nonblank c" and "fresh_ids amb d" and ne: "source \<noteq> destination"
  shows "\<exists>d1. insert_transfer (new_transfer amb c a b amount ta) d = Inr ((), d1)"
proof -
  note am = computed_amounts [OF assms(1-4)]
  have find: "find_by acc_id source (accounts d) = Some a" "find_by acc_id destination (accounts d) = Some b"
    and ids: "acc_id a = source" "acc_id b = destination"
    using comp by (auto simp: transfer_computed_def find_acc_id)
  have "account_check a" "account_check b"
    using find assms(3) by (auto intro: schema_account_check)
  then have "transfer_check (new_transfer amb c a b amount ta)"
    using am assms(4,5) ne ids by (simp add: transfer_check_def account_check_def)
  moreover have "tr_exchange_rate_id (new_transfer amb c a b amount ta) = ta_rate_id ta"
    by (simp add: new_transfer_def transfer_row_def)
  ultimately show ?thesis
    using am(5) assms(6) find ids
    by (auto simp: insert_transfer_def fresh_ids_def split: option.splits)
qed

lemma transfer_response_total:
  assumes "account_check a" and "account_check b"
  shows "\<exists>body. \<forall>s. transfer_response P t (locked_account a) (locked_account b) s = (Inr body, s)"
proof -
  define f where "f m r = the (format_minor_units m (ucast (currency_scale r) :: u8))" for m and r :: AccountRow
  have "format_minor_units m (ucast (currency_scale r) :: u8) = Some (f m r)" if "account_check r" for m r
    using format_minor_units_total [OF ucast_scale [OF that], of m] by (auto simp: f_def)
  note f = this [OF assms(1)] this [OF assms(2)]
  show ?thesis
    by (auto simp: transfer_response_def Let_def tx_bind_def format_amount_def tx_expect_def
        tx_return_def f)
qed

lemma post_transfer_fine:
  assumes fine: "fates s = []" and schema: "schema_ok (work s)" and ne: "source \<noteq> destination"
    and cls: "classify_transfer p = Inr fin" and pos: "0 < sint amount" and c: "nonblank c"
    and recs: "idempotency_records (work s) = rs @
      [reservation_row (tx_time amb) retention (c, operation_type fin, k) fp]"
    and new: "find_by idem_row_key (c, operation_type fin, k) rs = None"
    and chk: "idempotency_check (reservation_row (tx_time amb) retention (c, operation_type fin, k) fp)"
    and ids: "fresh_ids amb (work s)" and ver: "versions_ok (work s)"
  shows "case transfer_decision c fin p (tx_time amb) source destination amount (work s) of
      Inl e \<Rightarrow> post_transfer P amb c k fin p source destination amount s = (Inl (Fail e), s)
    | Inr (a, b, ta, sb, db) \<Rightarrow>
        \<exists>body. (\<forall>s. fst (transfer_response P (new_transfer amb c a b amount ta)
              (locked_account a) (locked_account b) s) = Inr body)
          \<and> post_transfer P amb c k fin p source destination amount s =
             (Inr \<lparr>resp_status = 201, resp_body = body\<rparr>,
              s\<lparr>work := (apply_posting (tx_time amb) (new_transfer amb c a b amount ta)
                 [(source, sb), (destination, db)]
                 (transfer_entries amb (new_transfer amb c a b amount ta)) (work s))
                 \<lparr>idempotency_records := rs @
                   [completed_row (tx_time amb) retention (c, operation_type fin, k) fp 201 body
                      (new_v4 amb 0)]\<rparr>\<rparr>)"
proof -
  have keys: "distinct (map acc_id (accounts (work s)))"
    using schema by (simp add: schema_ok_def keys_ok_def)
  note stages = fx_configuration_fine [OF fine] lock_accounts_fine [OF fine ne keys]
  show ?thesis
  proof (cases "transfer_decision c fin p (tx_time amb) source destination amount (work s)")
    case (Inl e)
    then show ?thesis
      using fine
      by (auto simp: post_transfer_def tx_bind_def map_err_def execute_fine stages
          transfer_decision_def tx_then_def from_result_def tx_return_def tx_throw_def
          split: sum.splits option.splits prod.splits)
  next
    case (Inr v)
    obtain a b ta sb db where v: "v = (a, b, ta, sb, db)" by (cases v)
    have comp: "transfer_computed c fin p (tx_time amb) source destination amount (work s) a b ta sb db"
      using Inr by (simp add: v transfer_decision_Inr)
    let ?t = "new_transfer amb c a b amount ta"
    have find: "find_by acc_id source (accounts (work s)) = Some a"
      "find_by acc_id destination (accounts (work s)) = Some b"
      and accs: "acc_id a = source" "acc_id b = destination"
      using comp by (auto simp: transfer_computed_def find_acc_id)
    have acc_chk: "account_check a" "account_check b"
      using find schema by (auto intro: schema_account_check)
    note am = computed_amounts [OF comp cls schema pos]
    have cast: "cast_rate (ta_rate ta) s0
        = (Inr (case ta_rate ta of None \<Rightarrow> None | Some r \<Rightarrow> cast_numeric r), s0)" for s0
      using am(4) by (auto simp: cast_rate_def tx_bind_def ok_or_def tx_return_def
          split: option.splits)
    have row: "transfer_row amb c (locked_account a) (locked_account b) amount ta
        (case ta_rate ta of None \<Rightarrow> None | Some r \<Rightarrow> cast_numeric r) = ?t"
      by (simp add: new_transfer_def)
    obtain x y where es: "transfer_entries amb ?t = [x, y]" "en_id x = new_v4 amb 1"
      "en_id y = new_v4 amb 2" and pair: "entry_pair ?t x y"
      and xy: "entry_check x" "entry_check y"
      using am acc_chk pos ne accs
      by (auto simp: transfer_entries_def Let_def entry_pair_def entry_check_def account_check_def)
    have vs: "sint (acc_version a) < i64_max" "sint (acc_version b) < i64_max"
      using ver find by (auto simp: versions_ok_def list_all_iff dest: find_by_SomeD)
    have post: "record_posting (tx_time amb) ?t [(source, sb), (destination, db)] [x, y] s =
      (Inr (), s\<lparr>work := apply_posting (tx_time amb) ?t [(source, sb), (destination, db)] [x, y] (work s)\<rparr>)"
      using ids pair accs es(2,3)
      by (intro record_posting_fine [OF fine schema
            new_transfer_inserts [OF comp cls schema pos c ids ne] ne find(1) vs(1) find(2) vs(2) xy])
         (auto simp: fresh_ids_def find_by_None_iff entry_pair_def)
    obtain body where body: "\<And>s. transfer_response P ?t (locked_account a) (locked_account b) s = (Inr body, s)"
      using transfer_response_total [OF acc_chk, of P ?t] by blast
    have "idempotency_check (completed_row (tx_time amb) retention (c, operation_type fin, k) fp 201 body u)" for u
      using chk by (rule completed_check) simp_all
    note store = store_success_fine [OF _ _ new this]
    have "post_transfer P amb c k fin p source destination amount s =
             (Inr \<lparr>resp_status = 201, resp_body = body\<rparr>,
              s\<lparr>work := (apply_posting (tx_time amb) ?t [(source, sb), (destination, db)] [x, y] (work s))
                 \<lparr>idempotency_records := rs @
                   [completed_row (tx_time amb) retention (c, operation_type fin, k) fp 201 body
                      (new_v4 amb 0)]\<rparr>\<rparr>)"
      using Inr fine
      by (auto simp: post_transfer_def tx_bind_def map_err_def execute_fine stages
          transfer_decision_def tx_then_def from_result_def tx_return_def tx_throw_def v
          cast row es post body store recs Let_def find
          split: sum.splits option.splits prod.splits)
    then show ?thesis by (simp add: Inr v es body)
  qed
qed

definition transfer_request_decision ::
  "Platform \<Rightarrow> HeaderMap \<Rightarrow> CreateTransferRequest option \<Rightarrow> Database
    \<Rightarrow> AppError + (string \<times> uuid \<times> uuid \<times> Preliminary \<times> FinancialOperation \<times> i64)" where
  "transfer_request_decision P headers request d =
     (case validate_transfer P headers request of
        Inl e \<Rightarrow> Inl e
      | Inr (k, req, source, destination) \<Rightarrow>
          (case (find_by acc_id source (accounts d), find_by acc_id destination (accounts d)) of
             (Some a, Some b) \<Rightarrow>
               (case classify_transfer (preliminary_of a b) of
                  Inl e \<Rightarrow> Inl e
                | Inr fin \<Rightarrow>
                    (case transfer_amount (preliminary_of a b) (ctr_amount req) of
                       Inl e \<Rightarrow> Inl e
                     | Inr amount \<Rightarrow> Inr (k, source, destination, preliminary_of a b, fin, amount)))
           | _ \<Rightarrow> Inl AccountUnavailable))"

lemma create_transfer_enter:
  assumes fine: "fates s = []"
    and val: "validate_transfer P headers request = Inr (k, req, source, destination)"
  shows "\<exists>s0. fates s0 = [] \<and> work s0 = committed s \<and> committed s0 = committed s
    \<and> create_transfer P st amb c headers request s =
       (case (find_by acc_id source (accounts (committed s)), find_by acc_id destination (accounts (committed s))) of
          (Some a, Some b) \<Rightarrow>
            (case classify_transfer (preliminary_of a b) of
               Inl e \<Rightarrow> (Inl (Fail e), drop_transaction s0)
             | Inr fin \<Rightarrow> run_observed fin
                 (transfer_body P st amb c k fin (preliminary_of a b) source destination (ctr_amount req)) s0)
        | _ \<Rightarrow> (Inl (Fail AccountUnavailable), drop_transaction s0))"
proof -
  let ?s0 = "s\<lparr>emitted := emitted s @ record_transfer_pool_acquire Pool_Success, work := committed s\<rparr>"
  have "create_transfer P st amb c headers request s =
       (case (find_by acc_id source (accounts (committed s)), find_by acc_id destination (accounts (committed s))) of
          (Some a, Some b) \<Rightarrow>
            (case classify_transfer (preliminary_of a b) of
               Inl e \<Rightarrow> (Inl (Fail e), drop_transaction ?s0)
             | Inr fin \<Rightarrow> run_observed fin
                 (transfer_body P st amb c k fin (preliminary_of a b) source destination (ctr_amount req)) ?s0)
        | _ \<Rightarrow> (Inl (Fail AccountUnavailable), drop_transaction ?s0))"
    using fine
    by (simp add: create_transfer_def val tx_bind_def from_result_def tx_return_def tx_throw_def
        pool_acquire_fine map_err_def begin_transaction_fine execute_fine select_preliminary_def
        ok_or_def split: option.splits sum.splits)
  then show ?thesis by (intro exI [of _ ?s0]) (simp add: fine)
qed


text \<open>
  The whole undisturbed run: rejected before the transaction, answered from the record, refused
  as a conflict, rejected by the decision, or posted.
\<close>

definition transfer_outcome ::
  "Platform \<Rightarrow> AppState \<Rightarrow> Ambient \<Rightarrow> string \<Rightarrow> HeaderMap \<Rightarrow> CreateTransferRequest option
    \<Rightarrow> Database \<Rightarrow> (AppError fault + Response) \<Rightarrow> Database \<Rightarrow> bool" where
  "transfer_outcome P st amb c headers request d r d' \<longleftrightarrow>
     (case transfer_request_decision P headers request d of
        Inl e \<Rightarrow> r = Inl (Fail e) \<and> d' = d
      | Inr (k, source, destination, p, fin, amount) \<Rightarrow>
          (let fp = transfer_fingerprint P source destination (pre_source_currency p) amount in
           case record_store.answer d (c, operation_type fin, k) fp of
             Fresh \<Rightarrow>
               (case transfer_decision c fin p (tx_time amb) source destination amount d of
                  Inl e \<Rightarrow> r = Inl (Fail e) \<and> d' = d
                | Inr (a, b, ta, sb, db) \<Rightarrow>
                    (\<exists>body. (\<forall>s. fst (transfer_response P (new_transfer amb c a b amount ta)
                                   (locked_account a) (locked_account b) s) = Inr body)
                      \<and> r = Inr \<lparr>resp_status = 201, resp_body = body\<rparr>
                      \<and> d' = transfer_applied amb (new_transfer amb c a b amount ta) sb db
                          (completed_row (tx_time amb) (idempotency_retention st)
                             (c, operation_type fin, k) fp 201 body (new_v4 amb 0)) d))
           | Replayed (status, body) \<Rightarrow>
               r = (case stored_status P status of
                      Inl e \<Rightarrow> Inl (Fail e)
                    | Inr n \<Rightarrow> Inr \<lparr>resp_status = n, resp_body = body\<rparr>) \<and> d' = d
           | Conflicting \<Rightarrow> r = Inl (Fail IdempotencyConflict) \<and> d' = d
           | Pending \<Rightarrow> False))"

lemma operation_type_nonblank [simp]: "nonblank (operation_type fin)"
  by (cases fin) (simp_all add: operation_type_def)

lemma validate_transfer_key:
  "validate_transfer P headers request = Inr (k, req, source, destination) \<Longrightarrow> valid_key k"
  by (auto simp: validate_transfer_def intro: from_headers_valid
      split: sum.splits option.splits if_splits)

lemma transfer_amount_pos: "transfer_amount p input = Inr amount \<Longrightarrow> 0 < sint amount"
  by (auto simp: transfer_amount_def split: sum.splits if_splits)

lemma transfer_body_fine:
  assumes fine: "fates s = []" and plat: "platform_ok P" and schema: "schema_ok (work s)"
    and c: "nonblank c" and ret: "retention_ok st amb" and ids: "fresh_ids amb (work s)"
    and ver: "versions_ok (work s)" and k: "valid_key k" and ne: "source \<noteq> destination"
    and cls: "classify_transfer p = Inr fin" and amt: "transfer_amount p input = Inr amount"
    and fp: "fp = transfer_fingerprint P source destination (pre_source_currency p) amount"
  shows "case record_store.answer (work s) (c, operation_type fin, k) fp of
      Fresh \<Rightarrow>
        (case transfer_decision c fin p (tx_time amb) source destination amount (work s) of
           Inl e \<Rightarrow> \<exists>s1. fates s1 = [] \<and> committed s1 = committed s \<and>
             transfer_body P st amb c k fin p source destination input s = (Inl (Fail e), s1)
         | Inr (a, b, ta, sb, db) \<Rightarrow> \<exists>s1 body. fates s1 = []
             \<and> (\<forall>s. fst (transfer_response P (new_transfer amb c a b amount ta)
                   (locked_account a) (locked_account b) s) = Inr body)
             \<and> transfer_body P st amb c k fin p source destination input s
                 = (Inr \<lparr>resp_status = 201, resp_body = body\<rparr>, s1)
             \<and> work s1 = transfer_applied amb (new_transfer amb c a b amount ta) sb db
                 (completed_row (tx_time amb) (idempotency_retention st)
                    (c, operation_type fin, k) fp 201 body (new_v4 amb 0)) (work s))
    | Replayed (status, body) \<Rightarrow> \<exists>s1. fates s1 = [] \<and> work s1 = work s \<and> committed s1 = committed s
        \<and> transfer_body P st amb c k fin p source destination input s =
          ((case stored_status P status of
              Inl e \<Rightarrow> Inl (Fail e) | Inr n \<Rightarrow> Inr \<lparr>resp_status = n, resp_body = body\<rparr>), s1)
    | Conflicting \<Rightarrow> (\<not> (\<exists>r \<in> set (idempotency_records (work s)). \<not> record_complete r) \<longrightarrow>
        (\<exists>s1. fates s1 = [] \<and> committed s1 = committed s
        \<and> transfer_body P st amb c k fin p source destination input s =
          (Inl (Fail IdempotencyConflict), s1)))
    | Pending \<Rightarrow> True"
proof -
  let ?k = "(c, operation_type fin, k)"
  let ?ror = "replay_or_reserve P fin (tx_time amb) (idempotency_retention st) c (operation_type fin) k fp"
  have body: "transfer_body P st amb c k fin p source destination input s =
      (case ?ror s of (Inl e, s') \<Rightarrow> (Inl e, s')
       | (Inr (Some response), s') \<Rightarrow> (Inr response, s')
       | (Inr None, s') \<Rightarrow> post_transfer P amb c k fin p source destination amount s')"
    by (simp add: transfer_body_def amt tx_bind_def from_result_def tx_return_def fp
        split: prod.split sum.split option.split)
  have pos: "0 < sint amount" using amt by (rule transfer_amount_pos)
  show ?thesis
  proof (cases "record_store.answer (work s) ?k fp")
    case Pending
    then show ?thesis by simp
  next
    case (Replayed p')
    obtain status b where p': "p' = (status, b)" by (cases p')
    have "stored_record (work s) ?k = Some (fp, Some (status, b))"
      using Replayed by (simp add: p' answer_Replayed_iff)
    from replay_or_reserve_done [OF fine this, of P fin "tx_time amb" "idempotency_retention st" fp]
    show ?thesis
      using fine by (auto simp: Replayed p' body split: sum.split)
  next
    case Conflicting
    have "\<exists>s1. fates s1 = [] \<and> committed s1 = committed s
        \<and> transfer_body P st amb c k fin p source destination input s =
          (Inl (Fail IdempotencyConflict), s1)"
      if "\<forall>r \<in> set (idempotency_records (work s)). record_complete r"
    proof -
      obtain g r where g: "stored_record (work s) ?k = Some (g, r)" "g \<noteq> fp"
        using Conflicting by (auto simp: answer_Conflicting_iff)
      then obtain row where row: "find_by idem_row_key ?k (idempotency_records (work s)) = Some row"
        "r = (case (http_status row, response_body row) of (Some s, Some b) \<Rightarrow> Some (s, b) | _ \<Rightarrow> None)"
        by (auto simp: stored_record_def)
      have "record_complete row" using that find_by_SomeD [OF row(1)] by blast
      then obtain st' b where "r = Some (st', b)"
        using row(2) by (auto simp: record_complete_def)
      with g have "stored_record (work s) ?k = Some (g, Some (st', b))" by simp
      from replay_or_reserve_done [OF fine this, of P fin "tx_time amb" "idempotency_retention st" fp] g
      show ?thesis using fine by (auto simp: body)
    qed
    then show ?thesis by (auto simp: Conflicting)
  next
    case Fresh
    have new: "find_by idem_row_key ?k (idempotency_records (work s)) = None"
      using Fresh by (simp add: answer_Fresh_iff)
    have chk: "idempotency_check (reservation_row (tx_time amb) (idempotency_retention st) ?k fp)"
      unfolding fp transfer_fingerprint_def using plat c k ret by (intro reservation_check) simp_all
    let ?d1 = "claim_record (tx_time amb) (idempotency_retention st) ?k fp (work s)"
    obtain s1 where s1: "?ror s = (Inr None, s1)" "fates s1 = []" "work s1 = ?d1" "committed s1 = committed s"
      using replay_or_reserve_fresh [OF fine new _ _ chk, of P fin] ret fine
      by (auto simp: retention_ok_def)
    have "insert_idempotency (reservation_row (tx_time amb) (idempotency_retention st) ?k fp) (work s)
        = Inr (1, ?d1)"
      using chk new by (simp add: insert_idempotency_def claim_record_def insert_idempotency_row_def)
    then have schema1: "schema_ok (work s1)"
      using schema insert_idempotency_schema by (metis s1(3))
    have dec: "transfer_decision c fin p (tx_time amb) source destination amount (work s1)
        = transfer_decision c fin p (tx_time amb) source destination amount (work s)"
      unfolding s1(3) transfer_decision_def fx_decision_def chosen_rate_def chosen_fee_def
        claim_record_simps ..
    have recs: "idempotency_records (work s1) = idempotency_records (work s) @
        [reservation_row (tx_time amb) (idempotency_retention st) ?k fp]"
      by (simp add: s1(3))
    have "fresh_ids amb (work s1)" "versions_ok (work s1)"
      using ids ver by (simp_all add: s1(3) fresh_ids_def versions_ok_def)
    note post = post_transfer_fine [OF s1(2) schema1 ne cls pos c recs new chk this, of P, unfolded dec]
    show ?thesis
    proof (cases "transfer_decision c fin p (tx_time amb) source destination amount (work s)")
      case (Inl e)
      then show ?thesis using post s1 by (simp add: Fresh body)
    next
      case (Inr v)
      obtain a b ta sb db where v: "v = (a, b, ta, sb, db)" by (cases v)
      have "transfer_computed c fin p (tx_time amb) source destination amount (work s) a b ta sb db"
        using Inr by (simp add: v transfer_decision_Inr)
      then have accs: "acc_id a = source" "acc_id b = destination"
        by (auto simp: transfer_computed_def find_acc_id)
      from post Inr v obtain body where
        resp: "\<forall>s. fst (transfer_response P (new_transfer amb c a b amount ta)
              (locked_account a) (locked_account b) s) = Inr body" and
        run: "post_transfer P amb c k fin p source destination amount s1 =
             (Inr \<lparr>resp_status = 201, resp_body = body\<rparr>,
              s1\<lparr>work := (apply_posting (tx_time amb) (new_transfer amb c a b amount ta)
                 [(source, sb), (destination, db)]
                 (transfer_entries amb (new_transfer amb c a b amount ta)) (work s1))
                 \<lparr>idempotency_records := idempotency_records (work s) @
                   [completed_row (tx_time amb) (idempotency_retention st) ?k fp 201 body
                      (new_v4 amb 0)]\<rparr>\<rparr>)"
        by auto
      have "(apply_posting (tx_time amb) (new_transfer amb c a b amount ta)
                 [(source, sb), (destination, db)]
                 (transfer_entries amb (new_transfer amb c a b amount ta)) (work s1))
                 \<lparr>idempotency_records := idempotency_records (work s) @
                   [completed_row (tx_time amb) (idempotency_retention st) ?k fp 201 body
                      (new_v4 amb 0)]\<rparr>
          = transfer_applied amb (new_transfer amb c a b amount ta) sb db
                 (completed_row (tx_time amb) (idempotency_retention st) ?k fp 201 body
                      (new_v4 amb 0)) (work s)"
        by (simp add: transfer_applied_def accs apply_posting_def s1(3) claim_record_def
            insert_idempotency_row_def)
      then show ?thesis
        using resp run s1 by (simp add: Fresh Inr v body)
    qed
  qed
qed

lemma create_transfer_outcome:
  assumes fine: "fates s = []" and plat: "platform_ok P" and led: "ledger_ok (committed s)"
    and c: "nonblank c" and ret: "retention_ok st amb" and ids: "fresh_ids amb (committed s)"
    and ver: "versions_ok (committed s)"
  shows "transfer_outcome P st amb c headers request (committed s)
     (fst (create_transfer P st amb c headers request s))
     (committed (snd (create_transfer P st amb c headers request s)))"
proof (cases "validate_transfer P headers request")
  case (Inl e)
  then show ?thesis
    by (simp add: transfer_outcome_def transfer_request_decision_def create_transfer_def
        tx_bind_def from_result_def tx_throw_def)
next
  case (Inr v)
  obtain k req source destination where v: "v = (k, req, source, destination)" by (cases v)
  note val = Inr [unfolded v]
  obtain s0 where s0: "fates s0 = []" "work s0 = committed s" "committed s0 = committed s"
    and run: "create_transfer P st amb c headers request s =
       (case (find_by acc_id source (accounts (committed s)), find_by acc_id destination (accounts (committed s))) of
          (Some a, Some b) \<Rightarrow>
            (case classify_transfer (preliminary_of a b) of
               Inl e \<Rightarrow> (Inl (Fail e), drop_transaction s0)
             | Inr fin \<Rightarrow> run_observed fin
                 (transfer_body P st amb c k fin (preliminary_of a b) source destination (ctr_amount req)) s0)
        | _ \<Rightarrow> (Inl (Fail AccountUnavailable), drop_transaction s0))"
    using create_transfer_enter [OF fine val] by blast
  show ?thesis
  proof (cases "transfer_request_decision P headers request (committed s)")
    case (Inl e)
    show ?thesis
    proof (cases "\<exists>a b fin. find_by acc_id source (accounts (committed s)) = Some a
        \<and> find_by acc_id destination (accounts (committed s)) = Some b
        \<and> classify_transfer (preliminary_of a b) = Inr fin")
      case False
      then show ?thesis
        using Inl s0 by (auto simp: transfer_outcome_def run val drop_transaction_def
            transfer_request_decision_def split: option.splits sum.splits)
    next
      case True
      then obtain a b fin where ab: "find_by acc_id source (accounts (committed s)) = Some a"
        "find_by acc_id destination (accounts (committed s)) = Some b"
        "classify_transfer (preliminary_of a b) = Inr fin" by blast
      then have amt: "transfer_amount (preliminary_of a b) (ctr_amount req) = Inl e"
        using Inl by (auto simp: transfer_request_decision_def val split: sum.splits)
      have "transfer_body P st amb c k fin (preliminary_of a b) source destination (ctr_amount req) s0
          = (Inl (Fail e), s0)"
        by (simp add: transfer_body_def amt tx_bind_def from_result_def tx_throw_def)
      from run_observed_fine [where body = "transfer_body P st amb c k fin (preliminary_of a b)
          source destination (ctr_amount req)", OF s0(1) this s0(1), of fin]
      show ?thesis using Inl s0 by (simp add: transfer_outcome_def run ab)
    qed
  next
    case (Inr w)
    then obtain a b fin amount where ab: "find_by acc_id source (accounts (committed s)) = Some a"
      "find_by acc_id destination (accounts (committed s)) = Some b"
      and cls: "classify_transfer (preliminary_of a b) = Inr fin"
      and amt: "transfer_amount (preliminary_of a b) (ctr_amount req) = Inr amount"
      and w: "w = (k, source, destination, preliminary_of a b, fin, amount)"
      by (auto simp: transfer_request_decision_def val split: option.splits sum.splits)
    let ?p = "preliminary_of a b"
    let ?fp = "transfer_fingerprint P source destination (pre_source_currency ?p) amount"
    let ?body = "transfer_body P st amb c k fin ?p source destination (ctr_amount req)"
    have schema: "schema_ok (work s0)" and ids0: "fresh_ids amb (work s0)"
      and ver0: "versions_ok (work s0)"
      using led ids ver by (simp_all add: s0 ledger_ok_def)
    have complete: "\<forall>r \<in> set (idempotency_records (committed s)). record_complete r"
      using led by (simp add: ledger_ok_def list_all_iff)
    note body = transfer_body_fine [OF s0(1) plat schema c ret ids0 ver0 validate_transfer_key [OF val]
        validate_transfer_ne [OF val] cls amt refl, unfolded s0(2)]
    have obs: "create_transfer P st amb c headers request s = run_observed fin ?body s0"
      by (simp add: run ab cls)
    note fineb = run_observed_fine [where body = ?body and fin = fin, OF s0(1)]
    show ?thesis
    proof (cases "record_store.answer (committed s) (c, operation_type fin, k) ?fp")
      case Fresh
      show ?thesis
      proof (cases "transfer_decision c fin ?p (tx_time amb) source destination amount (committed s)")
        case (Inl e)
        then obtain s1 where "fates s1 = []" "committed s1 = committed s" "?body s0 = (Inl (Fail e), s1)"
          using body Fresh s0 by auto
        with fineb [of "Inl (Fail e)" s1] show ?thesis
          by (simp add: transfer_outcome_def Inr w Let_def Fresh Inl obs)
      next
        case dec: (Inr x)
        obtain a' b' ta sb db where x: "x = (a', b', ta, sb, db)" by (cases x)
        from body Fresh dec x obtain s1 bd where
          "fates s1 = []"
          "\<forall>s. fst (transfer_response P (new_transfer amb c a' b' amount ta)
              (locked_account a') (locked_account b') s) = Inr bd"
          "?body s0 = (Inr \<lparr>resp_status = 201, resp_body = bd\<rparr>, s1)"
          "work s1 = transfer_applied amb (new_transfer amb c a' b' amount ta) sb db
             (completed_row (tx_time amb) (idempotency_retention st)
                (c, operation_type fin, k) ?fp 201 bd (new_v4 amb 0)) (committed s)"
          by auto
        with fineb [of "Inr \<lparr>resp_status = 201, resp_body = bd\<rparr>" s1] show ?thesis
          by (auto simp: transfer_outcome_def Inr w Let_def Fresh dec x obs intro!: exI [of _ bd])
      qed
    next
      case Pending
      then show ?thesis using ledger_never_pending [OF led] by blast
    next
      case (Replayed q)
      obtain status b' where q: "q = (status, b')" by (cases q)
      from body Replayed q obtain s1 where
        "fates s1 = []" "work s1 = committed s" "committed s1 = committed s0"
        "?body s0 = ((case stored_status P status of
              Inl e \<Rightarrow> Inl (Fail e) | Inr n \<Rightarrow> Inr \<lparr>resp_status = n, resp_body = b'\<rparr>), s1)"
        by auto
      with fineb [of "case stored_status P status of
              Inl e \<Rightarrow> Inl (Fail e) | Inr n \<Rightarrow> Inr \<lparr>resp_status = n, resp_body = b'\<rparr>" s1] s0 show ?thesis
        by (auto simp: transfer_outcome_def Inr w Let_def Replayed q obs split: sum.splits)
    next
      case Conflicting
      then obtain s1 where "fates s1 = []" "committed s1 = committed s0"
        "?body s0 = (Inl (Fail IdempotencyConflict), s1)"
        using body complete by auto
      with fineb [of "Inl (Fail IdempotencyConflict)" s1] s0 show ?thesis
        by (simp add: transfer_outcome_def Inr w Let_def Conflicting obs)
    qed
  qed
qed

end
