(* ===== verification/Reversals.thy ===== *)
theory Reversals
  imports Ledger_Posting
begin

text \<open>
  Component \<open>reversals\<close> (\<open>src/api/reversals.rs\<close>): the owner of the destination account of a
  transfer returns it.  The reversal debits that account by what it received and credits the
  original source with everything it was debited, fee included; it is not refused for lack of
  funds.  The reads and checks (\<open>decide_reversal\<close>) come before the writes, as in the handler.
\<close>

section \<open>Errors\<close>

definition reversal_of_reversal :: AppError where
  "reversal_of_reversal = Business ''reversal_of_reversal'' ''A reversal cannot be reversed''"

definition transfer_already_reversed :: AppError where
  "transfer_already_reversed =
     Business ''transfer_already_reversed'' ''The transfer has already been reversed''"

definition reversal_out_of_range :: AppError where
  "reversal_out_of_range = Business ''arithmetic_overflow'' ''The reversal amount is out of range''"

definition reversal_metadata_mismatch :: AppError where
  "reversal_metadata_mismatch =
     Internal (Anyhow ''original transfer currency metadata does not match accounts'')"

section \<open>Stages\<close>

definition select_owner :: "uuid \<Rightarrow> string option statement" where
  "select_owner k d = Inr (map_option owner_id (find_by acc_id k (accounts d)), d)"

record ReversalAccount =
  rl_id :: uuid
  rl_currency :: string
  rl_scale :: i16
  rl_balance :: i64
  rl_status :: string

definition reversal_account :: "AccountRow \<Rightarrow> ReversalAccount" where
  "reversal_account r =
     \<lparr>rl_id = acc_id r, rl_currency = acc_currency r, rl_scale = currency_scale r,
      rl_balance = balance_minor r, rl_status = status_text (acc_status r)\<rparr>"

definition lock_reversal_accounts ::
  "uuid \<Rightarrow> uuid \<Rightarrow> (AppError, ReversalAccount \<times> ReversalAccount) tx" where
  "lock_reversal_accounts source destination =
     tx_bind (run_statement (select_accounts_for_update [source, destination])) (\<lambda>rows.
     tx_then (ensure (length rows = 2) AccountUnavailable)
    (let locked = map reversal_account rows in
     tx_bind (tx_expect (find (\<lambda>a. rl_id a = source) locked)) (\<lambda>src.
     tx_bind (tx_expect (find (\<lambda>a. rl_id a = destination) locked)) (\<lambda>dst.
       tx_return (src, dst)))))"

text \<open>Everything before the first write: the original, its owner, the accounts, the balances.\<close>

definition decide_reversal ::
  "string \<Rightarrow> uuid \<Rightarrow> (AppError, TransferRow \<times> ReversalAccount \<times> ReversalAccount \<times> i64 \<times> i64) tx" where
  "decide_reversal client_id original_id =
     tx_bind (run_statement (select_transfer original_id)) (\<lambda>found.
     tx_bind (ok_or NotFound found) (\<lambda>original.
     tx_then (ensure (kind_text (tr_kind original) \<noteq> ''reversal'') reversal_of_reversal)
    (tx_bind (run_statement (select_owner (tr_destination original))) (\<lambda>authorized.
     tx_then (ensure (authorized = Some client_id) NotFound)
    (tx_bind (run_statement (exists_reversal original_id)) (\<lambda>already_reversed.
     tx_then (ensure (\<not> already_reversed) transfer_already_reversed)
    (tx_bind (lock_reversal_accounts (tr_destination original) (tr_source original)) (\<lambda>(src, dst).
     tx_then (ensure (rl_status src = ''active'' \<and> rl_status dst = ''active'') AccountUnavailable)
    (tx_then (ensure (rl_currency src = tr_destination_currency original
                      \<and> rl_currency dst = tr_source_currency original) reversal_metadata_mismatch)
    (tx_bind (ok_or reversal_out_of_range
                (checked_sub_i64 (rl_balance src) (destination_amount_minor original))) (\<lambda>source_balance.
     tx_bind (ok_or reversal_out_of_range
                (checked_add_i64 (rl_balance dst) (total_debit_minor original))) (\<lambda>destination_balance.
       tx_return (original, src, dst, source_balance, destination_balance)))))))))))))"

text \<open>
  The reversal's row.  The rate is read as text and cast back to \<open>numeric\<close>: the same numeral.
\<close>

definition reversal_row :: "Ambient \<Rightarrow> string \<Rightarrow> uuid \<Rightarrow> TransferRow \<Rightarrow> TransferRow" where
  "reversal_row amb client_id original_id original =
     \<lparr>tr_id = new_v4 amb 0, tr_source = tr_destination original, tr_destination = tr_source original,
      tr_source_currency = tr_destination_currency original,
      tr_destination_currency = tr_source_currency original,
      source_amount_minor = destination_amount_minor original,
      destination_amount_minor = total_debit_minor original,
      fee_amount_minor = fee_amount_minor original,
      total_debit_minor = destination_amount_minor original, tr_fee_bps = tr_fee_bps original,
      tr_exchange_rate = tr_exchange_rate original,
      tr_exchange_rate_id = tr_exchange_rate_id original, tr_kind = Kind_Reversal,
      reverses = Some original_id, initiated_by = client_id, tr_created_at = tx_time amb\<rparr>"

definition reversal_entries :: "Ambient \<Rightarrow> TransferRow \<Rightarrow> EntryRow list" where
  "reversal_entries amb t =
     [\<lparr>en_id = new_v4 amb 1, en_account = tr_source t, en_transfer = tr_id t,
       en_counterparty = tr_destination t, direction = Debit, en_kind = Kind_Reversal,
       amount_minor = total_debit_minor t, en_currency = tr_source_currency t,
       principal_minor = None, entry_fee_minor = None, en_created_at = tx_time amb\<rparr>,
      \<lparr>en_id = new_v4 amb 2, en_account = tr_destination t, en_transfer = tr_id t,
       en_counterparty = tr_source t, direction = Credit, en_kind = Kind_Reversal,
       amount_minor = destination_amount_minor t, en_currency = tr_destination_currency t,
       principal_minor = None, entry_fee_minor = None, en_created_at = tx_time amb\<rparr>]"

definition reversal_response ::
  "Platform \<Rightarrow> uuid \<Rightarrow> TransferRow \<Rightarrow> ReversalAccount \<Rightarrow> ReversalAccount \<Rightarrow> i64 \<Rightarrow> i64
    \<Rightarrow> (AppError, Value) tx" where
  "reversal_response P original_id t src dst source_balance destination_balance =
     (let source_scale = ucast (rl_scale src); destination_scale = ucast (rl_scale dst) in
     tx_bind (format_amount (source_amount_minor t) source_scale) (\<lambda>source_amount.
     tx_bind (format_amount (destination_amount_minor t) destination_scale) (\<lambda>destination_amount.
     tx_bind (format_amount (fee_amount_minor t) destination_scale) (\<lambda>fee.
     tx_bind (format_amount (total_debit_minor t) source_scale) (\<lambda>debit.
     tx_bind (format_amount source_balance source_scale) (\<lambda>resulting_source.
     tx_bind (format_amount destination_balance destination_scale) (\<lambda>resulting_destination.
       tx_return (to_value
         [(''id'', uuid_value P (tr_id t)), (''original_transfer_id'', uuid_value P original_id),
          (''source_account_id'', uuid_value P (tr_source t)),
          (''destination_account_id'', uuid_value P (tr_destination t)),
          (''source_currency'', JString (tr_source_currency t)),
          (''destination_currency'', JString (tr_destination_currency t)),
          (''source_amount'', JString source_amount),
          (''destination_amount'', JString destination_amount),
          (''original_fee_amount'', JString fee), (''total_source_debit'', JString debit),
          (''kind'', JString ''reversal''), (''status'', JString ''completed''),
          (''resulting_source_balance'', JString resulting_source),
          (''resulting_destination_balance'', JString resulting_destination),
          (''created_at'', JString (timestamptz_text P (tr_created_at t)))]))))))))"

section \<open>The handler\<close>

definition post_reversal ::
  "Platform \<Rightarrow> Ambient \<Rightarrow> string \<Rightarrow> string \<Rightarrow> uuid \<Rightarrow> (AppError, Response) tx" where
  "post_reversal P amb client_id k original_id =
     tx_bind (decide_reversal client_id original_id)
       (\<lambda>(original, src, dst, source_balance, destination_balance).
     let t = reversal_row amb client_id original_id original in
     tx_then (record_posting (tx_time amb) t
         [(tr_source t, source_balance), (tr_destination t, destination_balance)] (reversal_entries amb t))
    (tx_bind (reversal_response P original_id t src dst source_balance destination_balance) (\<lambda>body.
     tx_then (map_err internal_sql
         (store_success client_id REVERSAL_OPERATION k 201 body (tr_id t)))
    (tx_return \<lparr>resp_status = 201, resp_body = body\<rparr>))))"

definition reversal_body ::
  "Platform \<Rightarrow> AppState \<Rightarrow> Ambient \<Rightarrow> string \<Rightarrow> string \<Rightarrow> uuid \<Rightarrow> (AppError, Response) tx" where
  "reversal_body P st amb client_id k original_id =
     tx_bind (replay_or_reserve P Operation_Reversal (tx_time amb) (idempotency_retention st) client_id
         REVERSAL_OPERATION k (reversal_fingerprint P original_id)) (\<lambda>replayed.
       case replayed of
         Some response \<Rightarrow> tx_return response
       | None \<Rightarrow> post_reversal P amb client_id k original_id)"

text \<open>A failure to begin is counted, although there is no transaction to observe.\<close>

definition begin_counted :: "FinancialOperation \<Rightarrow> (AppError, unit) tx" where
  "begin_counted fin s =
     (case begin_transaction s of
        (Inr _, s1) \<Rightarrow> (Inr (), s1)
      | (Inl (Fail e), s1) \<Rightarrow>
          (let error = internal_sql e; (outcome, reason) = financial_metric_outcome error in
           (Inl (Fail error),
            s1\<lparr>emitted := emitted s1 @ record_operation_without_transaction fin outcome reason\<rparr>))
      | (Inl f, s1) \<Rightarrow> (Inl (map_fault internal_sql f), s1))"

definition reverse_transfer ::
  "Platform \<Rightarrow> AppState \<Rightarrow> Ambient \<Rightarrow> string \<Rightarrow> HeaderMap \<Rightarrow> string \<Rightarrow> (AppError, Response) tx" where
  "reverse_transfer P st amb client_id headers transfer_id =
     tx_bind (from_result (from_headers P headers)) (\<lambda>k.
     tx_bind (ok_or malformed_transfer_id (parse_uuid P transfer_id)) (\<lambda>original_id.
     tx_then (begin_counted Operation_Reversal)
      (run_observed Operation_Reversal (reversal_body P st amb client_id k original_id))))"

section \<open>Calm stages\<close>

lemma calm_lock_reversal_accounts [calm_intros]: "calm lost (lock_reversal_accounts a b)"
  unfolding lock_reversal_accounts_def Let_def by (auto intro!: calm_intros)

lemma calm_decide_reversal [calm_intros]: "calm lost (decide_reversal c k)"
  unfolding decide_reversal_def by (intro calm_intros)

lemma calm_reversal_response [calm_intros]: "calm lost (reversal_response P k t src dst sb db)"
  unfolding reversal_response_def Let_def by (auto intro!: calm_intros)

lemma calm_post_reversal [calm_intros]: "calm lost (post_reversal P amb c k oid)"
  unfolding post_reversal_def Let_def by (auto intro!: calm_intros)

lemma calm_reversal_body [calm_intros]: "calm lost (reversal_body P st amb c k oid)"
  unfolding reversal_body_def by (auto intro!: calm_intros split: option.split)

section \<open>The checks as a decision\<close>

text \<open>Reference: the checks of the handler, in its order, as a function of the database.\<close>

definition reversal_decision ::
  "string \<Rightarrow> uuid \<Rightarrow> Database \<Rightarrow> AppError + (TransferRow \<times> AccountRow \<times> AccountRow \<times> i64 \<times> i64)" where
  "reversal_decision client_id original_id d =
     (case find_by tr_id original_id (transfers d) of
        None \<Rightarrow> Inl NotFound
      | Some original \<Rightarrow>
          if tr_kind original = Kind_Reversal then Inl reversal_of_reversal
          else
            (case find_by acc_id (tr_destination original) (accounts d) of
               None \<Rightarrow> Inl NotFound
             | Some a \<Rightarrow>
                 if owner_id a \<noteq> client_id then Inl NotFound
                 else if list_ex (\<lambda>t. reverses t = Some original_id) (transfers d)
                 then Inl transfer_already_reversed
                 else
                   (case find_by acc_id (tr_source original) (accounts d) of
                      None \<Rightarrow> Inl AccountUnavailable
                    | Some b \<Rightarrow>
                        if acc_status a \<noteq> Active \<or> acc_status b \<noteq> Active then Inl AccountUnavailable
                        else if acc_currency a \<noteq> tr_destination_currency original
                              \<or> acc_currency b \<noteq> tr_source_currency original
                        then Inl reversal_metadata_mismatch
                        else
                          (case checked_sub_i64 (balance_minor a) (destination_amount_minor original) of
                             None \<Rightarrow> Inl reversal_out_of_range
                           | Some sb \<Rightarrow>
                               (case checked_add_i64 (balance_minor b) (total_debit_minor original) of
                                  None \<Rightarrow> Inl reversal_out_of_range
                                | Some db \<Rightarrow> Inr (original, a, b, sb, db))))))"

lemma reversal_account_simps [simp]:
  "rl_id (reversal_account a) = acc_id a" "rl_currency (reversal_account a) = acc_currency a"
  "rl_scale (reversal_account a) = currency_scale a" "rl_balance (reversal_account a) = balance_minor a"
  "rl_status (reversal_account a) = status_text (acc_status a)"
  by (simp_all add: reversal_account_def)

lemma find_reversal_account:
  "find (\<lambda>a. rl_id a = k) (map reversal_account rows) = map_option reversal_account (find_by acc_id k rows)"
  by (induction rows) auto

lemma lock_reversal_accounts_fine:
  assumes "fates s = []" and "source \<noteq> destination"
    and keys: "distinct (map acc_id (accounts (work s)))"
  shows "lock_reversal_accounts source destination s =
    ((case (find_by acc_id source (accounts (work s)), find_by acc_id destination (accounts (work s))) of
        (Some a, Some b) \<Rightarrow> Inr (reversal_account a, reversal_account b)
      | _ \<Rightarrow> Inl (Fail AccountUnavailable)), s)"
proof -
  let ?rows = "order_by_id acc_id (filter (\<lambda>r. acc_id r \<in> {source, destination}) (accounts (work s)))"
  have len: "length ?rows = 2 \<longleftrightarrow>
      (\<exists>x y. find_by acc_id source (accounts (work s)) = Some x
           \<and> find_by acc_id destination (accounts (work s)) = Some y)"
    using filter_two_keys [OF keys assms(2)] by simp
  have find: "find (\<lambda>a. rl_id a = k) (map reversal_account ?rows)
      = map_option reversal_account (find_by acc_id k (accounts (work s)))"
    if "k \<in> {source, destination}" for k
    using find_in_selection [OF keys that, of acc_id]
    by (simp only: find_reversal_account) (simp add: find_by_def)
  have sel: "run_statement (select_accounts_for_update [source, destination]) s = (Inr ?rows, s)"
    using assms(1) by (simp add: map_err_def execute_fine select_accounts_for_update_def)
  show ?thesis
  proof (cases "length ?rows = 2")
    case True
    then obtain x y where "find_by acc_id source (accounts (work s)) = Some x"
      "find_by acc_id destination (accounts (work s)) = Some y" using len by blast
    then show ?thesis
      using True find [of source] find [of destination]
      by (simp add: lock_reversal_accounts_def tx_bind_def sel Let_def tx_then_def ensure_def
          tx_return_def tx_expect_def del: length_order_by_id)
  next
    case False
    then show ?thesis
      using len
      by (auto simp: lock_reversal_accounts_def tx_bind_def sel Let_def tx_then_def ensure_def
          tx_throw_def split: option.splits simp del: length_order_by_id)
  qed
qed

lemma schema_transfer_check:
  "schema_ok d \<Longrightarrow> find_by tr_id k (transfers d) = Some t \<Longrightarrow> transfer_check t"
  by (auto simp: schema_ok_def checks_ok_def list_all_iff dest: find_by_SomeD)

lemma decide_reversal_fine:
  assumes fine: "fates s = []" and schema: "schema_ok (work s)"
  shows "decide_reversal c oid s =
    ((case reversal_decision c oid (work s) of
        Inl e \<Rightarrow> Inl (Fail e)
      | Inr (original, a, b, sb, db) \<Rightarrow> Inr (original, reversal_account a, reversal_account b, sb, db)), s)"
proof (cases "find_by tr_id oid (transfers (work s))")
  case None
  then show ?thesis
    using fine by (simp add: decide_reversal_def reversal_decision_def tx_run select_transfer_def)
next
  case (Some original)
  have ne: "tr_destination original \<noteq> tr_source original"
    using schema_transfer_check [OF schema Some] by (auto simp: transfer_check_def)
  have keys: "distinct (map acc_id (accounts (work s)))"
    using schema by (simp add: schema_ok_def keys_ok_def)
  note lock = lock_reversal_accounts_fine [OF fine ne keys]
  show ?thesis
    using fine Some
    by (cases "find_by acc_id (tr_destination original) (accounts (work s))";
        cases "find_by acc_id (tr_source original) (accounts (work s))")
       (auto simp: decide_reversal_def reversal_decision_def tx_run select_transfer_def
          select_owner_def exists_reversal_def lock split: option.splits)
qed

section \<open>The effect of a reversal\<close>

lemma reversal_row_simps [simp]:
  "tr_id (reversal_row amb c oid t) = new_v4 amb 0"
  "tr_source (reversal_row amb c oid t) = tr_destination t"
  "tr_destination (reversal_row amb c oid t) = tr_source t"
  "tr_source_currency (reversal_row amb c oid t) = tr_destination_currency t"
  "tr_destination_currency (reversal_row amb c oid t) = tr_source_currency t"
  "source_amount_minor (reversal_row amb c oid t) = destination_amount_minor t"
  "destination_amount_minor (reversal_row amb c oid t) = total_debit_minor t"
  "fee_amount_minor (reversal_row amb c oid t) = fee_amount_minor t"
  "total_debit_minor (reversal_row amb c oid t) = destination_amount_minor t"
  "tr_exchange_rate_id (reversal_row amb c oid t) = tr_exchange_rate_id t"
  "tr_kind (reversal_row amb c oid t) = Kind_Reversal"
  "reverses (reversal_row amb c oid t) = Some oid"
  "initiated_by (reversal_row amb c oid t) = c"
  "tr_created_at (reversal_row amb c oid t) = tx_time amb"
  by (simp_all add: reversal_row_def)

lemma reversal_decision_Inr:
  assumes "reversal_decision c oid d = Inr (t, a, b, sb, db)"
  shows "find_by tr_id oid (transfers d) = Some t" and "tr_kind t \<noteq> Kind_Reversal"
    and "find_by acc_id (tr_destination t) (accounts d) = Some a" and "owner_id a = c"
    and "\<forall>u \<in> set (transfers d). reverses u \<noteq> Some oid"
    and "find_by acc_id (tr_source t) (accounts d) = Some b"
    and "acc_status a = Active" and "acc_status b = Active"
    and "acc_currency a = tr_destination_currency t" and "acc_currency b = tr_source_currency t"
    and "sint sb = sint (balance_minor a) - sint (destination_amount_minor t)"
    and "sint db = sint (balance_minor b) + sint (total_debit_minor t)"
  using assms
  by (auto simp: reversal_decision_def checked_add_i64_Some checked_sub_i64_Some list_ex_iff
      split: option.splits if_splits)

lemma reversal_entries_pair:
  "\<exists>x y. reversal_entries amb (reversal_row amb c oid t) = [x, y]
     \<and> entry_pair (reversal_row amb c oid t) x y \<and> en_id x = new_v4 amb 1 \<and> en_id y = new_v4 amb 2
     \<and> principal_minor x = None \<and> principal_minor y = None
     \<and> entry_fee_minor x = None \<and> entry_fee_minor y = None"
  by (simp add: reversal_entries_def entry_pair_def)

lemma reversal_balanced:
  assumes "reversal_decision c oid d = Inr (t, a, b, sb, db)" and "schema_ok d"
  shows "balanced_posting (reversal_row amb c oid t) [(tr_destination t, sb), (tr_source t, db)]
      (reversal_entries amb (reversal_row amb c oid t)) d"
    and "amounts_ok (reversal_row amb c oid t)"
    and "reversal_link_ok (transfers d) (reversal_row amb c oid t)"
proof -
  note f = reversal_decision_Inr [OF assms(1)]
  have ne: "tr_source t \<noteq> tr_destination t"
    using schema_transfer_check [OF assms(2) f(1)] by (simp add: transfer_check_def)
  obtain x y where "reversal_entries amb (reversal_row amb c oid t) = [x, y]"
    "entry_pair (reversal_row amb c oid t) x y"
    using reversal_entries_pair by blast
  then show "balanced_posting (reversal_row amb c oid t) [(tr_destination t, sb), (tr_source t, db)]
      (reversal_entries amb (reversal_row amb c oid t)) d"
    unfolding balanced_posting_def
    by (intro exI [of _ sb] exI [of _ db] exI [of _ x] exI [of _ y] exI [of _ a] exI [of _ b])
       (use f ne in simp)
  show "amounts_ok (reversal_row amb c oid t)" by (simp add: amounts_ok_def)
  show "reversal_link_ok (transfers d) (reversal_row amb c oid t)"
    using f(2) find_by_SomeD [OF f(1)] by (auto simp: reversal_link_ok_def mirrors_def)
qed

definition reversal_applied ::
  "Ambient \<Rightarrow> TransferRow \<Rightarrow> i64 \<Rightarrow> i64 \<Rightarrow> IdempotencyRow \<Rightarrow> Database \<Rightarrow> Database" where
  "reversal_applied amb t sb db record d =
     (apply_posting (tx_time amb) t [(tr_source t, sb), (tr_destination t, db)]
        (reversal_entries amb t) d)
       \<lparr>idempotency_records := idempotency_records d @ [record]\<rparr>"

lemma reversal_applied_simps [simp]:
  "accounts (reversal_applied amb t sb db r d) =
     write_balances (tx_time amb) [(tr_source t, sb), (tr_destination t, db)] (accounts d)"
  "transfers (reversal_applied amb t sb db r d) = transfers d @ [t]"
  "account_entries (reversal_applied amb t sb db r d) = account_entries d @ reversal_entries amb t"
  "idempotency_records (reversal_applied amb t sb db r d) = idempotency_records d @ [r]"
  "exchange_rates (reversal_applied amb t sb db r d) = exchange_rates d"
  "fx_fee_rules (reversal_applied amb t sb db r d) = fx_fee_rules d"
  by (simp_all add: reversal_applied_def)

definition reversal_posted ::
  "Platform \<Rightarrow> AppState \<Rightarrow> Ambient \<Rightarrow> string \<Rightarrow> string \<Rightarrow> uuid \<Rightarrow> Database \<Rightarrow> Database \<Rightarrow> Response \<Rightarrow> bool" where
  "reversal_posted P st amb c k oid d d' resp \<longleftrightarrow>
     (\<exists>t a b sb db body.
        reversal_decision c oid d = Inr (t, a, b, sb, db)
      \<and> (\<exists>d1. insert_transfer (reversal_row amb c oid t) d = Inr ((), d1))
      \<and> (\<forall>s. fst (reversal_response P oid (reversal_row amb c oid t)
                    (reversal_account a) (reversal_account b) sb db s) = Inr body)
      \<and> resp = \<lparr>resp_status = 201, resp_body = body\<rparr>
      \<and> find_by idem_row_key (c, REVERSAL_OPERATION, k) (idempotency_records d) = None
      \<and> d' = reversal_applied amb (reversal_row amb c oid t) sb db
               (completed_row (tx_time amb) (idempotency_retention st) (c, REVERSAL_OPERATION, k)
                  (reversal_fingerprint P oid) 201 body (new_v4 amb 0)) d)"

lemma reversal_response_state:
  "reversal_response P oid t src dst sb db s = (r, s') \<Longrightarrow>
     s' = s \<and> fst (reversal_response P oid t src dst sb db s1) = r"
  by (auto simp: reversal_response_def Let_def tx_bind_def format_amount_def tx_expect_def
      tx_return_def tx_panic_def split: option.splits if_splits prod.splits sum.splits)

text \<open>The reservation leaves the decision as it was.\<close>

lemma reversal_decision_claim [simp]:
  "reversal_decision c oid (claim_record now ret k fp d) = reversal_decision c oid d"
  unfolding reversal_decision_def claim_record_simps ..

lemma insert_transfer_claim [simp]:
  "(\<exists>x. insert_transfer t (claim_record now ret k fp d) = Inr ((), x)) \<longleftrightarrow>
   (\<exists>x. insert_transfer t d = Inr ((), x))"
  unfolding insert_transfer_def claim_record_simps by simp

lemma post_reversal_InrD:
  assumes run: "post_reversal P amb c k oid s = (Inr resp, s')" and fine: "fates s = []"
    and schema: "schema_ok (work s)"
    and w: "work s = claim_record (tx_time amb) retention (c, REVERSAL_OPERATION, k) fp d"
    and new: "find_by idem_row_key (c, REVERSAL_OPERATION, k) (idempotency_records d) = None"
    and ret: "retention = idempotency_retention st" and fp: "fp = reversal_fingerprint P oid"
  shows "schema_ok (work s') \<and> reversal_posted P st amb c k oid d (work s') resp"
proof -
  note dec = decide_reversal_fine [OF fine schema, of c oid]
  obtain t a b sb db where
    d: "reversal_decision c oid d = Inr (t, a, b, sb, db)"
    using run dec
    by (cases "reversal_decision c oid d") (auto simp: post_reversal_def tx_bind_def w)
  let ?t = "reversal_row amb c oid t"
  from run obtain s1 s2 body where
    post: "record_posting (tx_time amb) ?t [(tr_destination t, sb), (tr_source t, db)]
        (reversal_entries amb ?t) s = (Inr (), s1)" and
    resp: "reversal_response P oid ?t (reversal_account a) (reversal_account b) sb db s1 = (Inr body, s2)" and
    store: "store_success c REVERSAL_OPERATION k 201 body (new_v4 amb 0) s2 = (Inr (), s')" and
    r: "resp = \<lparr>resp_status = 201, resp_body = body\<rparr>"
    using dec by (auto simp: post_reversal_def Let_def tx_bind_def [of "decide_reversal c oid"] w d
        tx_bind_Inr tx_then_Inr map_err_Inr tx_return_Inr)
  note po = record_posting_InrD [OF post] and rs = reversal_response_state [OF resp]
  have recs: "idempotency_records (work s2) = idempotency_records d @
      [reservation_row (tx_time amb) retention (c, REVERSAL_OPERATION, k) fp]"
    using po rs by (simp add: w)
  note st = store_success_InrD [OF store recs new]
  have ins: "\<exists>x. insert_transfer ?t d = Inr ((), x)" using po by (simp add: w)
  have body: "\<forall>s. fst (reversal_response P oid ?t (reversal_account a) (reversal_account b) sb db s) = Inr body"
    using reversal_response_state [OF resp] by blast
  have "work s' = reversal_applied amb ?t sb db
      (completed_row (tx_time amb) retention (c, REVERSAL_OPERATION, k) fp 201 body (new_v4 amb 0)) d"
    using st po rs by (simp add: reversal_applied_def apply_posting_def w claim_record_def
        insert_idempotency_row_def)
  then have "reversal_posted P st amb c k oid d (work s') resp"
    unfolding reversal_posted_def using d ins body r new ret fp by blast
  then show ?thesis using st po rs schema by blast
qed

lemma reversal_body_InrD:
  assumes run: "reversal_body P st amb c k oid s = (Inr resp, s')" and fine: "fates s = []"
    and schema: "schema_ok (work s)"
  shows "schema_ok (work s')
    \<and> (work s' = work s
         \<and> replayed_from P (work s) (c, REVERSAL_OPERATION, k) (reversal_fingerprint P oid) resp
       \<or> reversal_posted P st amb c k oid (work s) (work s') resp)"
proof -
  from run obtain replayed s1 where
    ror: "replay_or_reserve P Operation_Reversal (tx_time amb) (idempotency_retention st) c
       REVERSAL_OPERATION k (reversal_fingerprint P oid) s = (Inr replayed, s1)" and
    rest: "(case replayed of Some response \<Rightarrow> tx_return response
       | None \<Rightarrow> post_reversal P amb c k oid) s1 = (Inr resp, s')"
    unfolding reversal_body_def by (auto simp: tx_bind_Inr)
  note rr = replay_or_reserve_InrD [OF ror]
  show ?thesis
  proof (cases replayed)
    case (Some response)
    then show ?thesis
      using rr rest schema by (auto simp: tx_return_Inr replayed_from_def answer_Replayed_iff)
  next
    case None
    have "fates s1 = []"
      using calm_Inr_fine [OF calm_replay_or_reserve ror] ror fine
      by (metis Session.select_convs(3) Session.surjective Session.update_convs(3) prod.inject)
    moreover have "schema_ok (work s1)"
      using rr None schema insert_idempotency_schema by auto
    ultimately show ?thesis
      using post_reversal_InrD [of P amb c k oid s1 resp s' "idempotency_retention st"
          "reversal_fingerprint P oid" "work s"] rr rest None
      by auto
  qed
qed

definition reversal_request ::
  "Platform \<Rightarrow> HeaderMap \<Rightarrow> string \<Rightarrow> AppError + (string \<times> uuid)" where
  "reversal_request P headers transfer_id =
     (case from_headers P headers of
        Inl e \<Rightarrow> Inl e
      | Inr k \<Rightarrow> (case parse_uuid P transfer_id of None \<Rightarrow> Inl malformed_transfer_id | Some oid \<Rightarrow> Inr (k, oid)))"

lemma reverse_transfer_unfold:
  "reverse_transfer P st amb c headers transfer_id =
     tx_bind (from_result (reversal_request P headers transfer_id)) (\<lambda>(k, oid).
       tx_then (begin_counted Operation_Reversal)
         (run_observed Operation_Reversal (reversal_body P st amb c k oid)))"
  by (auto simp: reverse_transfer_def reversal_request_def tx_bind_def from_result_def ok_or_def
      tx_return_def tx_throw_def fun_eq_iff split: sum.split option.split)

text \<open>What a run of \<open>reverse_transfer\<close> can commit, under any fates.\<close>

lemma begin_counted_cases:
  assumes "begin_counted fin s = (r, s')"
  shows "committed s' = committed s \<and> (\<forall>x. r = Inr x \<longrightarrow> work s' = committed s)"
proof -
  obtain r1 s1 where b: "begin_transaction s = (r1, s1)" by fastforce
  note begin_transaction_cases [OF b]
  then show ?thesis
    using assms b
    by (auto simp: begin_counted_def Let_def split: sum.splits fault.splits prod.splits)
qed

lemma reverse_transfer_cases:
  assumes run: "reverse_transfer P st amb c headers transfer_id s = (r, s')"
    and schema: "schema_ok (committed s)"
  shows "schema_ok (committed s')
    \<and> ((committed s' = committed s
          \<and> (\<forall>resp. r = Inr resp \<longrightarrow> (\<exists>k oid. reversal_request P headers transfer_id = Inr (k, oid)
               \<and> replayed_from P (committed s) (c, REVERSAL_OPERATION, k) (reversal_fingerprint P oid) resp)))
      \<or> (\<exists>k oid resp. reversal_request P headers transfer_id = Inr (k, oid)
           \<and> reversal_posted P st amb c k oid (committed s) (committed s') resp
           \<and> r \<in> {Inr resp, Inl (Fail lost), Inl Cancelled}))"
proof (cases "reversal_request P headers transfer_id")
  case (Inl e)
  then show ?thesis
    using run schema
    by (auto simp: reverse_transfer_unfold tx_bind_def from_result_def tx_throw_def)
next
  case (Inr v)
  obtain k oid where v: "v = (k, oid)" by (cases v)
  let ?body = "reversal_body P st amb c k oid"
  obtain r1 s1 where b: "begin_counted Operation_Reversal s = (r1, s1)" by fastforce
  note bc = begin_counted_cases [OF b]
  show ?thesis
  proof (cases r1)
    case (Inl f)
    then show ?thesis
      using run b bc schema
      by (auto simp: reverse_transfer_unfold Inr v tx_bind_def tx_then_def from_result_def tx_return_def)
  next
    case ok: (Inr u)
    then have obs: "run_observed Operation_Reversal ?body s1 = (r, s')"
      using run b
      by (simp add: reverse_transfer_unfold Inr v tx_bind_def tx_then_def from_result_def tx_return_def)
    have w1: "work s1 = committed s" "committed s1 = committed s" using bc ok by auto
    from run_observed_cases [OF calm_reversal_body obs] show ?thesis
    proof (elim disjE exE conjE)
      assume "committed s' = committed s1" "\<forall>x. r \<noteq> Inr x"
      then show ?thesis using w1 schema by simp
    next
      fix resp sw
      assume body: "?body (s1\<lparr>fates := []\<rparr>) = (Inr resp, sw)" and cs: "committed s' = work sw"
        and r: "r \<in> {Inr resp, Inl (Fail lost), Inl Cancelled}"
      have "schema_ok (committed s')
        \<and> (committed s' = committed s
             \<and> replayed_from P (committed s) (c, REVERSAL_OPERATION, k) (reversal_fingerprint P oid) resp
           \<or> reversal_posted P st amb c k oid (committed s) (committed s') resp)"
        using reversal_body_InrD [OF body] schema by (simp add: w1 cs)
      then show ?thesis using Inr v r by auto
    qed
  qed
qed

section \<open>The ledger across a reversal\<close>

lemma reversal_posted_ledger:
  assumes "ledger_ok d" and "reversal_posted P st amb c k oid d d' resp" and "schema_ok d'"
  shows "ledger_ok d' \<and> (\<forall>k. opening_balance k d' = opening_balance k d)
    \<and> prefix (transfers d) (transfers d') \<and> prefix (account_entries d) (account_entries d')
    \<and> (\<forall>k. find_by acc_id k (accounts d) \<noteq> None \<longrightarrow> find_by acc_id k (accounts d') \<noteq> None)"
proof -
  from assms(2) obtain t a b sb db body where
    dec: "reversal_decision c oid d = Inr (t, a, b, sb, db)" and
    ins: "\<exists>d1. insert_transfer (reversal_row amb c oid t) d = Inr ((), d1)" and
    d': "d' = reversal_applied amb (reversal_row amb c oid t) sb db
               (completed_row (tx_time amb) (idempotency_retention st) (c, REVERSAL_OPERATION, k)
                  (reversal_fingerprint P oid) 201 body (new_v4 amb 0)) d"
    unfolding reversal_posted_def by blast
  have schema: "schema_ok d" using assms(1) by (rule ledger_okD)
  note bal = reversal_balanced [OF dec schema, of amb] and f = reversal_decision_Inr [OF dec]
  have "ledger_ok d' \<and> (\<forall>k. opening_balance k d' = opening_balance k d)"
    by (rule posting_with_record [OF assms(1) bal ins record_complete_completed _ assms(3)])
       (simp add: d' reversal_applied_def)
  moreover have "find_by acc_id k (accounts d') \<noteq> None" if "find_by acc_id k (accounts d) \<noteq> None" for k
    using that schema_transfer_check [OF schema f(1)]
    by (auto simp: d' find_write_balances transfer_check_def)
  ultimately show ?thesis by (simp add: d')
qed

definition reversal_change :: "Database \<Rightarrow> Database \<Rightarrow> bool" where
  "reversal_change d d' \<longleftrightarrow>
     (\<exists>P st amb c headers transfer_id. commits (reverse_transfer P st amb c headers transfer_id) d d')"

lemma reversal_change_keeps:
  assumes "reversal_change d d'" and "ledger_ok d"
  shows "ledger_ok d' \<and> (\<forall>k. opening_balance k d' = opening_balance k d)
    \<and> prefix (transfers d) (transfers d') \<and> prefix (account_entries d) (account_entries d')
    \<and> (\<forall>k. find_by acc_id k (accounts d) \<noteq> None \<longrightarrow> find_by acc_id k (accounts d') \<noteq> None)"
proof -
  from assms(1) obtain P st amb c headers transfer_id s r s' where
    run: "reverse_transfer P st amb c headers transfer_id s = (r, s')" and
    d: "committed s = d" "committed s' = d'"
    by (auto simp: reversal_change_def commits_def)
  have "schema_ok (committed s)" using assms(2) by (simp add: d ledger_ok_def)
  from reverse_transfer_cases [OF run this] show ?thesis
  proof (elim conjE disjE exE)
    assume "committed s' = committed s"
    then show ?thesis using assms(2) by (simp add: d)
  next
    fix k oid resp
    assume "schema_ok (committed s')"
      and "reversal_posted P st amb c k oid (committed s) (committed s') resp"
    with reversal_posted_ledger [of d P st amb c k oid d' resp] assms(2) show ?thesis
      by (simp add: d)
  qed
qed

interpretation reversal: ledger_operation reversal_change
  by unfold_locales (use reversal_change_keeps in blast)+

section \<open>The undisturbed run\<close>

text \<open>
  The whole undisturbed run: rejected before the transaction, answered from the record, refused
  as a conflict, rejected by the decision, or posted.
\<close>

definition reversal_outcome ::
  "Platform \<Rightarrow> AppState \<Rightarrow> Ambient \<Rightarrow> string \<Rightarrow> HeaderMap \<Rightarrow> string
    \<Rightarrow> Database \<Rightarrow> (AppError fault + Response) \<Rightarrow> Database \<Rightarrow> bool" where
  "reversal_outcome P st amb c headers transfer_id d r d' \<longleftrightarrow>
     (case reversal_request P headers transfer_id of
        Inl e \<Rightarrow> r = Inl (Fail e) \<and> d' = d
      | Inr (k, oid) \<Rightarrow>
          (case record_store.answer d (c, REVERSAL_OPERATION, k) (reversal_fingerprint P oid) of
             Fresh \<Rightarrow>
               (case reversal_decision c oid d of
                  Inl e \<Rightarrow> r = Inl (Fail e) \<and> d' = d
                | Inr (t, a, b, sb, db) \<Rightarrow>
                    (\<exists>body. (\<forall>s. fst (reversal_response P oid (reversal_row amb c oid t)
                                   (reversal_account a) (reversal_account b) sb db s) = Inr body)
                      \<and> r = Inr \<lparr>resp_status = 201, resp_body = body\<rparr>
                      \<and> d' = reversal_applied amb (reversal_row amb c oid t) sb db
                          (completed_row (tx_time amb) (idempotency_retention st)
                             (c, REVERSAL_OPERATION, k) (reversal_fingerprint P oid) 201 body
                             (new_v4 amb 0)) d))
           | Replayed (status, body) \<Rightarrow>
               r = (case stored_status P status of
                      Inl e \<Rightarrow> Inl (Fail e)
                    | Inr n \<Rightarrow> Inr \<lparr>resp_status = n, resp_body = body\<rparr>) \<and> d' = d
           | Conflicting \<Rightarrow> r = Inl (Fail IdempotencyConflict) \<and> d' = d
           | Pending \<Rightarrow> False))"

lemma reversal_row_inserts:
  assumes dec: "reversal_decision c oid d = Inr (t, a, b, sb, db)" and "schema_ok d"
    and "nonblank c" and "fresh_ids amb d"
  shows "\<exists>d1. insert_transfer (reversal_row amb c oid t) d = Inr ((), d1)"
proof -
  note f = reversal_decision_Inr [OF dec]
  have t: "t \<in> set (transfers d)" "tr_id t = oid" using find_by_SomeD [OF f(1)] by simp_all
  have "transfer_check t" by (rule schema_transfer_check [OF assms(2) f(1)])
  moreover have "oid \<noteq> new_v4 amb 0"
    using assms(4) t by (metis fresh_ids_def find_by_None_iff imageI)
  ultimately have chk: "transfer_check (reversal_row amb c oid t)"
    using assms(3) by (auto simp: transfer_check_def)
  have "transfer_refs_ok d t"
    using assms(2) t by (auto simp: schema_ok_def refs_ok_def list_all_iff)
  then have "case tr_exchange_rate_id t of None \<Rightarrow> True | Some q \<Rightarrow> find_by ra_id q (exchange_rates d) \<noteq> None"
    by (auto simp: transfer_refs_ok_def find_by_None_iff split: option.splits)
  then show ?thesis
    using chk f assms(4)
    by (auto simp: insert_transfer_def fresh_ids_def split: option.splits)
qed

lemma reversal_response_total:
  assumes "account_check a" and "account_check b"
  shows "\<exists>body. \<forall>s. reversal_response P oid t (reversal_account a) (reversal_account b) sb db s = (Inr body, s)"
proof -
  define f where "f m r = the (format_minor_units m (ucast (currency_scale r) :: u8))" for m and r :: AccountRow
  have "format_minor_units m (ucast (currency_scale r) :: u8) = Some (f m r)" if "account_check r" for m r
    using format_minor_units_total [OF ucast_scale [OF that], of m] by (auto simp: f_def)
  note f = this [OF assms(1)] this [OF assms(2)]
  show ?thesis
    by (auto simp: reversal_response_def Let_def tx_bind_def format_amount_def tx_expect_def
        tx_return_def f)
qed

lemma post_reversal_fine:
  assumes fine: "fates s = []" and schema: "schema_ok (work s)" and c: "nonblank c"
    and recs: "idempotency_records (work s) = rs @
      [reservation_row (tx_time amb) retention (c, REVERSAL_OPERATION, k) fp]"
    and new: "find_by idem_row_key (c, REVERSAL_OPERATION, k) rs = None"
    and chk: "idempotency_check (reservation_row (tx_time amb) retention (c, REVERSAL_OPERATION, k) fp)"
    and ids: "fresh_ids amb (work s)" and ver: "versions_ok (work s)"
  shows "case reversal_decision c oid (work s) of
      Inl e \<Rightarrow> post_reversal P amb c k oid s = (Inl (Fail e), s)
    | Inr (t, a, b, sb, db) \<Rightarrow>
        \<exists>body. (\<forall>s. fst (reversal_response P oid (reversal_row amb c oid t)
              (reversal_account a) (reversal_account b) sb db s) = Inr body)
          \<and> post_reversal P amb c k oid s =
             (Inr \<lparr>resp_status = 201, resp_body = body\<rparr>,
              s\<lparr>work := (apply_posting (tx_time amb) (reversal_row amb c oid t)
                 [(tr_destination t, sb), (tr_source t, db)]
                 (reversal_entries amb (reversal_row amb c oid t)) (work s))
                 \<lparr>idempotency_records := rs @
                   [completed_row (tx_time amb) retention (c, REVERSAL_OPERATION, k) fp 201 body
                      (new_v4 amb 0)]\<rparr>\<rparr>)"
proof (cases "reversal_decision c oid (work s)")
  case (Inl e)
  then show ?thesis
    using decide_reversal_fine [OF fine schema, of c oid]
    by (simp add: post_reversal_def tx_bind_def)
next
  case (Inr v)
  obtain t a b sb db where v: "v = (t, a, b, sb, db)" by (cases v)
  note dec = Inr [unfolded v]
  note f = reversal_decision_Inr [OF dec]
  let ?t = "reversal_row amb c oid t"
  have tchk: "transfer_check t" by (rule schema_transfer_check [OF schema f(1)])
  then have ne: "tr_destination t \<noteq> tr_source t" by (auto simp: transfer_check_def)
  obtain x y where es: "reversal_entries amb ?t = [x, y]" "entry_pair ?t x y"
    "en_id x = new_v4 amb 1" "en_id y = new_v4 amb 2"
    "principal_minor x = None" "principal_minor y = None" "entry_fee_minor x = None" "entry_fee_minor y = None"
    using reversal_entries_pair by blast
  then have xy: "entry_check x" "entry_check y"
    using tchk by (auto simp: entry_check_def entry_pair_def transfer_check_def)
  have acc: "account_check a" "account_check b"
    using f(3,6) schema by (auto intro: schema_account_check)
  have vs: "sint (acc_version a) < i64_max" "sint (acc_version b) < i64_max"
    using ver f(3,6) by (auto simp: versions_ok_def list_all_iff dest: find_by_SomeD)
  have post: "record_posting (tx_time amb) ?t [(tr_destination t, sb), (tr_source t, db)] [x, y] s =
      (Inr (), s\<lparr>work := apply_posting (tx_time amb) ?t [(tr_destination t, sb), (tr_source t, db)] [x, y] (work s)\<rparr>)"
    using ids es(2-4)
    by (intro record_posting_fine [OF fine schema reversal_row_inserts [OF dec schema c ids] ne
          f(3) vs(1) f(6) vs(2) xy])
       (auto simp: fresh_ids_def find_by_None_iff entry_pair_def)
  obtain body where body: "\<And>s. reversal_response P oid ?t (reversal_account a) (reversal_account b) sb db s = (Inr body, s)"
    using reversal_response_total [OF acc, of P oid ?t] by blast
  have "idempotency_check (completed_row (tx_time amb) retention (c, REVERSAL_OPERATION, k) fp 201 body u)" for u
    using chk by (rule completed_check) simp_all
  note store = store_success_fine [OF _ _ new this]
  have "post_reversal P amb c k oid s =
             (Inr \<lparr>resp_status = 201, resp_body = body\<rparr>,
              s\<lparr>work := (apply_posting (tx_time amb) ?t [(tr_destination t, sb), (tr_source t, db)] [x, y] (work s))
                 \<lparr>idempotency_records := rs @
                   [completed_row (tx_time amb) retention (c, REVERSAL_OPERATION, k) fp 201 body
                      (new_v4 amb 0)]\<rparr>\<rparr>)"
    using decide_reversal_fine [OF fine schema, of c oid] fine
    by (simp add: post_reversal_def tx_bind_def map_err_def tx_then_def tx_return_def
        dec es post body store recs Let_def)
  then show ?thesis by (simp add: Inr v es body)
qed

lemma reverse_transfer_enter:
  assumes "fates s = []" and "reversal_request P headers transfer_id = Inr (k, oid)"
  shows "reverse_transfer P st amb c headers transfer_id s =
     run_observed Operation_Reversal (reversal_body P st amb c k oid) (s\<lparr>work := committed s\<rparr>)"
  using assms
  by (simp add: reverse_transfer_unfold tx_bind_def tx_then_def from_result_def tx_return_def
      begin_counted_def begin_transaction_fine)

lemma reversal_body_done:
  assumes "fates s = []"
    and "stored_record (work s) (c, REVERSAL_OPERATION, k) = Some (fp, Some (status, b))"
  shows "\<exists>s1. fates s1 = [] \<and> committed s1 = committed s \<and> work s1 = work s \<and>
    reversal_body P st amb c k oid s =
      ((if fp \<noteq> reversal_fingerprint P oid then Inl (Fail IdempotencyConflict)
        else case stored_status P status of
          Inl e \<Rightarrow> Inl (Fail e) | Inr n \<Rightarrow> Inr \<lparr>resp_status = n, resp_body = b\<rparr>), s1)"
proof -
  from replay_or_reserve_done [OF assms, of P Operation_Reversal "tx_time amb"
      "idempotency_retention st" "reversal_fingerprint P oid"]
  show ?thesis
    using assms(1) by (auto simp: reversal_body_def tx_bind_def tx_return_def split: sum.split)
qed

lemma reverse_transfer_done:
  assumes fine: "fates s = []" and req: "reversal_request P headers transfer_id = Inr (k, oid)"
    and stored: "stored_record (committed s) (c, REVERSAL_OPERATION, k) = Some (fp, Some (status, b))"
  shows "committed (snd (reverse_transfer P st amb c headers transfer_id s)) = committed s
    \<and> fst (reverse_transfer P st amb c headers transfer_id s) =
        (if fp \<noteq> reversal_fingerprint P oid then Inl (Fail IdempotencyConflict)
         else case stored_status P status of
           Inl e \<Rightarrow> Inl (Fail e) | Inr n \<Rightarrow> Inr \<lparr>resp_status = n, resp_body = b\<rparr>)"
proof -
  let ?s = "s\<lparr>work := committed s\<rparr>"
  have "stored_record (work ?s) (c, REVERSAL_OPERATION, k) = Some (fp, Some (status, b))"
    using stored by simp
  from reversal_body_done [OF _ this, of P st amb oid] fine
  obtain s1 where s1: "fates s1 = []" "committed s1 = committed s" "work s1 = committed s"
    and body: "reversal_body P st amb c k oid ?s =
      ((if fp \<noteq> reversal_fingerprint P oid then Inl (Fail IdempotencyConflict)
        else case stored_status P status of
          Inl e \<Rightarrow> Inl (Fail e) | Inr n \<Rightarrow> Inr \<lparr>resp_status = n, resp_body = b\<rparr>), s1)"
    by auto
  from run_observed_fine [where body = "reversal_body P st amb c k oid" and fin = Operation_Reversal,
      OF _ body s1(1)] fine s1
  show ?thesis by (auto simp: reverse_transfer_enter [OF fine req] split: sum.splits)
qed

lemma reverse_transfer_outcome:
  assumes fine: "fates s = []" and plat: "platform_ok P" and led: "ledger_ok (committed s)"
    and c: "nonblank c" and ret: "retention_ok st amb" and ids: "fresh_ids amb (committed s)"
    and ver: "versions_ok (committed s)"
  shows "reversal_outcome P st amb c headers transfer_id (committed s)
     (fst (reverse_transfer P st amb c headers transfer_id s))
     (committed (snd (reverse_transfer P st amb c headers transfer_id s)))"
proof (cases "reversal_request P headers transfer_id")
  case (Inl e)
  then show ?thesis
    by (simp add: reversal_outcome_def reverse_transfer_unfold tx_bind_def from_result_def tx_throw_def)
next
  case (Inr v)
  obtain k oid where v: "v = (k, oid)" by (cases v)
  note req = Inr [unfolded v]
  let ?fp = "reversal_fingerprint P oid" and ?k = "(c, REVERSAL_OPERATION, k)"
  show ?thesis
  proof (cases "record_store.answer (committed s) ?k ?fp")
    case (Replayed q)
    obtain status b where q: "q = (status, b)" by (cases q)
    then have "stored_record (committed s) ?k = Some (?fp, Some (status, b))"
      using Replayed by (simp add: answer_Replayed_iff)
    from reverse_transfer_done [OF fine req this, of st amb] show ?thesis
      by (simp add: reversal_outcome_def req Replayed q)
  next
    case Conflicting
    then obtain g r where g: "stored_record (committed s) ?k = Some (g, r)" "g \<noteq> ?fp"
      by (auto simp: answer_Conflicting_iff)
    then have "record_store.answer (committed s) ?k g \<noteq> Pending"
      using ledger_never_pending [OF led] by blast
    then obtain status b where "r = Some (status, b)"
      using g by (cases r) (auto simp: record_store.answer_def)
    with reverse_transfer_done [OF fine req, of c g status b st amb] g show ?thesis
      by (simp add: reversal_outcome_def req Conflicting)
  next
    case Pending
    then show ?thesis using ledger_never_pending [OF led] by blast
  next
    case Fresh
    let ?s = "s\<lparr>work := committed s\<rparr>"
    have k: "valid_key k"
      using req by (auto simp: reversal_request_def intro: from_headers_valid
          split: sum.splits option.splits)
    have new: "find_by idem_row_key ?k (idempotency_records (committed s)) = None"
      using Fresh by (simp add: answer_Fresh_iff)
    have chk: "idempotency_check (reservation_row (tx_time amb) (idempotency_retention st) ?k ?fp)"
      unfolding reversal_fingerprint_def using plat c k ret by (intro reservation_check) simp_all
    let ?d1 = "claim_record (tx_time amb) (idempotency_retention st) ?k ?fp (committed s)"
    obtain s1 where s1: "replay_or_reserve P Operation_Reversal (tx_time amb) (idempotency_retention st) c
        REVERSAL_OPERATION k ?fp ?s = (Inr None, s1)"
      "fates s1 = []" "work s1 = ?d1" "committed s1 = committed s"
      using replay_or_reserve_fresh [of ?s c REVERSAL_OPERATION k] new chk ret fine
      by (auto simp: retention_ok_def)
    have body: "reversal_body P st amb c k oid ?s = post_reversal P amb c k oid s1"
      using s1(1) by (simp add: reversal_body_def tx_bind_def)
    have "insert_idempotency (reservation_row (tx_time amb) (idempotency_retention st) ?k ?fp) (committed s)
        = Inr (1, ?d1)"
      using chk new by (simp add: insert_idempotency_def claim_record_def insert_idempotency_row_def)
    then have schema1: "schema_ok (work s1)"
      using led insert_idempotency_schema by (metis ledger_okD(1) s1(3))
    have recs: "idempotency_records (work s1) = idempotency_records (committed s) @
        [reservation_row (tx_time amb) (idempotency_retention st) ?k ?fp]"
      by (simp add: s1(3))
    have "fresh_ids amb (work s1)" "versions_ok (work s1)"
      using ids ver by (simp_all add: s1(3) fresh_ids_def versions_ok_def)
    note post = post_reversal_fine [OF s1(2) schema1 c recs new chk this, where oid = oid and P = P,
        unfolded s1(3) reversal_decision_claim]
    note obs = reverse_transfer_enter [OF fine req, of st amb c]
    note fineb = run_observed_fine [where body = "reversal_body P st amb c k oid" and s = ?s
        and fin = Operation_Reversal, unfolded body]
    show ?thesis
    proof (cases "reversal_decision c oid (committed s)")
      case (Inl e)
      then show ?thesis
        using post fineb [of "Inl (Fail e)" s1] s1 fine
        by (simp add: reversal_outcome_def req Fresh obs)
    next
      case dec: (Inr x)
      obtain t a b sb db where x: "x = (t, a, b, sb, db)" by (cases x)
      from post dec x obtain bd where
        bd: "\<forall>s. fst (reversal_response P oid (reversal_row amb c oid t)
              (reversal_account a) (reversal_account b) sb db s) = Inr bd" and
        run: "post_reversal P amb c k oid s1 = (Inr \<lparr>resp_status = 201, resp_body = bd\<rparr>,
           s1\<lparr>work := (apply_posting (tx_time amb) (reversal_row amb c oid t)
                 [(tr_destination t, sb), (tr_source t, db)]
                 (reversal_entries amb (reversal_row amb c oid t)) ?d1)
                 \<lparr>idempotency_records := idempotency_records (committed s) @
                   [completed_row (tx_time amb) (idempotency_retention st) ?k ?fp 201 bd
                      (new_v4 amb 0)]\<rparr>\<rparr>)"
        by auto
      have "(apply_posting (tx_time amb) (reversal_row amb c oid t)
                 [(tr_destination t, sb), (tr_source t, db)]
                 (reversal_entries amb (reversal_row amb c oid t)) ?d1)
                 \<lparr>idempotency_records := idempotency_records (committed s) @
                   [completed_row (tx_time amb) (idempotency_retention st) ?k ?fp 201 bd (new_v4 amb 0)]\<rparr>
          = reversal_applied amb (reversal_row amb c oid t) sb db
              (completed_row (tx_time amb) (idempotency_retention st) ?k ?fp 201 bd (new_v4 amb 0))
              (committed s)"
        by (simp add: reversal_applied_def apply_posting_def claim_record_def insert_idempotency_row_def)
      then show ?thesis
        using fineb [OF _ run] s1 fine bd dec x
        by (auto simp: reversal_outcome_def req Fresh obs intro!: exI [of _ bd])
    qed
  qed
qed

end
