(* ===== verification/History.thy ===== *)
theory History
  imports Ledger_Posting
begin

text \<open>
  Component \<open>history\<close> (\<open>src/api/history.rs\<close>): the entries of an account, newest first, in pages
  with a keyset cursor.  The cursor's JSON text (\<open>serde_json\<close>) is a pair of parameters; its
  hexadecimal envelope, the query string and the pages are translated.
\<close>

section \<open>Positions\<close>

text \<open>The SQL row comparison \<open>(created_at, id) < ($3, $4)\<close>.\<close>

datatype Position = Position (position_time: timestamp) (position_id: uuid)

instantiation Position :: linorder
begin

definition less_eq_Position :: "Position \<Rightarrow> Position \<Rightarrow> bool" where
  "less_eq_Position p q \<longleftrightarrow>
     position_time p < position_time q
     \<or> position_time p = position_time q \<and> position_id p \<le> position_id q"

definition less_Position :: "Position \<Rightarrow> Position \<Rightarrow> bool" where
  "less_Position p q \<longleftrightarrow>
     position_time p < position_time q
     \<or> position_time p = position_time q \<and> position_id p < position_id q"

instance
  by standard
     (auto simp: less_eq_Position_def less_Position_def Position.expand intro: Position.expand)

end

definition entry_position :: "EntryRow \<Rightarrow> Position" where
  "entry_position e = Position (en_created_at e) (en_id e)"

section \<open>Cursors\<close>

record Cursor =
  cu_version :: u8
  cu_account :: uuid
  cu_counterparty :: "uuid option"
  cu_created_at :: timestamp
  cu_entry :: uuid

text \<open>
  \<open>serde_json::to_vec\<close> and \<open>serde_json::from_slice\<close> on a \<open>Cursor\<close>, with what the code relies on:
  the text is not empty and reads back.
\<close>

record CursorJson =
  cursor_to_vec :: "Cursor \<Rightarrow> string"
  cursor_from_slice :: "string \<Rightarrow> Cursor option"

definition cursor_json_ok :: "CursorJson \<Rightarrow> bool" where
  "cursor_json_ok J \<longleftrightarrow>
     (\<forall>c. cursor_to_vec J c \<noteq> [] \<and> cursor_from_slice J (cursor_to_vec J c) = Some c)"

definition invalid_query :: AppError where
  "invalid_query = Validation ''invalid_limit'' ''The limit must be an integer from 1 to 100''"

definition invalid_cursor :: AppError where
  "invalid_cursor = Validation ''invalid_cursor'' ''The cursor is invalid''"

definition encode_cursor :: "CursorJson \<Rightarrow> Cursor \<Rightarrow> string" where
  "encode_cursor J c = ''v1.'' @ hex_encode (cursor_to_vec J c)"

definition decode_cursor :: "CursorJson \<Rightarrow> string \<Rightarrow> AppError + Cursor" where
  "decode_cursor J v =
     (case strip_prefix ''v1.'' v of
        None \<Rightarrow> Inl invalid_cursor
      | Some hex \<Rightarrow>
          if hex = [] \<or> odd (length hex) \<or> \<not> list_all is_ascii_hexdigit hex then Inl invalid_cursor
          else
            (case hex_decode hex of
               None \<Rightarrow> Inl invalid_cursor
             | Some bytes \<Rightarrow>
                 (case cursor_from_slice J bytes of
                    None \<Rightarrow> Inl invalid_cursor
                  | Some c \<Rightarrow> if cu_version c \<noteq> 1 then Inl invalid_cursor else Inr c)))"

section \<open>The query string\<close>

record Query =
  qu_counterparty :: "uuid option"
  qu_limit :: i64
  qu_cursor :: "Cursor option"

text \<open>\<open>str::split\<close> at a character: the parts between its occurrences.\<close>

fun split_char :: "char \<Rightarrow> string \<Rightarrow> string list" where
  "split_char c [] = [[]]"
| "split_char c (x # s) =
     (if x = c then [] # split_char c s
      else (case split_char c s of [] \<Rightarrow> [[x]] | p # ps \<Rightarrow> (x # p) # ps))"

lemma split_char_plain: "c \<notin> set s \<Longrightarrow> split_char c s = [s]"
  by (induction s) auto

lemma split_char_append: "c \<notin> set s \<Longrightarrow> split_char c (s @ c # t) = s # split_char c t"
  by (induction s) auto

text \<open>The raw values seen so far; each parameter may appear once.\<close>

record RawQuery =
  raw_counterparty :: "string option"
  raw_limit :: "string option"
  raw_cursor :: "string option"

definition read_part :: "RawQuery \<Rightarrow> string \<Rightarrow> AppError + RawQuery" where
  "read_part q part =
     (let (key, v) = (case split_once CHR ''='' part of None \<Rightarrow> (part, []) | Some kv \<Rightarrow> kv) in
      if key = ''counterparty_account_id'' then
        (if raw_counterparty q \<noteq> None then Inl invalid_query else Inr (q\<lparr>raw_counterparty := Some v\<rparr>))
      else if key = ''limit'' then
        (if raw_limit q \<noteq> None then Inl invalid_query else Inr (q\<lparr>raw_limit := Some v\<rparr>))
      else if key = ''cursor'' then
        (if raw_cursor q \<noteq> None then Inl invalid_cursor else Inr (q\<lparr>raw_cursor := Some v\<rparr>))
      else Inr q)"

fun read_parts :: "RawQuery \<Rightarrow> string list \<Rightarrow> AppError + RawQuery" where
  "read_parts q [] = Inr q"
| "read_parts q (part # parts) =
     (if part = [] then read_parts q parts
      else (case read_part q part of Inl e \<Rightarrow> Inl e | Inr q' \<Rightarrow> read_parts q' parts))"

definition parse_limit :: "string option \<Rightarrow> AppError + i64" where
  "parse_limit v =
     (case v of
        None \<Rightarrow> Inr 50
      | Some s \<Rightarrow>
          (case parse_i64 s of
             None \<Rightarrow> Inl invalid_query
           | Some n \<Rightarrow> if 1 \<le> n \<and> n \<le> 100 then Inr (word_of_int n) else Inl invalid_query))"

definition parse_query :: "Platform \<Rightarrow> CursorJson \<Rightarrow> string option \<Rightarrow> uuid \<Rightarrow> AppError + Query" where
  "parse_query P J raw account_id =
     (case read_parts \<lparr>raw_counterparty = None, raw_limit = None, raw_cursor = None\<rparr>
             (split_char CHR ''&'' (case raw of None \<Rightarrow> [] | Some s \<Rightarrow> s)) of
        Inl e \<Rightarrow> Inl e
      | Inr q \<Rightarrow>
          (case (case raw_counterparty q of
                   None \<Rightarrow> Inr None
                 | Some v \<Rightarrow>
                     (case parse_uuid P v of
                        None \<Rightarrow> Inl (Validation ''malformed_counterparty_account_id''
                                      ''The counterparty account ID is invalid'')
                      | Some u \<Rightarrow> Inr (Some u))) of
             Inl e \<Rightarrow> Inl e
           | Inr counterparty \<Rightarrow>
               (case parse_limit (raw_limit q) of
                  Inl e \<Rightarrow> Inl e
                | Inr limit \<Rightarrow>
                    (case (case raw_cursor q of
                             None \<Rightarrow> Inr None
                           | Some v \<Rightarrow> map_sum id Some (decode_cursor J v)) of
                       Inl e \<Rightarrow> Inl e
                     | Inr cursor \<Rightarrow>
                         if (case cursor of
                               None \<Rightarrow> False
                             | Some c \<Rightarrow> cu_account c \<noteq> account_id \<or> cu_counterparty c \<noteq> counterparty)
                         then Inl invalid_cursor
                         else Inr \<lparr>qu_counterparty = counterparty, qu_limit = limit,
                                   qu_cursor = cursor\<rparr>))))"

section \<open>The pages\<close>

definition entry_matches :: "uuid \<Rightarrow> uuid option \<Rightarrow> EntryRow \<Rightarrow> bool" where
  "entry_matches account_id counterparty e \<longleftrightarrow>
     en_account e = account_id \<and> (case counterparty of None \<Rightarrow> True | Some u \<Rightarrow> en_counterparty e = u)"

definition entry_below :: "Position option \<Rightarrow> EntryRow \<Rightarrow> bool" where
  "entry_below after e \<longleftrightarrow> (case after of None \<Rightarrow> True | Some p \<Rightarrow> entry_position e < p)"

text \<open>\<open>ORDER BY created_at DESC, id DESC\<close>.\<close>

definition newest_first :: "EntryRow list \<Rightarrow> EntryRow list" where
  "newest_first es = rev (sort_key entry_position es)"

definition select_history ::
  "uuid \<Rightarrow> uuid option \<Rightarrow> Position option \<Rightarrow> nat \<Rightarrow> EntryRow list statement" where
  "select_history account_id counterparty after n d =
     Inr (take n (newest_first (filter (\<lambda>e. entry_matches account_id counterparty e \<and> entry_below after e)
            (account_entries d))), d)"

definition select_owned_scale :: "uuid \<Rightarrow> string \<Rightarrow> i16 option statement" where
  "select_owned_scale account_id client_id d =
     Inr (case find_by acc_id account_id (accounts d) of
            Some r \<Rightarrow> if owner_id r = client_id then Some (currency_scale r) else None
          | None \<Rightarrow> None, d)"

primrec tx_map_list :: "('a \<Rightarrow> ('e, 'b) tx) \<Rightarrow> 'a list \<Rightarrow> ('e, 'b list) tx" where
  "tx_map_list f [] = tx_return []"
| "tx_map_list f (x # xs) =
     tx_bind (f x) (\<lambda>y. tx_bind (tx_map_list f xs) (\<lambda>ys. tx_return (y # ys)))"

definition format_option :: "i64 option \<Rightarrow> u8 \<Rightarrow> (AppError, Value) tx" where
  "format_option m scale =
     (case m of
        None \<Rightarrow> tx_return JNull
      | Some a \<Rightarrow> tx_bind (format_amount a scale) (\<lambda>s. tx_return (JString s)))"

definition account_entry_response :: "Platform \<Rightarrow> uuid \<Rightarrow> u8 \<Rightarrow> EntryRow \<Rightarrow> (AppError, Value) tx" where
  "account_entry_response P account_id scale e =
     tx_bind (format_amount (amount_minor e) scale) (\<lambda>amount.
     tx_bind (format_option (principal_minor e) scale) (\<lambda>principal.
     tx_bind (format_option (entry_fee_minor e) scale) (\<lambda>fee.
       tx_return (to_value
         [(''entry_id'', uuid_value P (en_id e)), (''transfer_id'', uuid_value P (en_transfer e)),
          (''account_id'', uuid_value P account_id),
          (''counterparty_account_id'', uuid_value P (en_counterparty e)),
          (''direction'', JString (direction_text (direction e))),
          (''operation_kind'', JString (kind_text (en_kind e))), (''amount'', JString amount),
          (''currency'', JString (en_currency e)), (''principal_amount'', principal),
          (''fee_amount'', fee), (''created_at'', JString (to_rfc3339 P (en_created_at e)))]))))"

text \<open>
  One row more than the page was asked for; when it came, the cursor is the last entry's of the
  page (\<open>expect\<close>: a page with a successor is not empty).
\<close>

definition last_entry :: "EntryRow list \<Rightarrow> EntryRow option" where
  "last_entry es = (if es = [] then None else Some (last es))"

definition next_cursor ::
  "CursorJson \<Rightarrow> uuid \<Rightarrow> Query \<Rightarrow> EntryRow list \<Rightarrow> (AppError, string option) tx" where
  "next_cursor J account_id query rows =
     (if nat (sint (qu_limit query)) < length rows then
        tx_bind (tx_expect (last_entry (take (nat (sint (qu_limit query))) rows))) (\<lambda>e.
          tx_return (Some (encode_cursor J
            \<lparr>cu_version = 1, cu_account = account_id, cu_counterparty = qu_counterparty query,
             cu_created_at = en_created_at e, cu_entry = en_id e\<rparr>)))
      else tx_return None)"

definition cursor_position :: "Cursor \<Rightarrow> Position" where
  "cursor_position c = Position (cu_created_at c) (cu_entry c)"

definition get_account_history ::
  "Platform \<Rightarrow> CursorJson \<Rightarrow> string \<Rightarrow> string \<Rightarrow> string option \<Rightarrow> (AppError, Response) tx" where
  "get_account_history P J client_id account raw =
     tx_bind (ok_or malformed_account_id (parse_uuid P account)) (\<lambda>account_id.
     tx_bind (from_result (parse_query P J raw account_id)) (\<lambda>query.
     tx_bind (map_err internal_sql (pool_query (select_owned_scale account_id client_id))) (\<lambda>found.
     tx_bind (ok_or NotFound found) (\<lambda>scale16.
     tx_bind (map_err internal_sql (pool_query (select_history account_id (qu_counterparty query)
         (map_option cursor_position (qu_cursor query)) (nat (sint (qu_limit query)) + 1)))) (\<lambda>rows.
     let entries = take (nat (sint (qu_limit query))) rows in
     tx_bind (next_cursor J account_id query rows) (\<lambda>next.
     tx_bind (from_result (u8_try_from scale16)) (\<lambda>scale.
     tx_bind (tx_map_list (account_entry_response P account_id scale) entries) (\<lambda>items.
       tx_return \<lparr>resp_status = 200, resp_body = to_value
         [(''items'', JArray items), (''next_cursor'', opt_value JString next)]\<rparr>))))))))"

section \<open>The order of the entries\<close>

lemma filter_newest_first: "newest_first (filter Q es) = filter Q (newest_first es)"
  by (simp add: newest_first_def filter_sort flip: rev_filter)

lemma set_newest_first [simp]: "set (newest_first es) = set es"
  by (simp add: newest_first_def)

lemma length_newest_first [simp]: "length (newest_first es) = length es"
  by (simp add: newest_first_def)

text \<open>Identifiers are distinct, so the order of the positions is strict.\<close>

lemma newest_first_strict:
  assumes "distinct (map en_id es)"
  shows "sorted_wrt (\<lambda>x y. entry_position y < entry_position x) (newest_first es)"
proof -
  let ?es = "sort_key entry_position es"
  have "sorted (map entry_position ?es)" by simp
  moreover have "distinct (map entry_position ?es)"
  proof -
    have "inj_on entry_position (set es)"
      using assms by (auto simp: inj_on_def entry_position_def distinct_map)
    moreover have "distinct es" using assms by (simp add: distinct_map)
    ultimately show ?thesis by (simp add: distinct_map)
  qed
  ultimately have "sorted_wrt (<) (map entry_position ?es)"
    by (simp add: strict_sorted_iff)
  then show ?thesis
    by (simp add: newest_first_def sorted_wrt_rev sorted_wrt_map)
qed

text \<open>The rows below the last row of a page are exactly the rows after it.\<close>

lemma strict_filter_drop:
  assumes "sorted_wrt (\<lambda>x y. f y < (f x :: 'a :: linorder)) es" and "n < length es" and "0 < n"
  shows "filter (\<lambda>e. f e < f (last (take n es))) es = drop n es"
proof -
  let ?l = "last (take n es)"
  have ne: "take n es \<noteq> []" using assms by auto
  have "sorted_wrt (\<lambda>x y. f y < f x) (take n es @ drop n es)" using assms(1) by simp
  then have above: "\<forall>x \<in> set (take n es). \<forall>y \<in> set (drop n es). f y < f x"
    and first: "sorted_wrt (\<lambda>x y. f y < f x) (take n es)"
    unfolding sorted_wrt_append by auto
  have "\<forall>x \<in> set (take n es). \<not> f x < f ?l"
  proof
    fix x assume x: "x \<in> set (take n es)"
    have split: "take n es = butlast (take n es) @ [?l]" using ne by simp
    have "\<forall>x \<in> set (butlast (take n es)). f ?l < f x"
      using first by (subst (asm) split) (simp add: sorted_wrt_append)
    moreover have "x \<in> set (butlast (take n es)) \<or> x = ?l"
      using x by (subst (asm) split) auto
    ultimately show "\<not> f x < f ?l" by auto
  qed
  moreover have "\<forall>y \<in> set (drop n es). f y < f ?l" using above last_in_set [OF ne] by blast
  ultimately have "filter (\<lambda>e. f e < f ?l) (take n es @ drop n es) = drop n es"
    unfolding filter_append by (simp add: filter_empty_conv filter_id_conv)
  then show ?thesis by simp
qed

section \<open>Cursors and queries read back\<close>

lemma hex_encode_plain: "CHR ''&'' \<notin> set (hex_encode s)"
proof
  assume "CHR ''&'' \<in> set (hex_encode s)"
  then have "is_ascii_hexdigit CHR ''&''"
    using hex_encode_hexdigits [of s] by (auto simp: list_all_iff)
  then show False by (simp add: is_ascii_hexdigit_def is_ascii_digit_def)
qed

lemma decode_encode_cursor:
  assumes "cursor_json_ok J" and "cu_version c = 1"
  shows "decode_cursor J (encode_cursor J c) = Inr c"
proof -
  have "strip_prefix ''v1.'' (encode_cursor J c) = Some (hex_encode (cursor_to_vec J c))"
    by (simp add: strip_prefix_def encode_cursor_def)
  then show ?thesis
    using assms
    by (simp add: decode_cursor_def hex.dec_enc hex_encode_hexdigits even_length_hex_encode
        cursor_json_ok_def)
qed

text \<open>
  The query string a client writes, and what the code relies on in the text of a UUID: it reads
  back and has no separator in it.
\<close>

definition query_text :: "Platform \<Rightarrow> uuid option \<Rightarrow> nat \<Rightarrow> string option \<Rightarrow> string" where
  "query_text P counterparty n cursor =
     ''limit='' @ show_nat n
     @ (case counterparty of None \<Rightarrow> [] | Some u \<Rightarrow> ''&counterparty_account_id='' @ show_uuid P u)
     @ (case cursor of None \<Rightarrow> [] | Some s \<Rightarrow> ''&cursor='' @ s)"

definition uuid_text_ok :: "Platform \<Rightarrow> bool" where
  "uuid_text_ok P \<longleftrightarrow>
     (\<forall>u. parse_uuid P (show_uuid P u) = Some u \<and> CHR ''&'' \<notin> set (show_uuid P u))"

lemma read_part_limit:
  "raw_limit q = None \<Longrightarrow> read_part q (''limit='' @ v) = Inr (q\<lparr>raw_limit := Some v\<rparr>)"
  using split_once_append [of "CHR ''=''" "''limit''" v] by (simp add: read_part_def)

lemma read_part_counterparty:
  "raw_counterparty q = None \<Longrightarrow>
     read_part q (''counterparty_account_id='' @ v) = Inr (q\<lparr>raw_counterparty := Some v\<rparr>)"
  using split_once_append [of "CHR ''=''" "''counterparty_account_id''" v] by (simp add: read_part_def)

lemma read_part_cursor:
  "raw_cursor q = None \<Longrightarrow> read_part q (''cursor='' @ v) = Inr (q\<lparr>raw_cursor := Some v\<rparr>)"
  using split_once_append [of "CHR ''=''" "''cursor''" v] by (simp add: read_part_def)

lemma show_nat_plain: "CHR ''&'' \<notin> set (show_nat n)"
proof
  assume "CHR ''&'' \<in> set (show_nat n)"
  then have "is_ascii_digit CHR ''&''"
    using show_nat_digits [of n] by (auto simp: list_all_iff)
  then show False by (simp add: is_ascii_digit_def)
qed

lemma split_optional_parts:
  assumes "c \<notin> set a" and "case x of None \<Rightarrow> True | Some s \<Rightarrow> c \<notin> set s"
    and "case y of None \<Rightarrow> True | Some s \<Rightarrow> c \<notin> set s"
  shows "split_char c (a @ (case x of None \<Rightarrow> [] | Some s \<Rightarrow> c # s) @ (case y of None \<Rightarrow> [] | Some s \<Rightarrow> c # s))
    = a # (case x of None \<Rightarrow> [] | Some s \<Rightarrow> [s]) @ (case y of None \<Rightarrow> [] | Some s \<Rightarrow> [s])"
  using assms by (cases x; cases y) (simp_all add: split_char_plain split_char_append)

lemma split_query_text:
  assumes "uuid_text_ok P" and "case cursor of None \<Rightarrow> True | Some s \<Rightarrow> CHR ''&'' \<notin> set s"
  shows "split_char CHR ''&'' (query_text P counterparty n cursor) =
    (''limit='' @ show_nat n)
    # (case counterparty of None \<Rightarrow> [] | Some u \<Rightarrow> [''counterparty_account_id='' @ show_uuid P u])
    @ (case cursor of None \<Rightarrow> [] | Some s \<Rightarrow> [''cursor='' @ s])"
proof -
  let ?x = "map_option (\<lambda>u. ''counterparty_account_id='' @ show_uuid P u) counterparty"
  let ?y = "map_option (\<lambda>s. ''cursor='' @ s) cursor"
  have form: "query_text P counterparty n cursor = (''limit='' @ show_nat n)
     @ (case ?x of None \<Rightarrow> [] | Some s \<Rightarrow> CHR ''&'' # s) @ (case ?y of None \<Rightarrow> [] | Some s \<Rightarrow> CHR ''&'' # s)"
    by (simp add: query_text_def split: option.split)
  have "CHR ''&'' \<notin> set (''limit='' @ show_nat n)" using show_nat_plain [of n] by simp
  moreover have "case ?x of None \<Rightarrow> True | Some s \<Rightarrow> CHR ''&'' \<notin> set s"
    using assms(1) by (simp add: uuid_text_ok_def split: option.split)
  moreover have "case ?y of None \<Rightarrow> True | Some s \<Rightarrow> CHR ''&'' \<notin> set s"
    using assms(2) by (simp split: option.splits)
  ultimately show ?thesis
    unfolding form by (subst split_optional_parts) (auto split: option.split)
qed

lemma parse_limit_show:
  assumes "1 \<le> n" and "n \<le> 100"
  shows "parse_limit (Some (show_nat n)) = Inr (word_of_nat n)"
proof -
  have "parse_i64 (show_int (int n)) = Some (int n)"
    unfolding parse_i64_def using assms by (intro parse_signed_show_int) (simp_all add: i64_min_def i64_max_def)
  then have "parse_i64 (show_nat n) = Some (int n)" by (simp add: show_int_nonneg)
  then show ?thesis using assms by (simp add: parse_limit_def)
qed

lemma encode_cursor_plain: "CHR ''&'' \<notin> set (encode_cursor J c)"
  using hex_encode_plain by (simp add: encode_cursor_def)

lemma parse_query_text:
  assumes "uuid_text_ok P" and "cursor_json_ok J" and "1 \<le> n" and "n \<le> 100"
    and "case cursor of None \<Rightarrow> True
         | Some c \<Rightarrow> cu_version c = 1 \<and> cu_account c = account_id \<and> cu_counterparty c = counterparty"
  shows "parse_query P J (Some (query_text P counterparty n (map_option (encode_cursor J) cursor))) account_id
    = Inr \<lparr>qu_counterparty = counterparty, qu_limit = word_of_nat n, qu_cursor = cursor\<rparr>"
proof -
  have plain: "case map_option (encode_cursor J) cursor of None \<Rightarrow> True | Some s \<Rightarrow> CHR ''&'' \<notin> set s"
    using encode_cursor_plain by (cases cursor) simp_all
  have "read_parts \<lparr>raw_counterparty = None, raw_limit = None, raw_cursor = None\<rparr>
      ((''limit='' @ show_nat n)
       # (case counterparty of None \<Rightarrow> [] | Some u \<Rightarrow> [''counterparty_account_id='' @ show_uuid P u])
       @ (case map_option (encode_cursor J) cursor of None \<Rightarrow> [] | Some s \<Rightarrow> [''cursor='' @ s]))
    = Inr \<lparr>raw_counterparty = map_option (show_uuid P) counterparty, raw_limit = Some (show_nat n),
           raw_cursor = map_option (encode_cursor J) cursor\<rparr>"
    using read_part_limit read_part_counterparty read_part_cursor
    by (cases counterparty; cases cursor) simp_all
  moreover have "decode_cursor J (encode_cursor J c) = Inr c" if "cursor = Some c" for c
    using decode_encode_cursor [OF assms(2)] assms(5) that by simp
  ultimately show ?thesis
    unfolding parse_query_def option.case split_query_text [OF assms(1) plain]
    using assms(1,5) parse_limit_show [OF assms(3,4)]
    by (cases counterparty; cases cursor) (simp_all add: uuid_text_ok_def)
qed

text \<open>Whatever string arrives: an accepted query is bounded, and its cursor belongs to it.\<close>

lemma parse_limit_bounds: "parse_limit v = Inr l \<Longrightarrow> 1 \<le> sint l \<and> sint l \<le> 100"
proof -
  have small: "sint (word_of_int n :: i64) = n" if "1 \<le> n" "n \<le> 100" for n
    using that by (simp add: signed_of_int signed_take_bit_int_eq_self)
  assume "parse_limit v = Inr l"
  then show ?thesis by (auto simp: parse_limit_def small split: option.splits if_splits)
qed

lemma parse_query_Inr:
  assumes "parse_query P J raw account_id = Inr q"
  shows "1 \<le> sint (qu_limit q) \<and> sint (qu_limit q) \<le> 100
    \<and> (case qu_cursor q of None \<Rightarrow> True
       | Some c \<Rightarrow> cu_account c = account_id \<and> cu_counterparty c = qu_counterparty q)"
  using assms
  by (auto simp: parse_query_def split: sum.splits if_splits option.splits dest!: parse_limit_bounds)

section \<open>A page of the history\<close>

definition history_rows :: "uuid \<Rightarrow> uuid option \<Rightarrow> Database \<Rightarrow> EntryRow list" where
  "history_rows account_id counterparty d =
     newest_first (filter (entry_matches account_id counterparty) (account_entries d))"

definition rows_below :: "Cursor option \<Rightarrow> EntryRow list \<Rightarrow> EntryRow list" where
  "rows_below cursor es = filter (entry_below (map_option cursor_position cursor)) es"

definition entry_cursor :: "uuid \<Rightarrow> uuid option \<Rightarrow> EntryRow \<Rightarrow> Cursor" where
  "entry_cursor account_id counterparty e =
     \<lparr>cu_version = 1, cu_account = account_id, cu_counterparty = counterparty,
      cu_created_at = en_created_at e, cu_entry = en_id e\<rparr>"

lemma entry_cursor_position [simp]: "cursor_position (entry_cursor a cp e) = entry_position e"
  by (simp add: entry_cursor_def cursor_position_def entry_position_def)

lemma select_history_rows:
  "select_history account_id counterparty (map_option cursor_position cursor) n d =
     Inr (take n (rows_below cursor (history_rows account_id counterparty d)), d)"
proof -
  have "(\<lambda>e. entry_matches account_id counterparty e \<and> entry_below q e)
      = (\<lambda>e. entry_below q e \<and> entry_matches account_id counterparty e)" for q
    by auto
  then show ?thesis
    by (simp add: select_history_def rows_below_def history_rows_def filter_newest_first conj_commute)
qed

text \<open>The two members of the answer a client reads.\<close>

definition page_entries :: "Response \<Rightarrow> Value list" where
  "page_entries resp = (case json_get ''items'' (resp_body resp) of Some (JArray vs) \<Rightarrow> vs | _ \<Rightarrow> [])"

definition page_next :: "Response \<Rightarrow> string option" where
  "page_next resp = (case json_get ''next_cursor'' (resp_body resp) of Some (JString s) \<Rightarrow> Some s | _ \<Rightarrow> None)"

lemma pool_query_fine:
  assumes "fates s = []" and "st (committed s) = Inr (x, d)"
  shows "pool_query st s = (Inr x, drop_transaction s)"
  using assms by (simp add: pool_query_def execute_fine drop_transaction_def)

lemma format_amount_scale:
  assumes "account_check r"
  shows "\<exists>shown. \<forall>s. format_amount m (ucast (currency_scale r)) s = (Inr shown, s)"
  using format_minor_units_total [OF ucast_scale [OF assms], of m]
  by (auto simp: format_amount_def tx_expect_def tx_return_def)

lemma account_entry_response_total:
  assumes "account_check r"
  shows "\<exists>v. (\<forall>s. account_entry_response P k (ucast (currency_scale r)) e s = (Inr v, s))
    \<and> json_get ''entry_id'' v = Some (uuid_value P (en_id e))"
proof -
  have opt: "\<exists>v. \<forall>s. format_option m (ucast (currency_scale r)) s = (Inr v, s)" for m
  proof (cases m)
    case (Some a)
    obtain shown where
      "\<forall>s. (format_amount a (ucast (currency_scale r)) :: (AppError, string) tx) s = (Inr shown, s)"
      using format_amount_scale [OF assms] by blast
    then show ?thesis by (auto simp: format_option_def Some tx_bind_def tx_return_def)
  qed (simp add: format_option_def tx_return_def)
  obtain a where
    a: "\<And>s. (format_amount (amount_minor e) (ucast (currency_scale r)) :: (AppError, string) tx) s = (Inr a, s)"
    using format_amount_scale [OF assms] by blast
  obtain p where p: "\<And>s. format_option (principal_minor e) (ucast (currency_scale r)) s = (Inr p, s)"
    using opt by blast
  obtain f where f: "\<And>s. format_option (entry_fee_minor e) (ucast (currency_scale r)) s = (Inr f, s)"
    using opt by blast
  show ?thesis
    by (simp add: account_entry_response_def tx_bind_def a p f tx_return_def json_get_to_value)
qed

lemma tx_map_list_total:
  assumes "\<And>x. x \<in> set xs \<Longrightarrow> \<exists>v. (\<forall>s. f x s = (Inr v, s)) \<and> Q x v"
  shows "\<exists>vs. (\<forall>s. tx_map_list f xs s = (Inr vs, s)) \<and> list_all2 Q xs vs"
  using assms
proof (induction xs)
  case (Cons x xs)
  obtain v where v: "\<forall>s. f x s = (Inr v, s)" "Q x v" using Cons.prems by (meson list.set_intros(1))
  obtain vs where vs: "\<forall>s. tx_map_list f xs s = (Inr vs, s)" "list_all2 Q xs vs"
    using Cons by (meson list.set_intros(2))
  show ?case
    using v vs by (intro exI [of _ "v # vs"]) (simp add: tx_bind_def tx_return_def)
qed (simp add: tx_return_def)

lemma get_account_history_fine:
  assumes fine: "fates s = []" and acct: "parse_uuid P account = Some account_id"
    and q: "parse_query P J raw account_id = Inr q"
    and own: "find_by acc_id account_id (accounts (committed s)) = Some r" "owner_id r = c"
    and chk: "account_check r"
  defines "rows \<equiv> rows_below (qu_cursor q) (history_rows account_id (qu_counterparty q) (committed s))"
    and "n \<equiv> nat (sint (qu_limit q))"
  shows "\<exists>resp. get_account_history P J c account raw s = (Inr resp, drop_transaction s)
    \<and> resp_status resp = 200
    \<and> map (json_get ''entry_id'') (page_entries resp) = map (\<lambda>e. Some (uuid_value P (en_id e))) (take n rows)
    \<and> page_next resp = (if n < length rows
        then Some (encode_cursor J (entry_cursor account_id (qu_counterparty q) (last (take n rows))))
        else None)"
proof -
  have n: "0 < n" using parse_query_Inr [OF q] by (simp add: n_def)
  have scale: "pool_query (select_owned_scale account_id c) s = (Inr (Some (currency_scale r)), drop_transaction s)"
    using fine own by (intro pool_query_fine) (simp_all add: select_owned_scale_def)
  have more: "pool_query (select_history account_id (qu_counterparty q)
      (map_option cursor_position (qu_cursor q)) (n + 1)) (drop_transaction s)
      = (Inr (take (n + 1) rows), drop_transaction s)"
    using fine
    by (subst pool_query_fine [where x = "take (n + 1) rows" and d = "committed s"])
       (simp_all add: drop_transaction_def select_history_rows rows_def)
  define got where "got = take (n + 1) rows"
  have has: "n < length got \<longleftrightarrow> n < length rows" by (auto simp: got_def)
  have tk: "take n got = take n rows" by (simp add: got_def)
  have next_eq: "next_cursor J account_id q got s' =
      (Inr (if n < length rows
        then Some (encode_cursor J (entry_cursor account_id (qu_counterparty q) (last (take n rows))))
        else None), s')" for s'
    using n unfolding next_cursor_def n_def [symmetric] has tk
    by (auto simp: tx_bind_def tx_expect_def last_entry_def tx_return_def entry_cursor_def)
  have "0 \<le> sint (currency_scale r)" "sint (currency_scale r) \<le> 18"
    using chk by (simp_all add: account_check_def)
  then have u8: "u8_try_from (currency_scale r) = Inr (ucast (currency_scale r))"
    by (simp add: u8_try_from_def)
  obtain vs where vs: "\<forall>s. tx_map_list (account_entry_response P account_id (ucast (currency_scale r)))
      (take n rows) s = (Inr vs, s)"
    "list_all2 (\<lambda>e v. json_get ''entry_id'' v = Some (uuid_value P (en_id e))) (take n rows) vs"
    using tx_map_list_total [of "take n rows" "account_entry_response P account_id (ucast (currency_scale r))"
        "\<lambda>e v. json_get ''entry_id'' v = Some (uuid_value P (en_id e))"]
      account_entry_response_total [OF chk] by blast
  have ids: "map (json_get ''entry_id'') vs = map (\<lambda>e. Some (uuid_value P (en_id e))) (take n rows)"
    using vs(2) by (induction rule: list_all2_induct) simp_all
  let ?next = "if n < length rows
        then Some (encode_cursor J (entry_cursor account_id (qu_counterparty q) (last (take n rows))))
        else None"
  let ?resp = "\<lparr>resp_status = 200, resp_body =
      to_value [(''items'', JArray vs), (''next_cursor'', opt_value JString ?next)]\<rparr>"
  have "get_account_history P J c account raw s = (Inr ?resp, drop_transaction s)"
    using scale more [folded got_def] vs(1)
    by (simp add: get_account_history_def acct q own tx_bind_def ok_or_def from_result_def tx_return_def
        map_err_def Let_def next_eq u8 tk flip: n_def)
  moreover have "page_entries ?resp = vs" by (simp add: page_entries_def json_get_to_value)
  moreover have "page_next ?resp = ?next"
    by (simp add: page_next_def json_get_to_value opt_value_def split: option.split)
  ultimately show ?thesis using ids by (intro exI [of _ ?resp]) simp
qed

section \<open>Reading a whole history\<close>

text \<open>
  A client that asks for pages of \<open>n\<close> entries and follows \<open>next_cursor\<close> until it is absent: the
  entries' identifiers in the order it reads them.  \<open>None\<close> is a walk that has not ended after
  \<open>fuel\<close> pages, or that was refused a page.
\<close>

fun client_walk ::
  "nat \<Rightarrow> Platform \<Rightarrow> CursorJson \<Rightarrow> string \<Rightarrow> string \<Rightarrow> uuid option \<Rightarrow> nat \<Rightarrow> string option \<Rightarrow> Session
    \<Rightarrow> Value option list option" where
  "client_walk 0 P J c account counterparty n cursor s = None"
| "client_walk (Suc fuel) P J c account counterparty n cursor s =
     (case get_account_history P J c account (Some (query_text P counterparty n cursor)) s of
        (Inl _, _) \<Rightarrow> None
      | (Inr resp, s') \<Rightarrow>
          map_option (append (map (json_get ''entry_id'') (page_entries resp)))
            (case page_next resp of
               None \<Rightarrow> Some []
             | Some text \<Rightarrow> client_walk fuel P J c account counterparty n (Some text) s'))"

lemma history_rows_strict:
  assumes "schema_ok d"
  shows "sorted_wrt (\<lambda>x y. entry_position y < entry_position x) (history_rows account_id counterparty d)"
proof -
  have "distinct (map en_id (account_entries d))" using assms by (simp add: schema_ok_def keys_ok_def)
  then have "distinct (map en_id (filter (entry_matches account_id counterparty) (account_entries d)))"
    by (rule distinct_map_filter)
  then show ?thesis unfolding history_rows_def by (rule newest_first_strict)
qed

lemma rows_below_entry:
  assumes "sorted_wrt (\<lambda>x y. entry_position y < entry_position x) rows" and "0 < n" and "n < length rows"
  shows "rows_below (Some (entry_cursor a cp (last (take n rows)))) rows = drop n rows"
  using strict_filter_drop [OF assms(1,3,2)]
  by (simp add: rows_below_def entry_below_def cong: filter_cong)

lemma rows_below_twice:
  assumes "entry_below (map_option cursor_position q) e"
  shows "rows_below (Some (entry_cursor a cp e)) rows = rows_below (Some (entry_cursor a cp e)) (rows_below q rows)"
  using assms by (auto simp: rows_below_def entry_below_def split: option.splits intro!: filter_cong)

lemma rows_below_below:
  assumes "sorted_wrt (\<lambda>x y. entry_position y < entry_position x) rows" and "0 < n"
    and "n < length (rows_below q rows)"
  shows "rows_below (Some (entry_cursor a cp (last (take n (rows_below q rows))))) rows
       = drop n (rows_below q rows)"
proof -
  let ?b = "rows_below q rows" and ?e = "last (take n (rows_below q rows))"
  have sorted: "sorted_wrt (\<lambda>x y. entry_position y < entry_position x) ?b"
    unfolding rows_below_def using assms(1) by (rule sorted_wrt_filter)
  have "?e \<in> set (take n ?b)" using assms(2,3) by (intro last_in_set) auto
  then have "?e \<in> set ?b" by (rule in_set_takeD)
  then have "entry_below (map_option cursor_position q) ?e" by (simp add: rows_below_def)
  from rows_below_twice [OF this] show ?thesis
    using rows_below_entry [OF sorted assms(2,3)] by simp
qed

lemma client_walk_from:
  assumes plat: "uuid_text_ok P" "cursor_json_ok J" and n: "1 \<le> n" "n \<le> 100"
    and acct: "parse_uuid P account = Some account_id"
    and own: "find_by acc_id account_id (accounts d) = Some r" "owner_id r = c" and schema: "schema_ok d"
    and "fates s = []" and "committed s = d"
    and "case cursor of None \<Rightarrow> True
         | Some k \<Rightarrow> cu_version k = 1 \<and> cu_account k = account_id \<and> cu_counterparty k = counterparty"
    and "length (rows_below cursor (history_rows account_id counterparty d)) < fuel"
  shows "client_walk fuel P J c account counterparty n (map_option (encode_cursor J) cursor) s =
    Some (map (\<lambda>e. Some (uuid_value P (en_id e))) (rows_below cursor (history_rows account_id counterparty d)))"
  using assms(9-)
proof (induction fuel arbitrary: cursor s)
  case (Suc fuel)
  let ?all = "history_rows account_id counterparty d"
  let ?rows = "rows_below cursor ?all"
  let ?text = "query_text P counterparty n (map_option (encode_cursor J) cursor)"
  let ?q = "\<lparr>qu_counterparty = counterparty, qu_limit = word_of_nat n, qu_cursor = cursor\<rparr>"
  have q: "parse_query P J (Some ?text) account_id = Inr ?q"
    by (rule parse_query_text [OF plat n Suc.prems(3)])
  have lim: "nat (sint (qu_limit ?q)) = n"
    using n by (simp add: signed_of_nat signed_take_bit_int_eq_self)
  note strict = history_rows_strict [OF schema, of account_id counterparty]
  have "account_check r" using schema own(1) by (rule schema_account_check)
  from get_account_history_fine [OF Suc.prems(1) acct q _ own(2) this] own(1) Suc.prems(2)
  obtain resp where
    run: "get_account_history P J c account (Some ?text) s = (Inr resp, drop_transaction s)" and
    ids: "map (json_get ''entry_id'') (page_entries resp)
        = map (\<lambda>e. Some (uuid_value P (en_id e))) (take n ?rows)" and
    next_eq: "page_next resp = (if n < length ?rows
        then Some (encode_cursor J (entry_cursor account_id counterparty (last (take n ?rows)))) else None)"
    unfolding lim by auto
  show ?case
  proof (cases "n < length ?rows")
    case False
    then show ?thesis using run ids next_eq by simp
  next
    case True
    let ?k = "entry_cursor account_id counterparty (last (take n ?rows))"
    have rest: "rows_below (Some ?k) ?all = drop n ?rows"
      by (rule rows_below_below [OF strict _ True]) (use n in simp)
    have "length (rows_below (Some ?k) ?all) < fuel"
      using rest True n Suc.prems(4) by simp
    moreover have "fates (drop_transaction s) = []" "committed (drop_transaction s) = d"
      using Suc.prems(1,2) by (simp_all add: drop_transaction_def)
    ultimately have "client_walk fuel P J c account counterparty n
        (map_option (encode_cursor J) (Some ?k)) (drop_transaction s)
      = Some (map (\<lambda>e. Some (uuid_value P (en_id e))) (rows_below (Some ?k) ?all))"
      using Suc.IH [of "drop_transaction s" "Some ?k"] by (simp add: entry_cursor_def)
    then show ?thesis
      using run ids next_eq True rest by (simp flip: map_append)
  qed
qed simp

section \<open>Concrete parameters\<close>

text \<open>A cursor text for the concrete runs: fixed-width fields and a signed decimal time.\<close>

definition demo_cursor_json :: CursorJson where
  "demo_cursor_json =
     \<lparr>cursor_to_vec = (\<lambda>c.
        char_of (unat (cu_version c)) # (if cu_counterparty c = None then CHR ''n'' else CHR ''s'')
        # (if cu_created_at c < 0 then CHR ''-'' else CHR ''+'')
        # uuid_as_bytes (cu_account c) @ uuid_as_bytes (case cu_counterparty c of None \<Rightarrow> 0 | Some u \<Rightarrow> u)
        @ uuid_as_bytes (cu_entry c) @ show_nat (nat \<bar>cu_created_at c\<bar>)),
      cursor_from_slice = (\<lambda>s.
        (case s of
           v # k # g # rest \<Rightarrow>
             (case (uuid_from_bytes (take 16 rest), uuid_from_bytes (take 16 (drop 16 rest)),
                    uuid_from_bytes (take 16 (drop 32 rest)), parse_digits (drop 48 rest)) of
                (Some a, Some cp, Some e, Some n) \<Rightarrow>
                  Some \<lparr>cu_version = of_nat (of_char v), cu_account = a,
                        cu_counterparty = (if k = CHR ''n'' then None else Some cp),
                        cu_created_at = (if g = CHR ''-'' then - int n else int n), cu_entry = e\<rparr>
              | _ \<Rightarrow> None)
         | _ \<Rightarrow> None))\<rparr>"

lemma demo_cursor_json_ok [simp]: "cursor_json_ok demo_cursor_json"
proof -
  have v: "(of_nat (unat w mod 256) :: u8) = w" for w :: u8
  proof -
    have "unat w < 2 ^ LENGTH(8)" by (rule unsigned_less)
    then show ?thesis by simp
  qed
  have "cursor_from_slice demo_cursor_json (cursor_to_vec demo_cursor_json c) = Some c" for c
    by (cases "cu_counterparty c")
       (simp_all add: demo_cursor_json_def uuid_bytes.length_enc uuid_bytes.dec_enc v)
  then show ?thesis by (simp add: cursor_json_ok_def) (simp add: demo_cursor_json_def)
qed

lemma demo_uuid_text_ok [simp]: "uuid_text_ok demo_platform"
  by (simp add: uuid_text_ok_def demo_platform_def show_nat_plain)

section \<open>Properties\<close>

text \<open>
  An accepted history query, whatever string arrives, asks for 1 to 100 entries, and a
  cursor it carries was issued for the same account and the same counterparty filter: a cursor
  cannot be replayed on another account or another filter.
\<close>

lemma history_query_bound:
  assumes "parse_query P J raw account_id = Inr q"
  shows "1 \<le> sint (qu_limit q) \<and> sint (qu_limit q) \<le> 100
    \<and> (\<forall>k. qu_cursor q = Some k \<longrightarrow> cu_account k = account_id \<and> cu_counterparty k = qu_counterparty q)"
  using parse_query_Inr [OF assms] by auto

lemma history_query_bound_witness:
  "\<exists>q. parse_query demo_platform demo_cursor_json (Some (query_text demo_platform (Some 8) 100 None)) 7
     = Inr q \<and> sint (qu_limit q) \<le> 100"
proof -
  have "parse_query demo_platform demo_cursor_json
      (Some (query_text demo_platform (Some 8) 100 (map_option (encode_cursor demo_cursor_json) None))) 7
    = Inr \<lparr>qu_counterparty = Some 8, qu_limit = word_of_nat 100, qu_cursor = None\<rparr>"
    by (rule parse_query_text) simp_all
  from this history_query_bound [OF this] show ?thesis by simp
qed

text \<open>
  C33: Cursors and queries read back: the service accepts every cursor it issues, and the query
  string that carries it, the limit and the counterparty filter parses to exactly these values.
\<close>

theorem history_query_roundtrip:
  assumes "uuid_text_ok P" and "cursor_json_ok J" and "1 \<le> n" and "n \<le> 100" and "cu_version k = 1"
  shows "decode_cursor J (encode_cursor J k) = Inr k
    \<and> parse_query P J (Some (query_text P (cu_counterparty k) n (Some (encode_cursor J k)))) (cu_account k)
      = Inr \<lparr>qu_counterparty = cu_counterparty k, qu_limit = word_of_nat n, qu_cursor = Some k\<rparr>"
  using decode_encode_cursor [OF assms(2,5)]
    parse_query_text [OF assms(1-4), where cursor = "Some k" and account_id = "cu_account k"
      and counterparty = "cu_counterparty k"] assms(5)
  by simp

theorem history_query_roundtrip_witness:
  "decode_cursor demo_cursor_json (encode_cursor demo_cursor_json (entry_cursor 7 (Some 8)
      \<lparr>en_id = 5, en_account = 7, en_transfer = 1, en_counterparty = 8, direction = Debit,
       en_kind = Kind_Transfer, amount_minor = 3, en_currency = ''PLN'', principal_minor = None,
       entry_fee_minor = None, en_created_at = 1000\<rparr>))
    = Inr \<lparr>cu_version = 1, cu_account = 7, cu_counterparty = Some 8, cu_created_at = 1000, cu_entry = 5\<rparr>"
  using history_query_roundtrip [of demo_platform demo_cursor_json 10
      "\<lparr>cu_version = 1, cu_account = 7, cu_counterparty = Some 8, cu_created_at = 1000, cu_entry = 5\<rparr>"]
  by (simp add: entry_cursor_def)

text \<open>
  C17: Following \<open>next_cursor\<close> reads the whole history: a client that owns the account and asks
  for pages of any allowed size reads every entry of the account (of the counterparty, when it
  filters) exactly once, newest first, ties in the time broken by the identifier, and the walk
  ends by itself: a page without \<open>next_cursor\<close> comes within as many pages as there are entries,
  and one more.
\<close>

theorem history_pages_complete:
  assumes "uuid_text_ok P" and "cursor_json_ok J" and "1 \<le> n" and "n \<le> 100"
    and "parse_uuid P account = Some account_id"
    and "find_by acc_id account_id (accounts (committed s)) = Some r" and "owner_id r = c"
    and "schema_ok (committed s)" and "fates s = []"
    and "length (account_entries (committed s)) < fuel"
  shows "client_walk fuel P J c account counterparty n None s =
      Some (map (\<lambda>e. Some (uuid_value P (en_id e))) (history_rows account_id counterparty (committed s)))
    \<and> set (history_rows account_id counterparty (committed s))
      = {e \<in> set (account_entries (committed s)). entry_matches account_id counterparty e}
    \<and> sorted_wrt (\<lambda>x y. entry_position y < entry_position x)
        (history_rows account_id counterparty (committed s))"
proof -
  let ?rows = "history_rows account_id counterparty (committed s)"
  have below: "rows_below None ?rows = ?rows" by (simp add: rows_below_def entry_below_def)
  have "length ?rows \<le> length (account_entries (committed s))"
    by (simp add: history_rows_def)
  then have len: "length (rows_below None ?rows) < fuel" using assms(10) below by simp
  have "client_walk fuel P J c account counterparty n (map_option (encode_cursor J) None) s =
      Some (map (\<lambda>e. Some (uuid_value P (en_id e))) (rows_below None ?rows))"
    by (rule client_walk_from [OF assms(1-9) refl _ len]) simp
  then show ?thesis
    using history_rows_strict [OF assms(8), of account_id counterparty]
    by (simp add: below) (auto simp: history_rows_def)
qed

text \<open>A ledger with three entries of Alice's account, two of them at the same instant.\<close>

definition demo_entry :: "uuid \<Rightarrow> timestamp \<Rightarrow> EntryRow" where
  "demo_entry k now =
     \<lparr>en_id = k, en_account = 1, en_transfer = 50, en_counterparty = 2, direction = Debit,
      en_kind = Kind_Transfer, amount_minor = 10, en_currency = ''PLN'', principal_minor = None,
      entry_fee_minor = None, en_created_at = now\<rparr>"

definition demo_history :: Database where
  "demo_history = demo_ledger
     \<lparr>transfers :=
        [\<lparr>tr_id = 50, tr_source = 1, tr_destination = 2, tr_source_currency = ''PLN'',
          tr_destination_currency = ''PLN'', source_amount_minor = 10, destination_amount_minor = 10,
          fee_amount_minor = 0, total_debit_minor = 10, tr_fee_bps = None, tr_exchange_rate = None,
          tr_exchange_rate_id = None, tr_kind = Kind_Transfer, reverses = None,
          initiated_by = ''alice'', tr_created_at = 100\<rparr>],
      account_entries := [demo_entry 12 100, demo_entry 11 100, demo_entry 13 200]\<rparr>"

lemma demo_history_schema: "schema_ok demo_history"
proof -
  have "schema_ok demo_ledger" using demo_ledger_ok by (rule ledger_okD)
  moreover have "nonblank ''alice''" "currency_code_ok ''PLN''" by code_simp+
  ultimately show ?thesis
    by (simp add: schema_ok_def keys_ok_def checks_ok_def refs_ok_def demo_history_def demo_entry_def
        entry_check_def transfer_check_def transfer_refs_ok_def entry_refs_ok_def)
       (simp add: demo_ledger_def demo_account_def)
qed

theorem history_pages_complete_witness:
  "client_walk 4 demo_platform demo_cursor_json ''alice'' ''1'' None 1 None (demo_session demo_history)
   = Some (map (\<lambda>k. Some (uuid_value demo_platform k)) [13, 12, 11])"
proof -
  have pid: "parse_uuid demo_platform ''1'' = Some 1" by code_simp
  have acc: "find_by acc_id 1 (accounts demo_history) = Some (demo_account 1 ''alice'' ''PLN'' 5000)"
    by (simp add: demo_history_def demo_ledger_def demo_account_def)
  have "history_rows 1 None demo_history = [demo_entry 13 200, demo_entry 12 100, demo_entry 11 100]"
    by (simp add: history_rows_def newest_first_def demo_history_def entry_matches_def demo_entry_def
        entry_position_def less_eq_Position_def)
  then show ?thesis
    using history_pages_complete [of demo_platform demo_cursor_json 1 "''1''" 1
        "demo_session demo_history" "demo_account 1 ''alice'' ''PLN'' 5000" "''alice''" 4 None]
      pid acc demo_history_schema
    by (simp add: demo_session_def) (simp add: demo_history_def demo_account_def demo_entry_def)
qed

text \<open>
  Pages are stable under new postings: entries that are appended with a
  later time than the cursor's do not change any page below the cursor.
\<close>

lemma history_page_stable:
  assumes "account_entries d' = account_entries d @ es"
    and "list_all (\<lambda>e. position_time p < en_created_at e) es"
  shows "\<exists>rows. select_history account_id counterparty (Some p) n d = Inr (rows, d)
    \<and> select_history account_id counterparty (Some p) n d' = Inr (rows, d')"
proof -
  have "\<not> entry_below (Some p) e" if "e \<in> set es" for e
    using assms(2) that by (auto simp: entry_below_def entry_position_def less_Position_def list_all_iff)
  then have "filter (\<lambda>e. entry_matches account_id counterparty e \<and> entry_below (Some p) e) es = []"
    by (auto simp: filter_empty_conv)
  then show ?thesis by (simp add: select_history_def assms(1))
qed

lemma history_page_stable_witness:
  "\<exists>rows. select_history 1 None (Some (Position 200 13)) 5 demo_history = Inr (rows, demo_history)
    \<and> rows = [demo_entry 12 100, demo_entry 11 100]
    \<and> select_history 1 None (Some (Position 200 13)) 5
        (demo_history\<lparr>account_entries := account_entries demo_history @ [demo_entry 1 300]\<rparr>)
      = Inr (rows, demo_history\<lparr>account_entries := account_entries demo_history @ [demo_entry 1 300]\<rparr>)"
proof -
  have "select_history 1 None (Some (Position 200 13)) 5 demo_history
      = Inr ([demo_entry 12 100, demo_entry 11 100], demo_history)"
    by (simp add: select_history_def newest_first_def demo_history_def entry_matches_def demo_entry_def
        entry_position_def less_eq_Position_def less_Position_def entry_below_def)
  moreover have "list_all (\<lambda>e. position_time (Position 200 13) < en_created_at e) [demo_entry 1 300]"
    by (simp add: demo_entry_def)
  ultimately show ?thesis
    using history_page_stable [of "demo_history\<lparr>account_entries := account_entries demo_history @ [demo_entry 1 300]\<rparr>"
        demo_history "[demo_entry 1 300]" "Position 200 13" 1 None 5] by auto
qed

end
