(* ===== verification/Telemetry.thy ===== *)
theory Telemetry
  imports Accounts Transfers Reversals History
begin

text \<open>
  What the operations record (\<open>src/observability.rs\<close> as the handlers call it): which metrics a
  computation leaves alone, that an observed transaction, however it ends, is counted once under
  the outcome it ends in, and the stages in which \<open>create_transfer\<close> reaches its observation.
\<close>

section \<open>Recorded metrics\<close>

primrec metric_name :: "Metric \<Rightarrow> string" where
  "metric_name (Counter n labels) = n"
| "metric_name (Histogram n labels) = n"

definition recorded :: "string \<Rightarrow> Session \<Rightarrow> Metric list" where
  "recorded n s = filter (\<lambda>m. metric_name m = n) (emitted s)"

definition leaves :: "string \<Rightarrow> ('e, 'a) tx \<Rightarrow> bool" where
  "leaves n m \<longleftrightarrow> (\<forall>s r s'. m s = (r, s') \<longrightarrow> recorded n s' = recorded n s)"

named_theorems leaves_intros \<open>computations that do not record a metric\<close>

lemma leavesI: "(\<And>s r s'. m s = (r, s') \<Longrightarrow> recorded n s' = recorded n s) \<Longrightarrow> leaves n m"
  by (simp add: leaves_def)

lemma leavesD: "leaves n m \<Longrightarrow> m s = (r, s') \<Longrightarrow> recorded n s' = recorded n s"
  by (simp add: leaves_def)

lemma recorded_simps [simp]:
  "recorded n (s\<lparr>work := d\<rparr>) = recorded n s" "recorded n (s\<lparr>committed := d\<rparr>) = recorded n s"
  "recorded n (s\<lparr>fates := fs\<rparr>) = recorded n s" "recorded n (drop_transaction s) = recorded n s"
  "recorded n (s\<lparr>emitted := emitted s @ ms\<rparr>) = recorded n s @ filter (\<lambda>m. metric_name m = n) ms"
  by (simp_all add: recorded_def drop_transaction_def)

lemma leaves_basic [leaves_intros]:
  "leaves n (tx_return x)" "leaves n (tx_throw e)" "leaves n tx_panic"
  by (simp_all add: leaves_def tx_return_def tx_throw_def tx_panic_def)

lemma leaves_cases [leaves_intros]:
  "leaves n (from_result q)" "leaves n (ok_or e x)" "leaves n (ensure b e)" "leaves n (tx_expect x)"
  by (auto simp: from_result_def ok_or_def ensure_def tx_expect_def leaves_basic
      split: sum.split option.split)

lemma leaves_bind [leaves_intros]:
  assumes "leaves n m" and "\<And>x. leaves n (f x)"
  shows "leaves n (tx_bind m f)"
  using assms by (fastforce simp: leaves_def tx_bind_def split: prod.splits sum.splits)

lemma leaves_then [leaves_intros]: "leaves n m \<Longrightarrow> leaves n m' \<Longrightarrow> leaves n (tx_then m m')"
  by (simp add: tx_then_def leaves_bind)

lemma leaves_map_err [leaves_intros]: "leaves n m \<Longrightarrow> leaves n (map_err f m)"
  by (auto simp: leaves_def map_err_def split: prod.splits sum.splits)

lemma recorded_next_fate: "next_fate s = (f, s') \<Longrightarrow> recorded n s' = recorded n s"
  by (auto simp: next_fate_def recorded_def split: list.splits)

lemma leaves_execute [leaves_intros]: "leaves n (execute st)"
  by (rule leavesI) (auto simp: execute_def recorded_next_fate split: prod.splits Fate.splits sum.splits)

lemma leaves_commit [leaves_intros]: "leaves n commit" "leaves n rollback"
  by (rule leavesI;
      auto simp: commit_def rollback_def recorded_next_fate split: prod.splits Fate.splits)+

lemma leaves_begin [leaves_intros]: "leaves n begin_transaction" "leaves n pool_acquire"
  unfolding begin_transaction_def pool_acquire_def
  by (intro leaves_intros leavesI; clarsimp)+

lemma leaves_pool_query [leaves_intros]: "leaves n (pool_query st)"
  using leaves_execute [of n st] by (fastforce simp: leaves_def pool_query_def split: prod.splits)

lemma leaves_emit [leaves_intros]: "list_all (\<lambda>m. metric_name m \<noteq> n) ms \<Longrightarrow> leaves n (emit ms)"
  by (auto simp: leaves_def emit_def filter_empty_conv list_all_iff)

lemma leaves_split [leaves_intros]:
  "(\<And>x. leaves n (f x)) \<Longrightarrow> leaves n (Let y f)"
  "(\<And>a b. leaves n (g a b)) \<Longrightarrow> leaves n (case p of (a, b) \<Rightarrow> g a b)"
  "(b \<Longrightarrow> leaves n m) \<Longrightarrow> (\<not> b \<Longrightarrow> leaves n m') \<Longrightarrow> leaves n (if b then m else m')"
  "leaves n m \<Longrightarrow> (\<And>x. leaves n (f x)) \<Longrightarrow> leaves n (case z of None \<Rightarrow> m | Some x \<Rightarrow> f x)"
  by (simp_all split: prod.split option.split)

section \<open>The stages of a financial write\<close>

lemma leaves_format [leaves_intros]: "leaves n (format_amount a scale)" "leaves n (stored_response P st b)"
  by (auto simp: format_amount_def stored_response_def intro: leaves_intros)

lemma leaves_for_each [leaves_intros]: "(\<And>x. leaves n (f x)) \<Longrightarrow> leaves n (tx_for_each f xs)"
  by (induction xs) (auto intro: leaves_intros)

lemma leaves_record_posting [leaves_intros]: "leaves n (record_posting now t bs es)"
  unfolding record_posting_def by (intro leaves_intros)

lemma leaves_idempotency [leaves_intros]:
  "leaves n (completed_success c op k)" "leaves n (reserve now c op k fp ret)"
  "leaves n (store_success c op k st b u)"
  unfolding completed_success_def reserve_def store_success_def
  by (auto intro!: leaves_intros split: option.split)

abbreviation operations_total :: string where "operations_total \<equiv> ''ledger_operations_total''"
abbreviation http_requests_total :: string where "http_requests_total \<equiv> ''ledger_http_requests_total''"

lemma leaves_replay_or_reserve [leaves_intros]:
  assumes "n \<noteq> ''ledger_idempotency_outcomes_total''"
  shows "leaves n (replay_or_reserve P fin now ret c op k fp)"
  using assms unfolding replay_or_reserve_def Let_def observation_idempotency_eq
  by (auto intro!: leaves_intros split: option.split Reservation.split
      simp: idem_metrics_def idempotency_metric_def)

lemma leaves_configuration [leaves_intros]:
  "leaves n (select_exchange_rate a b t)" "leaves n (select_fee_rule a b t)"
  unfolding select_exchange_rate_def select_fee_rule_def pair_fee_rows_def default_fee_rows_def
  by (auto intro!: leaves_intros split: list.split option.split)

lemma leaves_transfer_stages [leaves_intros]:
  "leaves n (fx_configuration fin p t)" "leaves n (lock_accounts a b)" "leaves n (cast_rate r)"
  "leaves n (transfer_response P t' src dst)"
  unfolding fx_configuration_def lock_accounts_def cast_rate_def transfer_response_def Let_def
  by (auto intro!: leaves_intros split: option.split FinancialOperation.split)

lemma leaves_transfer_body [leaves_intros]:
  "n \<noteq> ''ledger_idempotency_outcomes_total'' \<Longrightarrow>
     leaves n (transfer_body P st amb c k fin p source destination input)"
  unfolding transfer_body_def post_transfer_def Let_def
  by (auto intro!: leaves_intros split: option.split)

lemma leaves_reversal_stages [leaves_intros]:
  "leaves n (lock_reversal_accounts a b)" "leaves n (decide_reversal c k)"
  "leaves n (reversal_response P k t src dst sb db)"
  unfolding decide_reversal_def lock_reversal_accounts_def reversal_response_def Let_def
  by (auto intro!: leaves_intros)

lemma leaves_reversal_body [leaves_intros]:
  "n \<noteq> ''ledger_idempotency_outcomes_total'' \<Longrightarrow> leaves n (reversal_body P st amb c k oid)"
  unfolding reversal_body_def post_reversal_def Let_def
  by (auto intro!: leaves_intros split: option.split)

section \<open>One outcome per attempt\<close>

text \<open>The outcome an attempt ends in: what its answer says, or an internal error without one.\<close>

definition terminal_outcome :: "AppError fault + 'a \<Rightarrow> TerminalOutcome \<times> FinancialReason" where
  "terminal_outcome r =
     (case r of
        Inr _ \<Rightarrow> (Terminal_Success, Reason_None)
      | Inl (Fail e) \<Rightarrow> financial_metric_outcome e
      | Inl _ \<Rightarrow> (Terminal_InternalError, Reason_InternalError))"

definition counted_as :: "FinancialOperation \<Rightarrow> AppError fault + 'a \<Rightarrow> Metric" where
  "counted_as fin r = (case terminal_outcome r of (outcome, reason) \<Rightarrow>
     operation_completed_metric fin outcome reason)"

lemma operation_names [simp]:
  "metric_name (operation_completed_metric fin outcome reason) = operations_total"
  "metric_name (transaction_duration_metric fin outcome) = ''ledger_database_transaction_duration_seconds''"
  by (simp_all add: operation_completed_metric_def transaction_duration_metric_def)

lemma counted_as_simps [simp]:
  "metric_name (counted_as fin r) = operations_total"
  "counted_as fin (Inr x) = operation_completed_metric fin Terminal_Success Reason_None"
  "terminal_outcome (Inr x) = (Terminal_Success, Reason_None)"
  by (simp_all add: counted_as_def terminal_outcome_def split: prod.split)

lemma rollback_result: "rollback s = (q, s') \<Longrightarrow> q = Inr () \<or> q = Inl Cancelled"
  by (auto simp: rollback_def next_fate_def split: prod.splits Fate.splits list.splits)

lemma commit_result:
  "commit s = (q, s') \<Longrightarrow> q = Inr () \<or> q = Inl (Fail ConnectionLost) \<or> q = Inl Cancelled"
  by (auto simp: commit_def next_fate_def split: prod.splits Fate.splits list.splits)

lemma recorded_close:
  "recorded n (close_observation (observation_complete (observation_started fin) outcome reason) s)
   = recorded n s @ filter (\<lambda>m. metric_name m = n)
       [operation_completed_metric fin outcome reason, transaction_duration_metric fin outcome]"
  by (simp add: close_observation_def observation_complete_def observation_started_def
      observation_drop_def)

lemma recorded_unwind:
  "recorded n (unwind (observation_started fin) s)
   = recorded n s @ filter (\<lambda>m. metric_name m = n)
       [operation_completed_metric fin Terminal_InternalError Reason_InternalError,
        transaction_duration_metric fin Terminal_InternalError]"
  by (simp add: unwind_def observation_drop_def observation_complete_def observation_started_def)

lemma reject_complete:
  "observation_reject obs e =
     (case financial_metric_outcome e of (outcome, reason) \<Rightarrow> observation_complete obs outcome reason)"
  by (simp add: observation_reject_def)

lemma run_observed_recorded:
  assumes body: "leaves n body" and run: "run_observed fin body s = (r, s')"
  shows "recorded n s' = recorded n s @ filter (\<lambda>m. metric_name m = n)
    [counted_as fin r, transaction_duration_metric fin (fst (terminal_outcome r))]"
proof -
  obtain r1 s1 where b: "body s = (r1, s1)" by fastforce
  note same = leavesD [OF body b]
  have reject: "recorded n (close_observation (observation_reject (observation_started fin) e) s2)
      = recorded n s2 @ filter (\<lambda>m. metric_name m = n)
          [counted_as fin (Inl (Fail e) :: AppError fault + 'a),
           transaction_duration_metric fin (fst (terminal_outcome (Inl (Fail e) :: AppError fault + 'a)))]"
    for e s2
    by (cases "financial_metric_outcome e")
       (simp add: reject_complete recorded_close counted_as_def terminal_outcome_def)
  have lost: "recorded n (unwind (observation_started fin) s2)
      = recorded n s2 @ filter (\<lambda>m. metric_name m = n)
          [counted_as fin (Inl f :: AppError fault + 'a),
           transaction_duration_metric fin (fst (terminal_outcome (Inl f :: AppError fault + 'a)))]"
    if "f = Panicked \<or> f = Cancelled" for f s2
    using that by (auto simp: recorded_unwind counted_as_def terminal_outcome_def)
  show ?thesis
  proof (cases r1)
    case (Inr x)
    obtain q s2 where c: "commit s1 = (q, s2)" by fastforce
    have "recorded n s2 = recorded n s" using leavesD [OF leaves_commit(1) c] same by simp
    note facts = this run [unfolded run_observed_def Let_def] b Inr c
    consider "q = Inr ()" | "q = Inl (Fail ConnectionLost)" | "q = Inl Cancelled"
      using commit_result [OF c] by blast
    then show ?thesis
    proof cases
      case 1
      with facts have "r = Inr x" and
        "s' = close_observation (observation_complete (observation_started fin) Terminal_Success Reason_None) s2"
        by simp_all
      then show ?thesis using facts(1) by (simp only: recorded_close counted_as_simps fst_conv)
    next
      case 2
      with facts have "r = Inl (Fail (internal_sql ConnectionLost))" and "s' = close_observation
        (observation_reject (observation_started fin) (internal_sql ConnectionLost)) (drop_transaction s2)"
        by simp_all
      then show ?thesis using facts(1) by (simp only: reject recorded_simps)
    next
      case 3
      with facts have "r = Inl Cancelled" and "s' = unwind (observation_started fin) s2" by simp_all
      then show ?thesis using facts(1) lost [of Cancelled s2] by (simp only: simp_thms)
    qed
  next
    case (Inl f)
    obtain q :: "AppError fault + unit" and s2 where c: "rollback s1 = (q, s2)" by fastforce
    have "recorded n s2 = recorded n s" using leavesD [OF leaves_commit(2) c] same by simp
    note facts = run [unfolded run_observed_def Let_def] b Inl
    show ?thesis
    proof (cases "\<exists>e. f = Fail e")
      case True
      then obtain e where e: "f = Fail e" by blast
      consider "q = Inr ()" | "q = Inl Cancelled" using rollback_result [OF c] by blast
      then show ?thesis
      proof cases
        case 1
        with facts e c have "r = Inl (Fail e)"
          and "s' = close_observation (observation_reject (observation_started fin) e) s2" by simp_all
        then show ?thesis using \<open>recorded n s2 = recorded n s\<close> by (simp only: reject)
      next
        case 2
        with facts e c have "r = Inl Cancelled" and "s' = unwind (observation_started fin) s2" by simp_all
        then show ?thesis
          using \<open>recorded n s2 = recorded n s\<close> lost [of Cancelled s2] by (simp only: simp_thms)
      qed
    next
      case False
      then have f: "f = Panicked \<or> f = Cancelled" by (cases f) simp_all
      with facts have "r = Inl f" and "s' = unwind (observation_started fin) s1" by auto
      then show ?thesis using same lost [OF f, of s1] by simp
    qed
  qed
qed

text \<open>The fate of the next call, and the calls after it.\<close>

definition first_fate :: "Session \<Rightarrow> Fate" where
  "first_fate s = (case fates s of [] \<Rightarrow> Fine | f # fs \<Rightarrow> f)"

lemma next_fate_eq: "next_fate s = (first_fate s, s\<lparr>fates := tl (fates s)\<rparr>)"
  by (cases s) (simp add: next_fate_def first_fate_def split: list.split)

lemma begin_stage:
  assumes "begin_transaction s = (q, s')"
  shows "recorded n s' = recorded n s \<and> committed s' = committed s
    \<and> (case first_fate s of
         Fine \<Rightarrow> q = Inr () \<and> fates s' = tl (fates s) \<and> work s' = committed s
       | Lost \<Rightarrow> q = Inl (Fail ConnectionLost) | AckLost \<Rightarrow> q = Inl (Fail ConnectionLost)
       | Dropped \<Rightarrow> q = Inl Cancelled | AckDropped \<Rightarrow> q = Inl Cancelled)"
  using assms
  by (cases "first_fate s")
     (auto simp: begin_transaction_def tx_then_def tx_bind_def execute_def next_fate_eq)

lemma begin_counted_recorded:
  assumes "begin_counted fin s = (r, s')"
  shows "committed s' = committed s \<and>
    recorded operations_total s' = recorded operations_total s @
      (if first_fate s \<in> {Lost, AckLost} then [counted_as fin r] else [])
    \<and> (case first_fate s of
         Fine \<Rightarrow> r = Inr ()
       | Lost \<Rightarrow> r = Inl (Fail lost) | AckLost \<Rightarrow> r = Inl (Fail lost)
       | Dropped \<Rightarrow> r = Inl Cancelled | AckDropped \<Rightarrow> r = Inl Cancelled)"
proof -
  obtain q s1 where b: "begin_transaction s = (q, s1)" by fastforce
  from begin_stage [OF b, of operations_total] show ?thesis
    using assms b
    by (cases "first_fate s")
       (auto simp: begin_counted_def Let_def map_fault_def counted_as_def terminal_outcome_def
          record_operation_without_transaction_def lost_def split: prod.splits)
qed

lemma tx_bind_cases:
  assumes "tx_bind m f s = (r, s')"
  obtains e where "m s = (Inl e, s')" and "r = Inl e"
  | x s1 where "m s = (Inr x, s1)" and "f x s1 = (r, s')"
  using assms by (auto simp: tx_bind_def split: prod.splits sum.splits)

text \<open>The stages of \<open>create_transfer\<close> before it knows its operation.\<close>

lemma acquire_stage:
  assumes "(case pool_acquire s of
       (Inr _, s1) \<Rightarrow> (Inr (), s1\<lparr>emitted := emitted s1 @ record_transfer_pool_acquire Pool_Success\<rparr>)
     | (Inl (Fail e), s1) \<Rightarrow>
         (Inl (Fail (internal_sql e)),
          s1\<lparr>emitted := emitted s1 @ record_transfer_pool_acquire Pool_Failure\<rparr>)
     | (Inl f, s1) \<Rightarrow> (Inl (map_fault internal_sql f), s1)) = (q, s')"
  shows "recorded operations_total s' = recorded operations_total s \<and> committed s' = committed s
    \<and> (q = Inr () \<longleftrightarrow> first_fate s = Fine) \<and> fates s' = tl (fates s)"
  using assms
  by (cases "first_fate s")
     (auto simp: pool_acquire_def execute_def next_fate_eq record_transfer_pool_acquire_def recorded_def)

text \<open>The operation between two accounts, by their currencies.\<close>

definition operation_between :: "uuid \<Rightarrow> uuid \<Rightarrow> Database \<Rightarrow> FinancialOperation option" where
  "operation_between source destination d =
     (case (find_by acc_id source (accounts d), find_by acc_id destination (accounts d)) of
        (Some a, Some b) \<Rightarrow>
          if acc_currency a \<noteq> acc_currency b then Some Operation_FxTransfer
          else if currency_scale a = currency_scale b then Some Operation_Transfer else None
      | _ \<Rightarrow> None)"

lemma preliminary_stage:
  assumes "(case tx_bind (run_statement (select_preliminary source destination)) (\<lambda>row.
                 tx_bind (ok_or AccountUnavailable row) (\<lambda>p.
                 tx_bind (from_result (classify_transfer p)) (\<lambda>fin. tx_return (p, fin)))) s of
       (Inr x, s1) \<Rightarrow> (Inr x, s1)
     | (Inl f, s1) \<Rightarrow> (Inl f, drop_transaction s1)) = (q, s')"
  shows "recorded operations_total s' = recorded operations_total s \<and> committed s' = committed s
    \<and> (case q of
         Inr (p, fin) \<Rightarrow> first_fate s = Fine \<and> operation_between source destination (work s) = Some fin
       | Inl _ \<Rightarrow> first_fate s \<noteq> Fine \<or> operation_between source destination (work s) = None)"
  using assms
  by (cases "first_fate s"; cases "find_by acc_id source (accounts (work s))";
      cases "find_by acc_id destination (accounts (work s))")
     (auto simp: tx_bind_def map_err_def execute_def next_fate_eq select_preliminary_def ok_or_def
        from_result_def tx_return_def tx_throw_def classify_transfer_def preliminary_of_def
        operation_between_def drop_transaction_def recorded_def split: if_splits)

lemma leaves_transactional [leaves_intros]:
  assumes "leaves n body" and "\<And>x. leaves n (answer x)"
  shows "leaves n (transactional body answer)"
proof -
  have body': "leaves n (tx_bind body (\<lambda>x. tx_then (map_err internal_sql commit) (answer x)))"
    using assms by (intro leaves_intros)
  have "leaves n (\<lambda>s. case tx_bind body (\<lambda>x. tx_then (map_err internal_sql commit) (answer x)) s of
         (Inr y, s') \<Rightarrow> (Inr y, s') | (Inl f, s') \<Rightarrow> (Inl f, drop_transaction s'))"
    by (rule leavesI) (auto dest: leavesD [OF body'] split: prod.splits sum.splits)
  then show ?thesis unfolding transactional_def by (intro leaves_intros)
qed

lemma leaves_create_account [leaves_intros]:
  "leaves n (create_account P st amb c headers request)"
  unfolding create_account_def create_account_body_def Let_def
  by (auto intro!: leaves_intros split: Reservation.split sum.split prod.split)

end
