(* ===== verification/Health.thy ===== *)
theory Health
  imports Telemetry
begin

text \<open>
  Component \<open>health and readiness\<close> (\<open>src/api/health.rs\<close>): the process's health, and whether the
  database answers.
\<close>

definition status_response :: "string \<Rightarrow> Value" where
  "status_response status = JObject [(''status'', JString status)]"

definition health :: "(AppError, Response) tx" where
  "health = tx_return \<lparr>resp_status = 200, resp_body = status_response ''ok''\<rparr>"

definition select_one :: "int statement" where
  "select_one d = Inr (1, d)"

definition ready :: "(AppError, Response) tx" where
  "ready s =
     (case pool_query select_one s of
        (Inr _, s1) \<Rightarrow>
          (Inr \<lparr>resp_status = 200, resp_body = status_response ''ready''\<rparr>,
           s1\<lparr>emitted := emitted s1 @ record_readiness_check Readiness_Ready Readiness_None\<rparr>)
      | (Inl (Fail _), s1) \<Rightarrow>
          (Inl (Fail ServiceUnavailable),
           s1\<lparr>emitted := emitted s1 @
                record_readiness_check Readiness_NotReady Readiness_DatabaseUnavailable\<rparr>)
      | (Inl f, s1) \<Rightarrow> (Inl (map_fault internal_sql f), s1))"

text \<open>The answer and the record of a check whose query failed.\<close>

definition unavailable :: "Session \<Rightarrow> (AppError fault + Response) \<times> Session \<Rightarrow> bool" where
  "unavailable s x \<longleftrightarrow>
     fst x = Inl (Fail ServiceUnavailable) \<and> fst (response_parts ServiceUnavailable) = 503
     \<and> emitted (snd x) = emitted s @
         [Counter ''ledger_readiness_checks_total''
            [(''outcome'', ''not_ready''), (''reason'', ''database_unavailable'')],
          Histogram ''ledger_readiness_check_duration_seconds'' [(''outcome'', ''not_ready'')]]"

text \<open>A read of the pool: it keeps the database, and its failures are the connection's.\<close>

lemma pool_query_cases:
  assumes "pool_query st s = (q, s')"
  shows "committed s' = committed s \<and> emitted s' = emitted s
    \<and> ((\<exists>x d. q = Inr x \<and> st (committed s) = Inr (x, d)) \<or> (\<exists>e. q = Inl (Fail e)) \<or> q = Inl Cancelled)"
  using assms
  by (auto simp: pool_query_def execute_def next_fate_def drop_transaction_def
      split: prod.splits Fate.splits list.splits sum.splits)

lemma ready_committed: "ready s = (r, s') \<Longrightarrow> committed s' = committed s"
  by (cases "pool_query select_one s")
     (auto simp: ready_def dest!: pool_query_cases split: sum.splits fault.splits)

text \<open>
  C37: What a readiness check answers and records is decided by what its query meets.  A query that
  runs is answered 200 with \<open>ready\<close>, one that fails is answered 503, never 500, and either records
  exactly one counted outcome and one duration, of that answer; a check whose client goes away
  during the query answers nothing and records nothing.  No check changes the database, and a
  healthy process answers 200 without asking it.
\<close>

theorem readiness_reported:
  "committed (snd (ready s)) = committed s
   \<and> (case fst (next_fate s) of
        Fine \<Rightarrow> fst (ready s) = Inr \<lparr>resp_status = 200, resp_body = status_response ''ready''\<rparr>
          \<and> emitted (snd (ready s)) = emitted s @
              [Counter ''ledger_readiness_checks_total'' [(''outcome'', ''ready''), (''reason'', ''none'')],
               Histogram ''ledger_readiness_check_duration_seconds'' [(''outcome'', ''ready'')]]
      | Lost \<Rightarrow> unavailable s (ready s)
      | AckLost \<Rightarrow> unavailable s (ready s)
      | Dropped \<Rightarrow> fst (ready s) = Inl Cancelled \<and> emitted (snd (ready s)) = emitted s
      | AckDropped \<Rightarrow> fst (ready s) = Inl Cancelled \<and> emitted (snd (ready s)) = emitted s)
   \<and> health s = (Inr \<lparr>resp_status = 200, resp_body = status_response ''ok''\<rparr>, s)"
  by (auto simp: ready_def unavailable_def pool_query_def execute_def next_fate_def select_one_def
      drop_transaction_def map_fault_def record_readiness_check_def readiness_outcome_as_str_def
      readiness_reason_as_str_def response_parts_def health_def tx_return_def split: list.split Fate.split)

lemma ready_leaves:
  assumes "n \<noteq> ''ledger_readiness_checks_total''" and "n \<noteq> ''ledger_readiness_check_duration_seconds''"
  shows "leaves n ready"
proof (rule leavesI)
  fix s r s' assume run: "ready s = (r, s')"
  obtain q s1 where q: "pool_query select_one s = (q, s1)" by fastforce
  then show "recorded n s' = recorded n s"
    using run assms leavesD [OF leaves_pool_query q]
    by (cases q; cases "projl q") (auto simp: ready_def record_readiness_check_def)
qed

end
