(* ===== verification/App.thy ===== *)
theory App
  imports Auth Health
begin

text \<open>
  Component \<open>router\<close> (\<open>src/app.rs\<close>): the routes, and a request from its head to its reply: the
  route is looked up, the extractors of the handler run in their order (the client before the
  path and the body), the handler runs, an error becomes its response, and the middleware
  observes the reply.  What axum and serde do with paths and bodies is a parameter (\<open>Server\<close>).
  A handler that panics, or whose client went away, sends no reply.
\<close>

section \<open>Requests and replies\<close>

record HttpCall =
  http_method :: string
  http_path :: string
  http_query :: "string option"
  http_headers :: HeaderMap
  http_body :: string

datatype Body = Body_Json Value | Body_Text string | Body_Empty

record Reply =
  reply_status :: nat
  reply_body :: Body
  reply_request_id :: string

text \<open>
  The application with what it takes from its crates: JSON bodies of the two request types
  (\<open>None\<close> is a rejection), a decoded path segment or the rejection's status and text, the text of
  the metrics, the OpenAPI document.
\<close>

record 'key Server =
  sv_platform :: Platform
  sv_jwt :: "'key Jwt"
  sv_cursor :: CursorJson
  json_account :: "HeaderMap \<Rightarrow> string \<Rightarrow> CreateAccountRequest option"
  json_transfer :: "HeaderMap \<Rightarrow> string \<Rightarrow> CreateTransferRequest option"
  path_param :: "string \<Rightarrow> (nat \<times> string) + string"
  render_metrics :: "Metric list \<Rightarrow> string"
  openapi_document :: Value
  app_state :: AppState
  app_auth :: "'key AuthVerifier"

section \<open>Routes\<close>

datatype Endpoint =
    Metrics | Health | Ready | Openapi | Create_Account | Get_Balance | Get_Account_History
  | Create_Transfer | Get_Transfer | Reverse_Transfer

definition routes :: "(string \<times> string \<times> Endpoint) list" where
  "routes =
     [(''/metrics'', ''GET'', Metrics),
      (''/health'', ''GET'', Health),
      (''/ready'', ''GET'', Ready),
      (''/openapi.json'', ''GET'', Openapi),
      (''/accounts'', ''POST'', Create_Account),
      (''/accounts/{account_id}/balance'', ''GET'', Get_Balance),
      (''/accounts/{account_id}/entries'', ''GET'', Get_Account_History),
      (''/transfers'', ''POST'', Create_Transfer),
      (''/transfers/{transfer_id}'', ''GET'', Get_Transfer),
      (''/transfers/{transfer_id}/reversal'', ''POST'', Reverse_Transfer)]"

text \<open>A template's \<open>{name}\<close> segment captures one nonempty segment of the path.\<close>

fun match_segments :: "string list \<Rightarrow> string list \<Rightarrow> string list option" where
  "match_segments [] [] = Some []"
| "match_segments (p # ps) (x # xs) =
     (if p \<noteq> [] \<and> hd p = CHR 0x7B
      then (if x = [] then None else map_option (Cons x) (match_segments ps xs))
      else if p = x then match_segments ps xs else None)"
| "match_segments _ _ = None"

definition match_route :: "string \<Rightarrow> string \<Rightarrow> string list option" where
  "match_route template path = match_segments (split_char CHR ''/'' template) (split_char CHR ''/'' path)"

definition find_route ::
  "string \<Rightarrow> (string \<times> string \<times> Endpoint \<times> string list) option" where
  "find_route path =
     (case filter (\<lambda>(template, method, e). match_route template path \<noteq> None) routes of
        [] \<Rightarrow> None
      | (template, method, e) # _ \<Rightarrow> Some (template, method, e, the (match_route template path)))"

text \<open>\<open>get\<close> also answers \<open>HEAD\<close>, without the body.\<close>

definition accepts_method :: "string \<Rightarrow> string \<Rightarrow> bool" where
  "accepts_method allowed m \<longleftrightarrow> m = allowed \<or> allowed = ''GET'' \<and> m = ''HEAD''"

section \<open>Handling a request\<close>

definition error_envelope :: "ApiErrorBody \<Rightarrow> Value" where
  "error_envelope b =
     JObject [(''error'', JObject
       [(''code'', JString (error_code b)), (''message'', JString (error_message b)),
        (''details'', opt_value id (error_details b)),
        (''request_id'', opt_value JString (error_request_id b))])]"

definition into_response :: "AppError \<Rightarrow> nat \<times> Body" where
  "into_response e = (case response_parts e of (status, body) \<Rightarrow> (status, Body_Json (error_envelope body)))"

definition json_reply :: "(AppError, Response) tx \<Rightarrow> (AppError, nat \<times> Body) tx" where
  "json_reply m = tx_bind m (\<lambda>r. tx_return (resp_status r, Body_Json (resp_body r)))"

definition authenticated ::
  "'key Server \<Rightarrow> HttpCall \<Rightarrow> (string \<Rightarrow> (AppError, nat \<times> Body) tx) \<Rightarrow> (AppError, nat \<times> Body) tx" where
  "authenticated S req f =
     tx_bind (from_result (from_request_parts (sv_platform S) (sv_jwt S) (app_auth S) (http_headers req))) f"

definition with_path ::
  "'key Server \<Rightarrow> string list \<Rightarrow> (string \<Rightarrow> (AppError, nat \<times> Body) tx) \<Rightarrow> (AppError, nat \<times> Body) tx" where
  "with_path S captures f =
     (case path_param S (hd captures) of
        Inl (status, message) \<Rightarrow> tx_return (status, Body_Text message)
      | Inr segment \<Rightarrow> f segment)"

definition metrics :: "'key Server \<Rightarrow> (AppError, nat \<times> Body) tx" where
  "metrics S s = (Inr (200, Body_Text (render_metrics S (emitted s))), s)"

definition handle ::
  "'key Server \<Rightarrow> Ambient \<Rightarrow> HttpCall \<Rightarrow> Endpoint \<Rightarrow> string list \<Rightarrow> (AppError, nat \<times> Body) tx" where
  "handle S amb req e captures =
     (let P = sv_platform S; st = app_state S; headers = http_headers req in
      case e of
        Metrics \<Rightarrow> metrics S
      | Health \<Rightarrow> json_reply health
      | Ready \<Rightarrow> json_reply ready
      | Openapi \<Rightarrow> tx_return (200, Body_Json (openapi_document S))
      | Create_Account \<Rightarrow> authenticated S req (\<lambda>c.
          json_reply (create_account P st amb c headers (json_account S headers (http_body req))))
      | Get_Balance \<Rightarrow> authenticated S req (\<lambda>c. with_path S captures (\<lambda>account_id.
          json_reply (get_balance P c account_id)))
      | Get_Account_History \<Rightarrow> authenticated S req (\<lambda>c. with_path S captures (\<lambda>account_id.
          json_reply (get_account_history P (sv_cursor S) c account_id (http_query req))))
      | Create_Transfer \<Rightarrow> authenticated S req (\<lambda>c.
          json_reply (create_transfer P st amb c headers (json_transfer S headers (http_body req))))
      | Get_Transfer \<Rightarrow> authenticated S req (\<lambda>c. with_path S captures (\<lambda>transfer_id.
          json_reply (get_transfer P c transfer_id)))
      | Reverse_Transfer \<Rightarrow> authenticated S req (\<lambda>c. with_path S captures (\<lambda>transfer_id.
          json_reply (reverse_transfer P st amb c headers transfer_id))))"

definition REQUEST_ID_HEADER :: string where "REQUEST_ID_HEADER = ''x-request-id''"

definition dispatch ::
  "'key Server \<Rightarrow> Ambient \<Rightarrow> HttpCall \<Rightarrow> string option \<times> (AppError, nat \<times> Body) tx" where
  "dispatch S amb req =
     (case find_route (http_path req) of
        None \<Rightarrow> (None, tx_return (404, Body_Empty))
      | Some (template, method, e, captures) \<Rightarrow>
          (Some template,
           if accepts_method method (http_method req) then handle S amb req e captures
           else tx_return (405, Body_Empty)))"

definition serve ::
  "'key Server \<Rightarrow> Ambient \<Rightarrow> string \<Rightarrow> HttpCall \<Rightarrow> Session \<Rightarrow> Reply option \<times> Session" where
  "serve S amb fresh_id req s =
     (let (route, handler) = dispatch S amb req;
          (r, s1) = handler s;
          reply = (\<lambda>(status, body).
            let (request_id, ms) = observe_request (header_to_str (sv_platform S)) fresh_id
                  \<lparr>req_method = http_method req, matched_path = route,
                   request_id_headers = get_all REQUEST_ID_HEADER (http_headers req)\<rparr> status
            in (Some \<lparr>reply_status = status,
                      reply_body = (if http_method req = ''HEAD'' then Body_Empty else body),
                      reply_request_id = request_id\<rparr>,
                s1\<lparr>emitted := emitted s1 @ ms\<rparr>))
      in case r of
           Inr x \<Rightarrow> reply x
         | Inl (Fail e) \<Rightarrow> reply (into_response e)
         | Inl _ \<Rightarrow> (None, s1))"

section \<open>Routing\<close>

lemma match_segments_length:
  "match_segments ps xs = Some cs \<Longrightarrow> length xs = length ps"
  by (induction ps xs arbitrary: cs rule: match_segments.induct) (auto split: if_splits)

end
