(* ===== verification/Startup.thy ===== *)
theory Startup
  imports App
begin

text \<open>
  Component \<open>startup\<close> (\<open>src/main.rs\<close>, \<open>src/db/mod.rs\<close>, \<open>Config::from_env\<close>, \<open>init_logging\<close>): the
  process from its environment to its exit code.  What the process meets (the environment, the
  log filter parser, the global subscriber and recorder, PostgreSQL, the listening socket, the
  arrivals at the socket) is a parameter (\<open>Host\<close>); what it does is a list of events.
\<close>

section \<open>The host\<close>

record PoolOptions =
  opt_max_connections :: u32
  opt_min_connections :: u32
  opt_acquire_timeout :: u64

datatype Signal = Interrupt | Terminate | Other_Signal

datatype Arrival = Request HttpCall | Signalled Signal

text \<open>
  \<open>connect_attempt\<close> tells after how many microseconds a connection attempt ends, and whether it
  succeeds; \<open>None\<close> never ends.
\<close>

record 'key Host =
  env_vars :: "(string \<times> string) list"
  dotenv :: "(string \<times> string) list \<Rightarrow> (string \<times> string) list"
  host_jwt :: "'key Jwt"
  filter_parses :: "string \<Rightarrow> bool"
  subscriber_unset :: bool
  recorder_unset :: bool
  connect_attempt :: "PoolOptions \<Rightarrow> string \<Rightarrow> (nat \<times> bool) option"
  can_bind :: "SocketAddr \<Rightarrow> bool"
  arrivals :: "Arrival list"
  serve_ok :: bool

datatype StartupError =
    Bad_Config string | Bad_Filter | Subscriber_Set | Bad_Key
  | Connect_Timed_Out | Connect_Failed | Bind_Failed | Serve_Failed

datatype Stop = Failed StartupError | Panic

datatype 'key Event =
    Logging_Started string
  | Pool_Opened PoolOptions string
  | Listening SocketAddr
  | Log_Listening SocketAddr
  | Serving "'key AuthVerifier" AppState "HttpCall list"
  | Log_Startup_Failure
  | Print_Error string
  | Exit nat

section \<open>Steps of the startup\<close>

type_synonym ('key, 'a) startup = "'key Event list \<times> (Stop + 'a)"

definition startup_bind ::
  "('key, 'a) startup \<Rightarrow> ('a \<Rightarrow> ('key, 'b) startup) \<Rightarrow> ('key, 'b) startup" where
  "startup_bind m f =
     (case m of
        (es, Inl e) \<Rightarrow> (es, Inl e)
      | (es, Inr x) \<Rightarrow> (case f x of (es', r) \<Rightarrow> (es @ es', r)))"

definition event :: "'key Event \<Rightarrow> ('key, unit) startup" where
  "event e = ([e], Inr ())"

definition require :: "bool \<Rightarrow> StartupError \<Rightarrow> ('key, unit) startup" where
  "require b e = ([], if b then Inr () else Inl (Failed e))"

definition from_env :: "'key Host \<Rightarrow> ('key, Config) startup" where
  "from_env H =
     ([], case config_from_values (host_jwt H) (dotenv H (env_vars H)) of
            Inl m \<Rightarrow> Inl (Failed (Bad_Config m)) | Inr c \<Rightarrow> Inr c)"

definition init_logging :: "'key Host \<Rightarrow> string \<Rightarrow> ('key, unit) startup" where
  "init_logging H filter_text =
     startup_bind (require (filter_parses H filter_text) Bad_Filter) (\<lambda>_.
     startup_bind (require (subscriber_unset H) Subscriber_Set) (\<lambda>_.
     event (Logging_Started filter_text)))"

definition pool_options :: "PoolConfig \<Rightarrow> PoolOptions" where
  "pool_options c =
     \<lparr>opt_max_connections = max_connections c, opt_min_connections = min_connections c,
      opt_acquire_timeout = acquire_timeout c\<rparr>"

definition create_pool :: "'key Host \<Rightarrow> string \<Rightarrow> PoolConfig \<Rightarrow> ('key, unit) startup" where
  "create_pool H url c =
     (case connect_attempt H (pool_options c) url of
        None \<Rightarrow> ([], Inl (Failed Connect_Timed_Out))
      | Some (microseconds, ok) \<Rightarrow>
          if 1000000 * unat (connect_timeout c) < microseconds then ([], Inl (Failed Connect_Timed_Out))
          else if \<not> ok then ([], Inl (Failed Connect_Failed))
          else event (Pool_Opened (pool_options c) url))"

text \<open>\<open>metrics_handle\<close> expects to install the process's metrics recorder.\<close>

definition metrics_handle :: "'key Host \<Rightarrow> ('key, unit) startup" where
  "metrics_handle H = ([], if recorder_unset H then Inr () else Inl Panic)"

text \<open>The shutdown signal: the first \<open>SIGINT\<close> or \<open>SIGTERM\<close>; the server takes no call after it.\<close>

definition shutdown_signal :: "Arrival \<Rightarrow> bool" where
  "shutdown_signal a \<longleftrightarrow> a = Signalled Interrupt \<or> a = Signalled Terminate"

definition accepted_calls :: "Arrival list \<Rightarrow> HttpCall list" where
  "accepted_calls xs =
     concat (map (\<lambda>a. case a of Request c \<Rightarrow> [c] | Signalled _ \<Rightarrow> [])
       (takeWhile (\<lambda>a. \<not> shutdown_signal a) xs))"

definition state_from_config :: "Config \<Rightarrow> AppState" where
  "state_from_config c = \<lparr>idempotency_retention = config_idempotency_retention c\<rparr>"

definition start :: "'key Host \<Rightarrow> Config \<Rightarrow> ('key, unit) startup" where
  "start H config =
     startup_bind (case verifier_new (host_jwt H) (config_auth config) of
                     None \<Rightarrow> ([], Inl (Failed Bad_Key)) | Some auth \<Rightarrow> ([], Inr auth)) (\<lambda>auth.
     startup_bind (create_pool H (database_url config) (pool config)) (\<lambda>_.
     startup_bind (require (can_bind H (bind_address config)) Bind_Failed) (\<lambda>_.
     startup_bind (event (Listening (bind_address config))) (\<lambda>_.
     startup_bind (event (Log_Listening (bind_address config))) (\<lambda>_.
     startup_bind (metrics_handle H) (\<lambda>_.
     startup_bind (event (Serving auth (state_from_config config) (accepted_calls (arrivals H)))) (\<lambda>_.
     require (serve_ok H) Serve_Failed)))))))"

definition finish_post_logging_startup :: "('key, 'a) startup \<Rightarrow> ('key, 'a) startup" where
  "finish_post_logging_startup result =
     (case result of
        (es, Inl (Failed e)) \<Rightarrow> (es @ [Log_Startup_Failure], Inl (Failed e))
      | _ \<Rightarrow> result)"

definition run :: "'key Host \<Rightarrow> ('key, unit) startup" where
  "run H =
     startup_bind (from_env H) (\<lambda>config.
     startup_bind (init_logging H (log_filter config)) (\<lambda>_.
     finish_post_logging_startup (start H config)))"

text \<open>\<open>main\<close> drops the error; the runtime ends a panicking \<open>main\<close> with exit code 101.\<close>

definition main :: "'key Host \<Rightarrow> 'key Event list" where
  "main H =
     (case run H of
        (es, Inr _) \<Rightarrow> es @ [Exit 0]
      | (es, Inl (Failed _)) \<Rightarrow> es @ [Print_Error ''application failed to start'', Exit 1]
      | (es, Inl Panic) \<Rightarrow> es @ [Exit 101])"

section \<open>Every run of the process\<close>

definition failure_exit :: "'key Event list" where
  "failure_exit = [Print_Error ''application failed to start'', Exit 1]"

text \<open>The process's runs, by the step at which they stop.\<close>

lemma main_eq:
  "main H =
     (case config_from_values (host_jwt H) (dotenv H (env_vars H)) of
        Inl _ \<Rightarrow> failure_exit
      | Inr c \<Rightarrow>
          if \<not> filter_parses H (log_filter c) \<or> \<not> subscriber_unset H then failure_exit
          else Logging_Started (log_filter c) #
            (case verifier_new (host_jwt H) (config_auth c) of
               None \<Rightarrow> Log_Startup_Failure # failure_exit
             | Some auth \<Rightarrow>
                 (case create_pool H (database_url c) (pool c) of
                    (es, Inl _) \<Rightarrow> Log_Startup_Failure # failure_exit
                  | (es, Inr _) \<Rightarrow> Pool_Opened (pool_options (pool c)) (database_url c) #
                      (if \<not> can_bind H (bind_address c) then Log_Startup_Failure # failure_exit
                       else [Listening (bind_address c), Log_Listening (bind_address c)] @
                         (if \<not> recorder_unset H then [Exit 101]
                          else Serving auth (state_from_config c) (accepted_calls (arrivals H)) #
                            (if serve_ok H then [Exit 0] else Log_Startup_Failure # failure_exit))))))"
  by (auto simp: main_def run_def from_env_def init_logging_def start_def startup_bind_def event_def
      require_def create_pool_def metrics_handle_def finish_post_logging_startup_def failure_exit_def
      split: sum.splits option.splits prod.splits if_splits)

lemma create_pool_Inr:
  "create_pool H url c = (es, Inr u) \<longleftrightarrow>
     (\<exists>t. connect_attempt H (pool_options c) url = Some (t, True) \<and> t \<le> 1000000 * unat (connect_timeout c))
     \<and> es = [Pool_Opened (pool_options c) url]"
  by (auto simp: create_pool_def event_def split: option.splits if_splits)

lemma accepted_calls_signal:
  "shutdown_signal a \<Longrightarrow> accepted_calls (xs @ a # ys) = accepted_calls xs"
  by (simp add: accepted_calls_def takeWhile_tail)

text \<open>The steps that come before serving, in their order: all that the process checks.\<close>

definition startup_steps :: "'key Host \<Rightarrow> Config \<Rightarrow> 'key AuthVerifier \<Rightarrow> bool" where
  "startup_steps H c auth \<longleftrightarrow>
     config_from_values (host_jwt H) (dotenv H (env_vars H)) = Inr c
     \<and> filter_parses H (log_filter c) \<and> subscriber_unset H
     \<and> verifier_new (host_jwt H) (config_auth c) = Some auth
     \<and> (\<exists>t. connect_attempt H (pool_options (pool c)) (database_url c) = Some (t, True)
          \<and> t \<le> 1000000 * unat (connect_timeout (pool c)))
     \<and> can_bind H (bind_address c)"

lemma create_pool_steps:
  "create_pool H (database_url c) (pool c) =
     (if \<exists>t. connect_attempt H (pool_options (pool c)) (database_url c) = Some (t, True)
          \<and> t \<le> 1000000 * unat (connect_timeout (pool c))
      then ([Pool_Opened (pool_options (pool c)) (database_url c)], Inr ())
      else create_pool H (database_url c) (pool c))"
  by (auto simp: create_pool_def event_def)

lemma main_steps:
  assumes "startup_steps H c auth"
  shows "main H = [Logging_Started (log_filter c), Pool_Opened (pool_options (pool c)) (database_url c),
      Listening (bind_address c), Log_Listening (bind_address c)] @
    (if recorder_unset H
     then Serving auth (state_from_config c) (accepted_calls (arrivals H)) #
       (if serve_ok H then [Exit 0] else Log_Startup_Failure # failure_exit)
     else [Exit 101])"
proof -
  have "create_pool H (database_url c) (pool c)
      = ([Pool_Opened (pool_options (pool c)) (database_url c)], Inr ())"
    using assms by (subst create_pool_steps) (simp add: startup_steps_def)
  then show ?thesis using assms by (simp add: main_eq startup_steps_def)
qed

lemma main_stops:
  assumes "\<nexists>c auth. startup_steps H c auth"
  shows "main H = failure_exit
    \<or> (\<exists>f es. main H = Logging_Started f # es @ Log_Startup_Failure # failure_exit
         \<and> (es = [] \<or> (\<exists>p url. es = [Pool_Opened p url])))"
proof (cases "config_from_values (host_jwt H) (dotenv H (env_vars H))")
  case (Inl m)
  then show ?thesis by (simp add: main_eq)
next
  case (Inr c)
  show ?thesis
  proof (cases "verifier_new (host_jwt H) (config_auth c)")
    case None
    then show ?thesis using Inr by (auto simp: main_eq)
  next
    case (Some auth)
    obtain es r where p: "create_pool H (database_url c) (pool c) = (es, r)" by fastforce
    show ?thesis
    proof (cases r)
      case (Inl e)
      then show ?thesis using \<open>config_from_values _ _ = Inr c\<close> Some p by (auto simp: main_eq)
    next
      case (Inr u)
      have "startup_steps H c auth
          \<longleftrightarrow> filter_parses H (log_filter c) \<and> subscriber_unset H \<and> can_bind H (bind_address c)"
        using \<open>config_from_values _ _ = Inr c\<close> Some p Inr
        by (auto simp: startup_steps_def create_pool_Inr)
      then have "\<not> (filter_parses H (log_filter c) \<and> subscriber_unset H \<and> can_bind H (bind_address c))"
        using assms by blast
      then show ?thesis using \<open>config_from_values _ _ = Inr c\<close> Some p Inr by (auto simp: main_eq)
    qed
  qed
qed

text \<open>
  C36: The process fails closed and quietly.  When every step succeeds (the configuration validated,
  so its retention positive, the log filter parsed, the verifier built, the database reached
  within the configured timeout, the address bound) it logs, connects, listens and serves, in this
  order and with exactly that verifier and retention, no call that arrives after \<open>SIGINT\<close> or
  \<open>SIGTERM\<close>, and ends with exit code 0, or 1 when serving fails; only a metrics recorder installed
  before makes it panic (exit code 101) instead of serving.  When any step fails it serves
  nothing, never listens, and ends with the one fixed error line and exit code 1.  Every failure
  after logging started, and no other, leaves the one structured record.
\<close>

theorem startup_fails_closed:
  "(startup_steps H c auth \<longrightarrow>
      0 < config_idempotency_retention c
      \<and> main H =
         [Logging_Started (log_filter c), Pool_Opened (pool_options (pool c)) (database_url c),
          Listening (bind_address c), Log_Listening (bind_address c)] @
         (if recorder_unset H
          then Serving auth \<lparr>idempotency_retention = config_idempotency_retention c\<rparr>
                 (accepted_calls (arrivals H)) #
            (if serve_ok H then [Exit 0]
             else [Log_Startup_Failure, Print_Error ''application failed to start'', Exit 1])
          else [Exit 101]))
   \<and> ((\<nexists>c auth. startup_steps H c auth) \<longrightarrow>
        (\<exists>es. main H = es @ [Print_Error ''application failed to start'', Exit 1]
           \<and> (\<forall>e \<in> set es. e = Log_Startup_Failure \<or> (\<exists>f. e = Logging_Started f) \<or> (\<exists>p url. e = Pool_Opened p url))
           \<and> (Log_Startup_Failure \<in> set es \<longleftrightarrow> (\<exists>f. Logging_Started f \<in> set es))))
   \<and> (arrivals H = xs @ a # ys \<and> a \<in> {Signalled Interrupt, Signalled Terminate} \<longrightarrow>
        accepted_calls (arrivals H) = accepted_calls xs)"
proof (intro conjI impI)
  assume steps: "startup_steps H c auth"
  then show "0 < config_idempotency_retention c"
    using config_from_values_auth by (auto simp: startup_steps_def)
  show "main H =
         [Logging_Started (log_filter c), Pool_Opened (pool_options (pool c)) (database_url c),
          Listening (bind_address c), Log_Listening (bind_address c)] @
         (if recorder_unset H
          then Serving auth \<lparr>idempotency_retention = config_idempotency_retention c\<rparr>
                 (accepted_calls (arrivals H)) #
            (if serve_ok H then [Exit 0]
             else [Log_Startup_Failure, Print_Error ''application failed to start'', Exit 1])
          else [Exit 101])"
    by (simp add: main_steps [OF steps] state_from_config_def failure_exit_def)
next
  assume "\<nexists>c auth. startup_steps H c auth"
  then consider (silent) "main H = failure_exit"
    | (logged) f es where "main H = Logging_Started f # es @ Log_Startup_Failure # failure_exit"
        "es = [] \<or> (\<exists>p url. es = [Pool_Opened p url])"
    using main_stops [of H] by blast
  then show "\<exists>es. main H = es @ [Print_Error ''application failed to start'', Exit 1]
           \<and> (\<forall>e \<in> set es. e = Log_Startup_Failure \<or> (\<exists>f. e = Logging_Started f) \<or> (\<exists>p url. e = Pool_Opened p url))
           \<and> (Log_Startup_Failure \<in> set es \<longleftrightarrow> (\<exists>f. Logging_Started f \<in> set es))"
  proof cases
    case silent
    then show ?thesis by (intro exI [of _ "[]"]) (simp add: failure_exit_def)
  next
    case logged
    then show ?thesis
      by (intro exI [of _ "Logging_Started f # es @ [Log_Startup_Failure]"]) (auto simp: failure_exit_def)
  qed
qed (auto simp: accepted_calls_signal shutdown_signal_def)

definition demo_host :: "string Host" where
  "demo_host =
     \<lparr>env_vars = [(''DATABASE_URL'', ''u''), (''JWT_ISSUER'', ''i''), (''JWT_AUDIENCE'', ''a''),
                  (''JWT_PUBLIC_KEY_PEM'', ''p'')],
      dotenv = (\<lambda>vars. vars), host_jwt = demo_jwt, filter_parses = (\<lambda>f. True),
      subscriber_unset = True, recorder_unset = True, connect_attempt = (\<lambda>p url. Some (20000, True)),
      can_bind = (\<lambda>a. True), arrivals = [Signalled Other_Signal, Signalled Terminate], serve_ok = True\<rparr>"

theorem startup_fails_closed_witness:
  "\<exists>(c :: Config) auth. main demo_host =
      [Logging_Started (log_filter c), Pool_Opened (pool_options (pool c)) (database_url c),
       Listening (bind_address c), Log_Listening (bind_address c),
       Serving auth \<lparr>idempotency_retention = config_idempotency_retention c\<rparr> [], Exit 0]
    \<and> main (demo_host\<lparr>can_bind := (\<lambda>a. False)\<rparr>) \<noteq> main demo_host"
proof -
  obtain c :: Config where c: "config_from_values demo_jwt (dotenv demo_host (env_vars demo_host)) = Inr c"
    and to: "connect_timeout (pool (c :: Config)) = 5"
    using config_from_required [OF demo_settings, of None] by (auto simp: demo_host_def)
  obtain auth where a: "verifier_new demo_jwt (config_auth c) = Some auth"
    using config_from_values_auth [OF c] by (auto simp: verifier_new_def Let_def)
  have steps: "startup_steps demo_host c auth"
    using c a to by (simp add: startup_steps_def demo_host_def)
  have "accepted_calls (arrivals demo_host) = []"
    by (simp add: accepted_calls_def demo_host_def shutdown_signal_def)
  with startup_fails_closed [of demo_host c auth] steps
  have main: "main demo_host =
      [Logging_Started (log_filter c), Pool_Opened (pool_options (pool c)) (database_url c),
       Listening (bind_address c), Log_Listening (bind_address c),
       Serving auth \<lparr>idempotency_retention = config_idempotency_retention c\<rparr> [], Exit 0]"
    by (simp add: demo_host_def)
  have "\<nexists>c auth. startup_steps (demo_host\<lparr>can_bind := (\<lambda>a. False)\<rparr>) c auth"
    by (simp add: startup_steps_def)
  with startup_fails_closed [of "demo_host\<lparr>can_bind := (\<lambda>a. False)\<rparr>"]
  have "last (main (demo_host\<lparr>can_bind := (\<lambda>a. False)\<rparr>)) = Exit 1" by fastforce
  then have "main (demo_host\<lparr>can_bind := (\<lambda>a. False)\<rparr>) \<noteq> main demo_host" using main by auto
  with main show ?thesis by blast
qed

end
