(* ===== verification/Transfer_Properties.thy ===== *)
theory Transfer_Properties
  imports Transfers
begin

section \<open>Properties\<close>

definition demo_transfer_request :: "CreateTransferRequest option" where
  "demo_transfer_request =
     Some \<lparr>ctr_source_account_id = ''1'', ctr_destination_account_id = ''2'', ctr_amount = ''12.5''\<rparr>"

definition demo_fx_request :: "CreateTransferRequest option" where
  "demo_fx_request =
     Some \<lparr>ctr_source_account_id = ''1'', ctr_destination_account_id = ''3'', ctr_amount = ''10.00''\<rparr>"

lemma nonblank_alice [simp]: "nonblank ''alice''"
  by code_simp

lemma demo_transfer_decided:
  "transfer_request_decision demo_platform demo_headers demo_transfer_request demo_ledger =
     Inr (''k1'', 1, 2, \<lparr>pre_source_currency = ''PLN'', pre_source_scale = 2,
        pre_destination_currency = ''PLN'', pre_destination_scale = 2\<rparr>, Operation_Transfer, 1250)"
  by code_simp

lemma demo_transfer_computes:
  "transfer_decision ''alice'' Operation_Transfer \<lparr>pre_source_currency = ''PLN'', pre_source_scale = 2,
        pre_destination_currency = ''PLN'', pre_destination_scale = 2\<rparr> 1000 1 2 1250 demo_ledger =
     Inr (demo_account 1 ''alice'' ''PLN'' 5000, demo_account 2 ''bob'' ''PLN'' 100,
       \<lparr>ta_kind = Kind_Transfer, ta_destination = 1250, ta_fee = 0, ta_debit = 1250,
        ta_fee_bps = None, ta_rate = None, ta_rate_id = None\<rparr>, 3750, 1350)"
  by code_simp

lemma demo_fx_decided:
  "transfer_request_decision demo_platform demo_headers demo_fx_request demo_ledger =
     Inr (''k1'', 1, 3, \<lparr>pre_source_currency = ''PLN'', pre_source_scale = 2,
        pre_destination_currency = ''USD'', pre_destination_scale = 2\<rparr>, Operation_FxTransfer, 1000)"
  by code_simp

lemma demo_answers:
  "record_store.answer demo_ledger k fp = Fresh" "fates (demo_session d) = []"
  "committed (demo_session d) = d" "tx_time demo_ambient = 1000"
  by (simp_all add: answer_Fresh_iff demo_ledger_def demo_session_def demo_ambient_def)

lemma demo_transfer_run:
  obtains resp s' idem where
    "create_transfer demo_platform demo_state demo_ambient ''alice'' demo_headers
       demo_transfer_request (demo_session demo_ledger) = (Inr resp, s')"
    and "resp_status resp = 201"
    and "committed s' = transfer_applied demo_ambient
       (new_transfer demo_ambient ''alice'' (demo_account 1 ''alice'' ''PLN'' 5000)
          (demo_account 2 ''bob'' ''PLN'' 100) 1250
          \<lparr>ta_kind = Kind_Transfer, ta_destination = 1250, ta_fee = 0, ta_debit = 1250,
           ta_fee_bps = None, ta_rate = None, ta_rate_id = None\<rparr>) 3750 1350 idem demo_ledger"
    and "idem_row_key idem = (''alice'', TRANSFER_OPERATION, ''k1'')"
proof -
  let ?run = "create_transfer demo_platform demo_state demo_ambient ''alice'' demo_headers
       demo_transfer_request (demo_session demo_ledger)"
  have "transfer_outcome demo_platform demo_state demo_ambient ''alice'' demo_headers
      demo_transfer_request demo_ledger (fst ?run) (committed (snd ?run))"
    using create_transfer_outcome [of "demo_session demo_ledger" demo_platform "''alice''" demo_state
        demo_ambient demo_headers demo_transfer_request] by (simp add: demo_answers)
  then show ?thesis
    using that [of _ "snd ?run"]
    by (auto simp: transfer_outcome_def demo_transfer_decided demo_answers demo_transfer_computes Let_def
        prod_eq_iff completed_row_def reservation_row_def idem_row_key_def operation_type_def
        set_response_def)
qed

text \<open>The books after a committed transfer, from the transfer row.\<close>

lemma transfer_applied_rows:
  assumes "find_by acc_id (tr_source t) (accounts d) = Some a"
    and "find_by acc_id (tr_destination t) (accounts d) = Some b"
    and "tr_source t \<noteq> tr_destination t"
  shows "find_by acc_id (tr_source t) (accounts (transfer_applied amb t sb db r d))
           = Some (set_balance sb (tx_time amb) a)"
    and "find_by acc_id (tr_destination t) (accounts (transfer_applied amb t sb db r d))
           = Some (set_balance db (tx_time amb) b)"
    and "k \<notin> {tr_source t, tr_destination t} \<Longrightarrow>
         find_by acc_id k (accounts (transfer_applied amb t sb db r d)) = find_by acc_id k (accounts d)"
  using assms by (auto simp: find_write_balances option.map_ident)

text \<open>What a run that changed the database did.\<close>

lemma create_transfer_effect:
  assumes "create_transfer P st amb c headers request s = (r, s')" and "ledger_ok (committed s)"
    and "committed s' \<noteq> committed s"
  shows "\<exists>a b t x y idem sb db.
      find_by acc_id (tr_source t) (accounts (committed s)) = Some a
    \<and> find_by acc_id (tr_destination t) (accounts (committed s)) = Some b
    \<and> tr_source t \<noteq> tr_destination t
    \<and> owner_id a = c \<and> acc_status a = Active \<and> acc_status b = Active
    \<and> sint (total_debit_minor t) \<le> sint (balance_minor a)
    \<and> sint sb = sint (balance_minor a) - sint (total_debit_minor t)
    \<and> sint db = sint (balance_minor b) + sint (destination_amount_minor t)
    \<and> find_by acc_id (tr_source t) (accounts (committed s')) = Some (set_balance sb (tx_time amb) a)
    \<and> find_by acc_id (tr_destination t) (accounts (committed s')) = Some (set_balance db (tx_time amb) b)
    \<and> (\<forall>k. k \<notin> {tr_source t, tr_destination t} \<longrightarrow>
         find_by acc_id k (accounts (committed s')) = find_by acc_id k (accounts (committed s)))
    \<and> transfers (committed s') = transfers (committed s) @ [t]
    \<and> amounts_ok t \<and> reverses t = None \<and> initiated_by t = c
    \<and> account_entries (committed s') = account_entries (committed s) @ [x, y] \<and> entry_pair t x y
    \<and> idempotency_records (committed s') = idempotency_records (committed s) @ [idem]
    \<and> record_complete idem \<and> resource_id idem = Some (tr_id t)
    \<and> (\<forall>resp. r = Inr resp \<longrightarrow> resp_status resp = 201)"
proof -
  have keys: "distinct (map acc_id (accounts (committed s)))"
    using assms(2) by (simp add: ledger_ok_def schema_ok_def keys_ok_def)
  from create_transfer_cases [OF assms(1) keys] assms(3)
  obtain k source destination p fin amount resp where
    ok: "transfer_request_ok P headers request (committed s) k source destination p fin amount" and
    post: "transfer_posted P st amb c k fin p source destination amount (committed s) (committed s') resp"
    and r: "r \<in> {Inr resp, Inl (Fail lost), Inl Cancelled}"
    by blast
  from ok have cls: "classify_transfer p = Inr fin" and ne: "source \<noteq> destination"
    by (auto simp: transfer_request_ok_def dest: validate_transfer_ne)
  from post obtain a b ta sb db body idem where
    comp: "transfer_computed c fin p (tx_time amb) source destination amount (committed s) a b ta sb db"
    and d': "committed s' = transfer_applied amb (new_transfer amb c a b amount ta) sb db idem (committed s)"
    and rec: "record_complete idem" "resource_id idem = Some (new_v4 amb 0)"
    and resp: "resp = \<lparr>resp_status = 201, resp_body = body\<rparr>"
    unfolding transfer_posted_def
    by (metis record_complete_completed completed_row_def set_response_simps(4))
  let ?t = "new_transfer amb c a b amount ta"
  note f = transfer_computed_facts [OF comp cls]
  have find: "find_by acc_id (tr_source ?t) (accounts (committed s)) = Some a"
    "find_by acc_id (tr_destination ?t) (accounts (committed s)) = Some b"
    using comp f(4,5) by (simp_all add: transfer_computed_def)
  have ne': "tr_source ?t \<noteq> tr_destination ?t" using ne f by simp
  obtain x y where es: "transfer_entries amb ?t = [x, y]" "entry_pair ?t x y"
    using transfer_entries_pair [of amb ?t] by auto
  have am: "amounts_ok ?t" by (rule transfer_balanced(2) [OF comp cls ne])
  have money: "sint (total_debit_minor ?t) \<le> sint (balance_minor a)"
    "sint sb = sint (balance_minor a) - sint (total_debit_minor ?t)"
    "sint db = sint (balance_minor b) + sint (destination_amount_minor ?t)"
    "reverses ?t = None" "initiated_by ?t = c"
    using f(6-8) by simp_all
  note rows = transfer_applied_rows [where amb = amb and sb = sb and db = db and r = idem, OF find ne', folded d']
  have others: "\<forall>k. k \<notin> {tr_source ?t, tr_destination ?t} \<longrightarrow>
      find_by acc_id k (accounts (committed s')) = find_by acc_id k (accounts (committed s))"
    using rows(3) by blast
  have appended: "transfers (committed s') = transfers (committed s) @ [?t]"
    "account_entries (committed s') = account_entries (committed s) @ [x, y]"
    "idempotency_records (committed s') = idempotency_records (committed s) @ [idem]"
    by (simp_all add: d' es(1))
  have answer: "\<forall>resp. r = Inr resp \<longrightarrow> resp_status resp = 201" "resource_id idem = Some (tr_id ?t)"
    using r resp rec(2) by auto
  show ?thesis
    by (intro exI [of _ a] exI [of _ b] exI [of _ ?t] exI [of _ x] exI [of _ y] exI [of _ idem]
        exI [of _ sb] exI [of _ db] conjI)
       (fact find ne' f(1-3) money rows(1,2) others appended am es(2) rec(1) answer)+
qed

text \<open>
  C2: Whatever interrupts a call of \<open>create_transfer\<close> (lost connections, a dropped future, a lost
  commit acknowledgement, a panic), the committed database is either unchanged or changed by
  one complete transfer: the caller owns the active source account, which covers the whole
  debit; the source is debited, the other active account credited, both versions advance by one,
  every other account is untouched; exactly one transfer row, its debit and credit entries and
  one completed idempotency record are appended.  A successful answer with a changed database
  is 201.
\<close>

theorem transfer_all_or_nothing:
  assumes "create_transfer P st amb c headers request s = (r, s')" and "ledger_ok (committed s)"
    and "committed s' \<noteq> committed s"
  shows "\<exists>a b t x y idem sb db.
      find_by acc_id (tr_source t) (accounts (committed s)) = Some a
    \<and> find_by acc_id (tr_destination t) (accounts (committed s)) = Some b
    \<and> tr_source t \<noteq> tr_destination t
    \<and> owner_id a = c \<and> acc_status a = Active \<and> acc_status b = Active
    \<and> sint (total_debit_minor t) \<le> sint (balance_minor a)
    \<and> sint sb = sint (balance_minor a) - sint (total_debit_minor t)
    \<and> sint db = sint (balance_minor b) + sint (destination_amount_minor t)
    \<and> find_by acc_id (tr_source t) (accounts (committed s')) = Some (set_balance sb (tx_time amb) a)
    \<and> find_by acc_id (tr_destination t) (accounts (committed s')) = Some (set_balance db (tx_time amb) b)
    \<and> (\<forall>k. k \<notin> {tr_source t, tr_destination t} \<longrightarrow>
         find_by acc_id k (accounts (committed s')) = find_by acc_id k (accounts (committed s)))
    \<and> transfers (committed s') = transfers (committed s) @ [t]
    \<and> amounts_ok t \<and> reverses t = None \<and> initiated_by t = c
    \<and> account_entries (committed s') = account_entries (committed s) @ [x, y] \<and> entry_pair t x y
    \<and> idempotency_records (committed s') = idempotency_records (committed s) @ [idem]
    \<and> record_complete idem \<and> resource_id idem = Some (tr_id t)
    \<and> (\<forall>resp. r = Inr resp \<longrightarrow> resp_status resp = 201)"
  using assms by (rule create_transfer_effect)

theorem transfer_all_or_nothing_witness:
  "\<exists>(s' :: Session) t x y. transfers (committed s') = [t] \<and> account_entries (committed s') = [x, y]
     \<and> entry_pair t x y \<and> map balance_minor (accounts (committed s')) = [3750, 1350, 900]"
proof -
  obtain resp s' idem where
    run: "create_transfer demo_platform demo_state demo_ambient ''alice'' demo_headers
       demo_transfer_request (demo_session demo_ledger) = (Inr resp, s')" and
    eff: "committed s' = transfer_applied demo_ambient
       (new_transfer demo_ambient ''alice'' (demo_account 1 ''alice'' ''PLN'' 5000)
          (demo_account 2 ''bob'' ''PLN'' 100) 1250
          \<lparr>ta_kind = Kind_Transfer, ta_destination = 1250, ta_fee = 0, ta_debit = 1250,
           ta_fee_bps = None, ta_rate = None, ta_rate_id = None\<rparr>) 3750 1350 idem demo_ledger"
    using demo_transfer_run by metis
  have bal: "map balance_minor (accounts (committed s')) = [3750, 1350, 900]"
    by (simp add: eff demo_ledger_def write_balances_def update_by_def demo_account_def)
  have led: "ledger_ok (committed (demo_session demo_ledger))" by (simp add: demo_answers)
  have "transfers (committed s') \<noteq> transfers demo_ledger"
    by (simp add: eff)
  then have ne: "committed s' \<noteq> committed (demo_session demo_ledger)"
    by (auto simp: demo_answers)
  from transfer_all_or_nothing [OF run led ne] obtain t x y where
    "transfers (committed s') = transfers demo_ledger @ [t]"
    "account_entries (committed s') = account_entries demo_ledger @ [x, y]" "entry_pair t x y"
    unfolding demo_answers by (elim exE conjE)
  then have "transfers (committed s') = [t]" "account_entries (committed s') = [x, y]" "entry_pair t x y"
    by (simp_all add: demo_ledger_def)
  with bal show ?thesis
    by (intro exI [of _ s'] exI [of _ t] exI [of _ x] exI [of _ y] conjI)
qed


section \<open>A second attempt\<close>

lemma transfer_request_ok_decides:
  "transfer_request_ok P headers request d k source destination p fin amount
   \<longleftrightarrow> transfer_request_decision P headers request d = Inr (k, source, destination, p, fin, amount)"
  by (auto simp: transfer_request_ok_def transfer_request_decision_def
      split: sum.splits option.splits prod.splits)

text \<open>The decision on a request reads only the currencies and the scales of the accounts.\<close>

lemma transfer_request_decision_cong:
  assumes "\<And>k. map_option (\<lambda>r. (acc_currency r, currency_scale r)) (find_by acc_id k (accounts d'))
      = map_option (\<lambda>r. (acc_currency r, currency_scale r)) (find_by acc_id k (accounts d))"
  shows "transfer_request_decision P headers request d' = transfer_request_decision P headers request d"
proof (cases "validate_transfer P headers request")
  case (Inr v)
  obtain k req i j where v: "v = (k, req, i, j)" by (cases v)
  show ?thesis
    using assms [of i] assms [of j]
    by (cases "find_by acc_id i (accounts d)"; cases "find_by acc_id j (accounts d)")
       (auto simp: transfer_request_decision_def Inr v preliminary_of_def split: sum.split)
qed (simp add: transfer_request_decision_def)

lemma transfer_body_done:
  assumes "fates s = []" and "transfer_amount p input = Inr amount"
    and "stored_record (work s) (c, operation_type fin, k) = Some (fp, Some (status, b))"
  shows "\<exists>s1. fates s1 = [] \<and> committed s1 = committed s \<and>
    (fp = transfer_fingerprint P source destination (pre_source_currency p) amount \<longrightarrow> work s1 = work s) \<and>
    transfer_body P st amb c k fin p source destination input s =
      ((if fp \<noteq> transfer_fingerprint P source destination (pre_source_currency p) amount
        then Inl (Fail IdempotencyConflict)
        else case stored_status P status of
          Inl e \<Rightarrow> Inl (Fail e) | Inr n \<Rightarrow> Inr \<lparr>resp_status = n, resp_body = b\<rparr>), s1)"
proof -
  let ?fp = "transfer_fingerprint P source destination (pre_source_currency p) amount"
  from replay_or_reserve_done [OF assms(1,3), of P fin "tx_time amb" "idempotency_retention st" ?fp]
  show ?thesis
    using assms(1)
    by (auto simp: transfer_body_def assms(2) tx_bind_def from_result_def tx_return_def
        split: sum.split)
qed

lemma create_transfer_done:
  assumes fine: "fates s = []"
    and dec: "transfer_request_decision P headers request (committed s)
      = Inr (k, source, destination, p, fin, amount)"
    and stored: "stored_record (committed s) (c, operation_type fin, k) = Some (fp, Some (status, b))"
  shows "committed (snd (create_transfer P st amb c headers request s)) = committed s
    \<and> fst (create_transfer P st amb c headers request s) =
        (if fp \<noteq> transfer_fingerprint P source destination (pre_source_currency p) amount
         then Inl (Fail IdempotencyConflict)
         else case stored_status P status of
           Inl e \<Rightarrow> Inl (Fail e) | Inr n \<Rightarrow> Inr \<lparr>resp_status = n, resp_body = b\<rparr>)"
proof -
  from dec have ok: "transfer_request_ok P headers request (committed s) k source destination p fin amount"
    by (simp add: transfer_request_ok_decides)
  then obtain req x y where
    val: "validate_transfer P headers request = Inr (k, req, source, destination)" and
    xy: "find_by acc_id source (accounts (committed s)) = Some x"
      "find_by acc_id destination (accounts (committed s)) = Some y" "p = preliminary_of x y" and
    cls: "classify_transfer p = Inr fin" and amt: "transfer_amount p (ctr_amount req) = Inr amount"
    by (auto simp: transfer_request_ok_def)
  let ?body = "transfer_body P st amb c k fin p source destination (ctr_amount req)"
  obtain s0 where s0: "fates s0 = []" "work s0 = committed s" "committed s0 = committed s"
    and run: "create_transfer P st amb c headers request s = run_observed fin ?body s0"
    using create_transfer_enter [OF fine val, of st amb c] xy cls by auto
  have "stored_record (work s0) (c, operation_type fin, k) = Some (fp, Some (status, b))"
    using stored by (simp add: s0)
  from transfer_body_done [OF s0(1) amt this] obtain s1 where
    s1: "fates s1 = []" "committed s1 = committed s0"
      "fp = transfer_fingerprint P source destination (pre_source_currency p) amount \<longrightarrow> work s1 = work s0"
    and body: "?body s0 =
      ((if fp \<noteq> transfer_fingerprint P source destination (pre_source_currency p) amount
        then Inl (Fail IdempotencyConflict)
        else case stored_status P status of
          Inl e \<Rightarrow> Inl (Fail e) | Inr n \<Rightarrow> Inr \<lparr>resp_status = n, resp_body = b\<rparr>), s1)"
    by blast
  from run_observed_fine [where body = ?body and fin = fin, OF s0(1) body s1(1)] s0 s1 show ?thesis
    by (auto simp: run split: sum.splits)
qed

text \<open>A posted transfer leaves the requests' decisions as they were, and its record answers.\<close>

lemma transfer_posted_answers:
  assumes ok: "transfer_request_ok P headers request d k source destination p fin amount"
    and post: "transfer_posted P st amb c k fin p source destination amount d d' resp"
  shows "transfer_request_decision P h q d' = transfer_request_decision P h q d"
    and "stored_record d' (c, operation_type fin, k) =
      Some (transfer_fingerprint P source destination (pre_source_currency p) amount,
            Some (201, resp_body resp))"
    and "resp_status resp = 201"
proof -
  from post obtain a b ta sb db body where
    comp: "transfer_computed c fin p (tx_time amb) source destination amount d a b ta sb db" and
    resp: "resp = \<lparr>resp_status = 201, resp_body = body\<rparr>" and
    absent: "find_by idem_row_key (c, operation_type fin, k) (idempotency_records d) = None" and
    d': "d' = transfer_applied amb (new_transfer amb c a b amount ta) sb db
               (completed_row (tx_time amb) (idempotency_retention st) (c, operation_type fin, k)
                  (transfer_fingerprint P source destination (pre_source_currency p) amount)
                  201 body (new_v4 amb 0)) d"
    unfolding transfer_posted_def by blast
  have cls: "classify_transfer p = Inr fin" and ne: "source \<noteq> destination"
    using ok by (auto simp: transfer_request_ok_def dest: validate_transfer_ne)
  note f = transfer_computed_facts [OF comp cls]
  show "transfer_request_decision P h q d' = transfer_request_decision P h q d"
    using ne f(4,5)
    by (intro transfer_request_decision_cong)
       (auto simp: d' find_write_balances option.map_comp o_def set_balance_def
          split: option.split intro!: map_option_cong)
  have "record_store.answer d' (c, operation_type fin, k)
      (transfer_fingerprint P source destination (pre_source_currency p) amount) = Replayed (201, body)"
    by (rule completed_answers(1) [OF absent]) (simp add: d')
  then show "stored_record d' (c, operation_type fin, k) =
      Some (transfer_fingerprint P source destination (pre_source_currency p) amount,
            Some (201, resp_body resp))"
    by (simp add: answer_Replayed_iff resp)
  show "resp_status resp = 201" by (simp add: resp)
qed

text \<open>
  C20: A transfer is posted at most once per key, whatever interrupts the first attempt: if that
  attempt changed the database at all, even though its caller saw an error or nothing, a later
  undisturbed attempt with the same key and request changes nothing (no second debit) and
  answers 201 with the body of the posted transfer, which is the first attempt's answer if it
  gave one.  An attempt under the same key that asks for other accounts, another currency or
  another amount (another fingerprint) of the same operation is a conflict and changes nothing.
\<close>

theorem transfer_exactly_once:
  assumes "platform_ok P" and "ledger_ok (committed s)"
    and "create_transfer P st amb c headers request s = (r, s')"
    and "committed s' \<noteq> committed s"
    and "fates s2 = []" and "committed s2 = committed s'"
  shows "\<exists>resp k source destination p fin amount. resp_status resp = 201
    \<and> (\<forall>x. r = Inr x \<longrightarrow> x = resp)
    \<and> fst (create_transfer P st amb' c headers request s2) = Inr resp
    \<and> committed (snd (create_transfer P st amb' c headers request s2)) = committed s'
    \<and> transfer_request_decision P headers request (committed s) =
        Inr (k, source, destination, p, fin, amount)
    \<and> (\<forall>headers' request' source' destination' p' amount'.
         transfer_request_decision P headers' request' (committed s) =
           Inr (k, source', destination', p', fin, amount')
         \<and> transfer_fingerprint P source' destination' (pre_source_currency p') amount'
             \<noteq> transfer_fingerprint P source destination (pre_source_currency p) amount
         \<longrightarrow> fst (create_transfer P st amb' c headers' request' s2) = Inl (Fail IdempotencyConflict)
           \<and> committed (snd (create_transfer P st amb' c headers' request' s2)) = committed s')"
proof -
  have keys: "distinct (map acc_id (accounts (committed s)))"
    using assms(2) by (simp add: ledger_ok_def schema_ok_def keys_ok_def)
  from create_transfer_cases [OF assms(3) keys] assms(4)
  obtain k source destination p fin amount resp where
    ok: "transfer_request_ok P headers request (committed s) k source destination p fin amount" and
    post: "transfer_posted P st amb c k fin p source destination amount (committed s) (committed s') resp"
    and r: "r \<in> {Inr resp, Inl (Fail lost), Inl Cancelled}"
    by blast
  note dec = ok [unfolded transfer_request_ok_decides]
  note ans = transfer_posted_answers [OF ok post]
  have st: "stored_status P 201 = Inr 201" using stored_status_2xx [OF assms(1), of 201] by simp
  have again: "committed (snd (create_transfer P st amb' c h q s2)) = committed s'
      \<and> fst (create_transfer P st amb' c h q s2) =
        (if transfer_fingerprint P source destination (pre_source_currency p) amount
             \<noteq> transfer_fingerprint P src' dst' (pre_source_currency p') amount'
         then Inl (Fail IdempotencyConflict) else Inr resp)"
    if "transfer_request_decision P h q (committed s) = Inr (k, src', dst', p', fin, amount')"
    for h q src' dst' p' amount'
  proof -
    have "transfer_request_decision P h q (committed s2) = Inr (k, src', dst', p', fin, amount')"
      using that ans(1) by (simp add: assms(6))
    from create_transfer_done [OF assms(5) this ans(2) [folded assms(6)], of st amb'] st ans(3)
    show ?thesis by (simp add: assms(6))
  qed
  show ?thesis
    by (intro exI [of _ resp] exI [of _ k] exI [of _ source] exI [of _ destination] exI [of _ p]
        exI [of _ fin] exI [of _ amount] conjI allI impI)
       (use again again [OF dec] dec r ans(3) in auto)
qed

theorem transfer_exactly_once_witness:
  "\<exists>s' resp. committed s' \<noteq> demo_ledger
     \<and> fst (create_transfer demo_platform demo_state demo_ambient ''alice'' demo_headers
         demo_transfer_request (demo_session (committed s'))) = Inr resp
     \<and> committed (snd (create_transfer demo_platform demo_state demo_ambient ''alice'' demo_headers
         demo_transfer_request (demo_session (committed s')))) = committed (s' :: Session)"
proof -
  obtain resp s' idem where
    run: "create_transfer demo_platform demo_state demo_ambient ''alice'' demo_headers
       demo_transfer_request (demo_session demo_ledger) = (Inr resp, s')" and
    eff: "committed s' = transfer_applied demo_ambient
       (new_transfer demo_ambient ''alice'' (demo_account 1 ''alice'' ''PLN'' 5000)
          (demo_account 2 ''bob'' ''PLN'' 100) 1250
          \<lparr>ta_kind = Kind_Transfer, ta_destination = 1250, ta_fee = 0, ta_debit = 1250,
           ta_fee_bps = None, ta_rate = None, ta_rate_id = None\<rparr>) 3750 1350 idem demo_ledger"
    using demo_transfer_run by metis
  have led: "ledger_ok (committed (demo_session demo_ledger))" by (simp add: demo_answers)
  have "transfers (committed s') \<noteq> transfers demo_ledger" by (simp add: eff)
  then have ne: "committed s' \<noteq> committed (demo_session demo_ledger)" by (auto simp: demo_answers)
  from transfer_exactly_once [OF demo_platform_ok led run ne demo_answers(2) demo_answers(3)]
  obtain again where
    "fst (create_transfer demo_platform demo_state demo_ambient ''alice'' demo_headers
         demo_transfer_request (demo_session (committed s'))) = Inr again"
    "committed (snd (create_transfer demo_platform demo_state demo_ambient ''alice'' demo_headers
         demo_transfer_request (demo_session (committed s')))) = committed s'"
    by blast
  with ne show ?thesis
    by (intro exI [of _ s'] exI [of _ again] conjI) (simp_all add: demo_answers)
qed

section \<open>Decisions and money\<close>

text \<open>
  C6: An undisturbed transfer does exactly what the handler's checks in their order decide: an
  invalid key, body, identifier or amount answers before anything is reserved; a completed key
  replays or conflicts; otherwise the configuration, the participants, the amounts and the
  balances decide the error, and if all pass the transfer is posted and answered 201.  Only the
  last changes the database.
\<close>

theorem create_transfer_decides:
  assumes "fates s = []" and "platform_ok P" and "ledger_ok (committed s)"
    and "nonblank c" and "retention_ok st amb" and "fresh_ids amb (committed s)"
    and "versions_ok (committed s)"
  shows "transfer_outcome P st amb c headers request (committed s)
     (fst (create_transfer P st amb c headers request s))
     (committed (snd (create_transfer P st amb c headers request s)))"
  using assms by (rule create_transfer_outcome)

text \<open>An amount that the source account does not cover.\<close>

definition demo_large_request :: "CreateTransferRequest option" where
  "demo_large_request =
     Some \<lparr>ctr_source_account_id = ''1'', ctr_destination_account_id = ''2'', ctr_amount = ''50.01''\<rparr>"

theorem create_transfer_decides_witness:
  "fst (create_transfer demo_platform demo_state demo_ambient ''alice'' demo_headers
      demo_large_request (demo_session demo_ledger))
   = Inl (Fail (Business ''insufficient_funds'' ''The source account has insufficient funds''))"
proof -
  have dec: "transfer_request_decision demo_platform demo_headers demo_large_request demo_ledger =
     Inr (''k1'', 1, 2, \<lparr>pre_source_currency = ''PLN'', pre_source_scale = 2,
        pre_destination_currency = ''PLN'', pre_destination_scale = 2\<rparr>, Operation_Transfer, 5001)"
    by code_simp
  have "transfer_decision ''alice'' Operation_Transfer \<lparr>pre_source_currency = ''PLN'', pre_source_scale = 2,
        pre_destination_currency = ''PLN'', pre_destination_scale = 2\<rparr> 1000 1 2 5001 demo_ledger =
     Inl (Business ''insufficient_funds'' ''The source account has insufficient funds'')"
    by code_simp
  then show ?thesis
    using create_transfer_decides [of "demo_session demo_ledger" demo_platform "''alice''" demo_state
        demo_ambient demo_headers demo_large_request]
    by (simp add: demo_answers transfer_outcome_def dec Let_def)
qed

text \<open>
  C12: Money is conserved: a transfer within a currency leaves every currency's total as it was,
  and an FX transfer takes exactly its total debit out of the source currency and puts exactly
  its destination amount into the destination currency; no other total moves.
\<close>

theorem transfer_conserves_money:
  assumes "create_transfer P st amb c headers request s = (r, s')" and "ledger_ok (committed s)"
    and "committed s' \<noteq> committed s"
  shows "\<exists>t. transfers (committed s') = transfers (committed s) @ [t]
    \<and> (tr_kind t = Kind_Transfer \<longrightarrow>
         (\<forall>cur. currency_total cur (committed s') = currency_total cur (committed s)))
    \<and> (\<forall>cur. currency_total cur (committed s') = currency_total cur (committed s)
         - (if cur = tr_source_currency t then sint (total_debit_minor t) else 0)
         + (if cur = tr_destination_currency t then sint (destination_amount_minor t) else 0))"
proof -
  have keys: "distinct (map acc_id (accounts (committed s)))"
    using assms(2) by (simp add: ledger_ok_def schema_ok_def keys_ok_def)
  from create_transfer_cases [OF assms(1) keys] assms(3)
  obtain k source destination p fin amount resp where
    ok: "transfer_request_ok P headers request (committed s) k source destination p fin amount" and
    post: "transfer_posted P st amb c k fin p source destination amount (committed s) (committed s') resp"
    by blast
  from ok have cls: "classify_transfer p = Inr fin" and ne: "source \<noteq> destination"
    by (auto simp: transfer_request_ok_def dest: validate_transfer_ne)
  from post obtain a b ta sb db idem where
    comp: "transfer_computed c fin p (tx_time amb) source destination amount (committed s) a b ta sb db"
    and d': "committed s' = transfer_applied amb (new_transfer amb c a b amount ta) sb db idem (committed s)"
    unfolding transfer_posted_def by blast
  let ?t = "new_transfer amb c a b amount ta"
  note bal = transfer_balanced(1,2) [OF comp cls ne]
  have "currency_total cur (committed s') = currency_total cur (committed s)
      - (if cur = tr_source_currency ?t then sint (total_debit_minor ?t) else 0)
      + (if cur = tr_destination_currency ?t then sint (destination_amount_minor ?t) else 0)" for cur
    using posting_currency_total [OF bal(1) keys, of cur "tx_time amb"]
    by (simp add: d' currency_total_def)
  moreover have "tr_kind ?t = Kind_Transfer \<longrightarrow> tr_source_currency ?t = tr_destination_currency ?t
      \<and> total_debit_minor ?t = destination_amount_minor ?t"
    using bal(2) by (auto simp: amounts_ok_def)
  ultimately show ?thesis
    by (intro exI [of _ ?t]) (simp add: d')
qed

theorem transfer_conserves_money_witness:
  "\<exists>s' :: Session. length (transfers (committed s')) = 1
     \<and> currency_total ''USD'' (committed s') = currency_total ''USD'' demo_ledger"
proof -
  obtain resp s' idem where
    run: "create_transfer demo_platform demo_state demo_ambient ''alice'' demo_headers
       demo_transfer_request (demo_session demo_ledger) = (Inr resp, s')" and
    eff: "committed s' = transfer_applied demo_ambient
       (new_transfer demo_ambient ''alice'' (demo_account 1 ''alice'' ''PLN'' 5000)
          (demo_account 2 ''bob'' ''PLN'' 100) 1250
          \<lparr>ta_kind = Kind_Transfer, ta_destination = 1250, ta_fee = 0, ta_debit = 1250,
           ta_fee_bps = None, ta_rate = None, ta_rate_id = None\<rparr>) 3750 1350 idem demo_ledger"
    using demo_transfer_run by metis
  have led: "ledger_ok (committed (demo_session demo_ledger))" by (simp add: demo_answers)
  have ts: "transfers (committed s') = transfers demo_ledger @ [new_transfer demo_ambient ''alice''
          (demo_account 1 ''alice'' ''PLN'' 5000) (demo_account 2 ''bob'' ''PLN'' 100) 1250
          \<lparr>ta_kind = Kind_Transfer, ta_destination = 1250, ta_fee = 0, ta_debit = 1250,
           ta_fee_bps = None, ta_rate = None, ta_rate_id = None\<rparr>]"
    by (simp add: eff)
  then have ne: "committed s' \<noteq> committed (demo_session demo_ledger)" by (auto simp: demo_answers)
  from transfer_conserves_money [OF run led ne] ts
  have "currency_total ''USD'' (committed s') = currency_total ''USD'' demo_ledger"
    by (auto simp: demo_answers)
  moreover have "length (transfers (committed s')) = 1" using ts by (simp add: demo_ledger_def)
  ultimately show ?thesis by blast
qed

end
