(* ===== verification/Reversal_Properties.thy ===== *)
theory Reversal_Properties
  imports Transfer_Properties Reversals
begin

text \<open>
  The properties of reversals, alone and after the transfer they return.
\<close>

section \<open>A reversal that took effect\<close>

lemma reverse_transfer_effect:
  assumes "reverse_transfer P st amb c headers transfer_id s = (r, s')" and "ledger_ok (committed s)"
    and "committed s' \<noteq> committed s"
  shows "\<exists>oid t rv a b x y idem sb db.
      parse_uuid P transfer_id = Some oid \<and> find_by tr_id oid (transfers (committed s)) = Some t
    \<and> tr_kind t \<noteq> Kind_Reversal \<and> (\<forall>u \<in> set (transfers (committed s)). reverses u \<noteq> Some oid)
    \<and> find_by acc_id (tr_destination t) (accounts (committed s)) = Some a
    \<and> find_by acc_id (tr_source t) (accounts (committed s)) = Some b
    \<and> owner_id a = c \<and> acc_status a = Active \<and> acc_status b = Active
    \<and> sint sb = sint (balance_minor a) - sint (destination_amount_minor t)
    \<and> sint db = sint (balance_minor b) + sint (total_debit_minor t)
    \<and> find_by acc_id (tr_destination t) (accounts (committed s')) = Some (set_balance sb (tx_time amb) a)
    \<and> find_by acc_id (tr_source t) (accounts (committed s')) = Some (set_balance db (tx_time amb) b)
    \<and> (\<forall>k. k \<notin> {tr_source t, tr_destination t} \<longrightarrow>
         find_by acc_id k (accounts (committed s')) = find_by acc_id k (accounts (committed s)))
    \<and> transfers (committed s') = transfers (committed s) @ [rv]
    \<and> reverses rv = Some oid \<and> mirrors t rv \<and> initiated_by rv = c
    \<and> account_entries (committed s') = account_entries (committed s) @ [x, y] \<and> entry_pair rv x y
    \<and> idempotency_records (committed s') = idempotency_records (committed s) @ [idem]
    \<and> record_complete idem \<and> resource_id idem = Some (tr_id rv)
    \<and> (\<forall>resp. r = Inr resp \<longrightarrow> resp_status resp = 201)"
proof -
  have schema: "schema_ok (committed s)" using assms(2) by (rule ledger_okD)
  from reverse_transfer_cases [OF assms(1) schema] assms(3)
  obtain k oid resp where
    req: "reversal_request P headers transfer_id = Inr (k, oid)" and
    post: "reversal_posted P st amb c k oid (committed s) (committed s') resp" and
    r: "r \<in> {Inr resp, Inl (Fail lost), Inl Cancelled}"
    by blast
  from req have pid: "parse_uuid P transfer_id = Some oid"
    by (auto simp: reversal_request_def split: sum.splits option.splits)
  from post obtain t a b sb db body idem where
    dec: "reversal_decision c oid (committed s) = Inr (t, a, b, sb, db)" and
    d': "committed s' = reversal_applied amb (reversal_row amb c oid t) sb db idem (committed s)" and
    rec: "record_complete idem" "resource_id idem = Some (new_v4 amb 0)" and
    resp: "resp = \<lparr>resp_status = 201, resp_body = body\<rparr>"
    unfolding reversal_posted_def
    by (metis record_complete_completed completed_row_def set_response_simps(4))
  note f = reversal_decision_Inr [OF dec]
  have ne: "tr_destination t \<noteq> tr_source t"
    using schema_transfer_check [OF schema f(1)] by (auto simp: transfer_check_def)
  obtain x y where es: "reversal_entries amb (reversal_row amb c oid t) = [x, y]"
    "entry_pair (reversal_row amb c oid t) x y"
    using reversal_entries_pair by blast
  have rows:
    "find_by acc_id (tr_destination t) (accounts (committed s')) = Some (set_balance sb (tx_time amb) a)"
    "find_by acc_id (tr_source t) (accounts (committed s')) = Some (set_balance db (tx_time amb) b)"
    "k \<notin> {tr_source t, tr_destination t} \<Longrightarrow>
       find_by acc_id k (accounts (committed s')) = find_by acc_id k (accounts (committed s))" for k
    using f(3,6) ne by (auto simp: d' find_write_balances option.map_ident)
  have mir: "mirrors t (reversal_row amb c oid t)" by (simp add: mirrors_def)
  have grown: "transfers (committed s') = transfers (committed s) @ [reversal_row amb c oid t]"
    "account_entries (committed s') = account_entries (committed s) @ [x, y]"
    "idempotency_records (committed s') = idempotency_records (committed s) @ [idem]"
    by (simp_all add: d' es)
  have st: "\<forall>z. r = Inr z \<longrightarrow> resp_status z = 201" using r resp by auto
  show ?thesis
    by (intro exI [of _ oid] exI [of _ t] exI [of _ "reversal_row amb c oid t"] exI [of _ a]
        exI [of _ b] exI [of _ x] exI [of _ y] exI [of _ idem] exI [of _ sb] exI [of _ db])
       (simp add: pid f rows mir es(2) rec grown st)
qed

lemma create_transfer_change:
  "create_transfer P st amb c headers request s = (r, s') \<Longrightarrow> transfer_change (committed s) (committed s')"
  unfolding transfer_change_def commits_def by blast

lemma reverse_transfer_change:
  "reverse_transfer P st amb c headers transfer_id s = (r, s') \<Longrightarrow>
     reversal_change (committed s) (committed s')"
  unfolding reversal_change_def commits_def by blast

lemma find_by_unique:
  assumes "find_by key k rows = Some r" and "distinct (map key rows)" and "r' \<in> set rows" and "key r' = k"
  shows "r' = r"
  using assms by (metis find_by_eq_Some_iff option.inject)

section \<open>A concrete reversal\<close>

text \<open>Bob returns what Alice sent him: the ledger after the concrete transfer, and his request.\<close>

definition demo_amounts :: TransferAmounts where
  "demo_amounts =
     \<lparr>ta_kind = Kind_Transfer, ta_destination = 1250, ta_fee = 0, ta_debit = 1250,
      ta_fee_bps = None, ta_rate = None, ta_rate_id = None\<rparr>"

definition demo_transfer :: TransferRow where
  "demo_transfer = new_transfer demo_ambient ''alice'' (demo_account 1 ''alice'' ''PLN'' 5000)
     (demo_account 2 ''bob'' ''PLN'' 100) 1250 demo_amounts"

definition demo_later :: Ambient where
  "demo_later = \<lparr>tx_time = 2000, new_v4 = (\<lambda>n. of_nat (200 + n))\<rparr>"

lemma demo_transfer_simps [simp]:
  "tr_id demo_transfer = 100" "tr_source demo_transfer = 1" "tr_destination demo_transfer = 2"
  "tr_source_currency demo_transfer = ''PLN''" "tr_destination_currency demo_transfer = ''PLN''"
  "destination_amount_minor demo_transfer = 1250" "total_debit_minor demo_transfer = 1250"
  "tr_kind demo_transfer = Kind_Transfer" "reverses demo_transfer = None"
  by (simp_all add: demo_transfer_def demo_account_def demo_amounts_def demo_ambient_def)

lemma nonblank_bob [simp]: "nonblank ''bob''"
  by code_simp

lemma demo_reversal_requested:
  "reversal_request demo_platform demo_headers ''100'' = Inr (''k1'', 100)"
  by code_simp

lemma demo_posted:
  obtains s' :: Session and resp where
    "create_transfer demo_platform demo_state demo_ambient ''alice'' demo_headers
       demo_transfer_request (demo_session demo_ledger) = (Inr resp, s')"
    and "ledger_ok (committed s')" and "transfers (committed s') = [demo_transfer]"
    and "accounts (committed s') =
      [set_balance 3750 1000 (demo_account 1 ''alice'' ''PLN'' 5000),
       set_balance 1350 1000 (demo_account 2 ''bob'' ''PLN'' 100), demo_account 3 ''carol'' ''USD'' 900]"
    and "find_by idem_row_key (''bob'', REVERSAL_OPERATION, k) (idempotency_records (committed s')) = None"
    and "fresh_ids demo_later (committed s')" and "versions_ok (committed s')"
proof -
  obtain resp s' idem where
    run: "create_transfer demo_platform demo_state demo_ambient ''alice'' demo_headers
       demo_transfer_request (demo_session demo_ledger) = (Inr resp, s')" and
    eff: "committed s' = transfer_applied demo_ambient demo_transfer 3750 1350 idem demo_ledger" and
    key: "idem_row_key idem = (''alice'', TRANSFER_OPERATION, ''k1'')"
    using demo_transfer_run unfolding demo_transfer_def demo_amounts_def by metis
  have led: "ledger_ok (committed (demo_session demo_ledger))" by (simp add: demo_answers)
  have ok: "ledger_ok (committed s')"
    by (rule transfer.keeps_ledger [OF led create_transfer_change [OF run]])
  have ts: "transfers (committed s') = [demo_transfer]" by (simp add: eff demo_ledger_def)
  have accs: "accounts (committed s') =
      [set_balance 3750 1000 (demo_account 1 ''alice'' ''PLN'' 5000),
       set_balance 1350 1000 (demo_account 2 ''bob'' ''PLN'' 100), demo_account 3 ''carol'' ''USD'' 900]"
    by (simp add: eff demo_ledger_def write_balances_def update_by_def demo_account_def demo_ambient_def)
  have recs: "idempotency_records (committed s') = [idem]" by (simp add: eff demo_ledger_def)
  have ents: "account_entries (committed s') = transfer_entries demo_ambient demo_transfer"
    by (simp add: eff demo_ledger_def)
  have fresh: "fresh_ids demo_later (committed s')"
    by (simp add: fresh_ids_def ts ents transfer_entries_def Let_def demo_later_def demo_ambient_def)
  have ver: "versions_ok (committed s')"
    by (simp add: versions_ok_def accs demo_account_def set_balance_def i64_max_def)
  have "find_by idem_row_key (''bob'', REVERSAL_OPERATION, k) (idempotency_records (committed s')) = None"
    by (simp add: recs key)
  with run ok ts accs fresh ver show ?thesis using that by blast
qed

lemma demo_reversal_run:
  obtains s' s'' :: Session and resp rv where
    "create_transfer demo_platform demo_state demo_ambient ''alice'' demo_headers
       demo_transfer_request (demo_session demo_ledger) = (Inr resp, s')"
    and "ledger_ok (committed s')" and "transfers (committed s') = [demo_transfer]"
    and "reverse_transfer demo_platform demo_state demo_later ''bob'' demo_headers ''100''
       (demo_session (committed s')) = (Inr rv, s'')"
    and "map balance_minor (accounts (committed s')) = [3750, 1350, 900]"
    and "fresh_ids demo_later (committed s')" and "versions_ok (committed s')"
    and "map balance_minor (accounts (committed s'')) = [5000, 100, 900]"
    and "map reverses (transfers (committed s'')) = [None, Some 100]"
proof -
  obtain s' :: Session and resp where
    run: "create_transfer demo_platform demo_state demo_ambient ''alice'' demo_headers
       demo_transfer_request (demo_session demo_ledger) = (Inr resp, s')" and
    ok: "ledger_ok (committed s')" and ts: "transfers (committed s') = [demo_transfer]" and
    accs: "accounts (committed s') =
      [set_balance 3750 1000 (demo_account 1 ''alice'' ''PLN'' 5000),
       set_balance 1350 1000 (demo_account 2 ''bob'' ''PLN'' 100), demo_account 3 ''carol'' ''USD'' 900]" and
    rec: "find_by idem_row_key (''bob'', REVERSAL_OPERATION, ''k1'') (idempotency_records (committed s')) = None" and
    fresh: "fresh_ids demo_later (committed s')" and ver: "versions_ok (committed s')"
    by (rule demo_posted)
  let ?a = "set_balance 1350 1000 (demo_account 2 ''bob'' ''PLN'' 100)"
  let ?b = "set_balance 3750 1000 (demo_account 1 ''alice'' ''PLN'' 5000)"
  have rows: "find_by acc_id 2 (accounts (committed s')) = Some ?a"
    "find_by acc_id 1 (accounts (committed s')) = Some ?b"
    "owner_id ?a = ''bob''" "acc_status ?a = Active" "acc_status ?b = Active"
    "acc_currency ?a = ''PLN''" "acc_currency ?b = ''PLN''" "balance_minor ?a = 1350" "balance_minor ?b = 3750"
    by (simp_all add: accs demo_account_def)
  have "checked_sub_i64 1350 1250 = Some 100" "checked_add_i64 3750 1250 = Some 5000"
    by (simp_all add: checked_sub_i64_def checked_add_i64_def i64_try_from_def i64_min_def i64_max_def)
  then have dec: "reversal_decision ''bob'' 100 (committed s') = Inr (demo_transfer, ?a, ?b, 100, 5000)"
    using rows by (simp add: reversal_decision_def ts)
  have ret: "retention_ok demo_state demo_later"
    by (simp add: retention_ok_def demo_state_def demo_later_def i64_max_def timestamptz_end_def)
  have "reversal_outcome demo_platform demo_state demo_later ''bob'' demo_headers ''100'' (committed s')
     (fst (reverse_transfer demo_platform demo_state demo_later ''bob'' demo_headers ''100'' (demo_session (committed s'))))
     (committed (snd (reverse_transfer demo_platform demo_state demo_later ''bob'' demo_headers ''100'' (demo_session (committed s')))))"
    using reverse_transfer_outcome [of "demo_session (committed s')" demo_platform "''bob''" demo_state
        demo_later demo_headers "''100''"] ok fresh ver ret by (simp add: demo_answers)
  then obtain rv s'' idem where
    run2: "reverse_transfer demo_platform demo_state demo_later ''bob'' demo_headers ''100''
       (demo_session (committed s')) = (Inr rv, s'')" and
    eff: "committed s'' = reversal_applied demo_later (reversal_row demo_later ''bob'' 100 demo_transfer)
       100 5000 idem (committed s')"
    using iffD2 [OF answer_Fresh_iff rec]
    by (auto simp: reversal_outcome_def demo_reversal_requested dec prod_eq_iff)
  have "map balance_minor (accounts (committed s'')) = [5000, 100, 900]"
    by (simp add: eff accs write_balances_def update_by_def demo_account_def)
  moreover have "map reverses (transfers (committed s'')) = [None, Some 100]"
    by (simp add: eff ts)
  moreover have "map balance_minor (accounts (committed s')) = [3750, 1350, 900]"
    by (simp add: accs demo_account_def)
  ultimately show ?thesis using that [OF run ok ts run2 _ fresh ver] by metis
qed


section \<open>Properties\<close>

text \<open>
  C5: Whatever interrupts a call of \<open>reverse_transfer\<close>, the committed database is unchanged or
  changed by one complete reversal: the caller owns the account that received the original, the
  original is no reversal and has none yet, both accounts are active; the receiving account is
  debited by exactly what it received and the original source credited by everything it was
  debited, fee included; every other account is untouched; one transfer row that mirrors the
  original, its entry pair and one completed idempotency record are appended.
\<close>

theorem reversal_all_or_nothing:
  assumes "reverse_transfer P st amb c headers transfer_id s = (r, s')" and "ledger_ok (committed s)"
    and "committed s' \<noteq> committed s"
  shows "\<exists>oid t rv a b x y idem sb db.
      parse_uuid P transfer_id = Some oid \<and> find_by tr_id oid (transfers (committed s)) = Some t
    \<and> tr_kind t \<noteq> Kind_Reversal \<and> (\<forall>u \<in> set (transfers (committed s)). reverses u \<noteq> Some oid)
    \<and> find_by acc_id (tr_destination t) (accounts (committed s)) = Some a
    \<and> find_by acc_id (tr_source t) (accounts (committed s)) = Some b
    \<and> owner_id a = c \<and> acc_status a = Active \<and> acc_status b = Active
    \<and> sint sb = sint (balance_minor a) - sint (destination_amount_minor t)
    \<and> sint db = sint (balance_minor b) + sint (total_debit_minor t)
    \<and> find_by acc_id (tr_destination t) (accounts (committed s')) = Some (set_balance sb (tx_time amb) a)
    \<and> find_by acc_id (tr_source t) (accounts (committed s')) = Some (set_balance db (tx_time amb) b)
    \<and> (\<forall>k. k \<notin> {tr_source t, tr_destination t} \<longrightarrow>
         find_by acc_id k (accounts (committed s')) = find_by acc_id k (accounts (committed s)))
    \<and> transfers (committed s') = transfers (committed s) @ [rv]
    \<and> reverses rv = Some oid \<and> mirrors t rv \<and> initiated_by rv = c
    \<and> account_entries (committed s') = account_entries (committed s) @ [x, y] \<and> entry_pair rv x y
    \<and> idempotency_records (committed s') = idempotency_records (committed s) @ [idem]
    \<and> record_complete idem \<and> resource_id idem = Some (tr_id rv)
    \<and> (\<forall>resp. r = Inr resp \<longrightarrow> resp_status resp = 201)"
  using assms by (rule reverse_transfer_effect)

lemma demo_reversal_id: "parse_uuid demo_platform ''100'' = Some 100"
  by code_simp

theorem reversal_all_or_nothing_witness:
  "\<exists>s' s'' resp rv t. create_transfer demo_platform demo_state demo_ambient ''alice'' demo_headers
       demo_transfer_request (demo_session demo_ledger) = (Inr resp, s')
     \<and> reverse_transfer demo_platform demo_state demo_later ''bob'' demo_headers ''100''
         (demo_session (committed s')) = (Inr rv, s'')
     \<and> transfers (committed s'') = transfers (committed s') @ [t] \<and> reverses t = Some 100
     \<and> resp_status rv = 201"
proof -
  obtain s' s'' :: Session and resp rv where
    run: "create_transfer demo_platform demo_state demo_ambient ''alice'' demo_headers
       demo_transfer_request (demo_session demo_ledger) = (Inr resp, s')" and
    ok: "ledger_ok (committed s')" and
    run2: "reverse_transfer demo_platform demo_state demo_later ''bob'' demo_headers ''100''
       (demo_session (committed s')) = (Inr rv, s'')" and
    ts: "transfers (committed s') = [demo_transfer]" "map reverses (transfers (committed s'')) = [None, Some 100]"
    by (rule demo_reversal_run) (rule that)
  have ne: "committed s'' \<noteq> committed (demo_session (committed s'))"
    using ts by (auto simp: demo_answers)
  have "ledger_ok (committed (demo_session (committed s')))" using ok by (simp add: demo_answers)
  from reversal_all_or_nothing [OF run2 this ne] obtain t where
    "transfers (committed s'') = transfers (committed s') @ [t]" "reverses t = Some 100" "resp_status rv = 201"
    using demo_reversal_id by (auto simp: demo_answers)
  with run run2 show ?thesis by blast
qed

text \<open>
  C14: A transfer followed by its reversal restores every balance of the ledger exactly, whatever
  interrupted the two calls as long as both took effect: the fee goes back to the payer with the
  principal, and an FX transfer is undone without a second conversion.
\<close>

theorem reversal_restores_balances:
  assumes "create_transfer P st amb c headers request s = (r, s1)" and "ledger_ok (committed s)"
    and "committed s1 \<noteq> committed s"
    and "parse_uuid P' transfer_id = Some (tr_id (last (transfers (committed s1))))"
    and "committed s2 = committed s1"
    and "reverse_transfer P' st' amb' c' headers' transfer_id s2 = (r', s3)"
    and "committed s3 \<noteq> committed s2"
  shows "map_option balance_minor (find_by acc_id k (accounts (committed s3)))
       = map_option balance_minor (find_by acc_id k (accounts (committed s)))"
proof -
  from create_transfer_effect [OF assms(1-3)] obtain a b t sb db where
    t: "transfers (committed s1) = transfers (committed s) @ [t]" and
    one: "find_by acc_id (tr_source t) (accounts (committed s)) = Some a"
      "find_by acc_id (tr_destination t) (accounts (committed s)) = Some b"
      "sint sb = sint (balance_minor a) - sint (total_debit_minor t)"
      "sint db = sint (balance_minor b) + sint (destination_amount_minor t)"
      "find_by acc_id (tr_source t) (accounts (committed s1)) = Some (set_balance sb (tx_time amb) a)"
      "find_by acc_id (tr_destination t) (accounts (committed s1)) = Some (set_balance db (tx_time amb) b)"
      "\<forall>k. k \<notin> {tr_source t, tr_destination t} \<longrightarrow>
         find_by acc_id k (accounts (committed s1)) = find_by acc_id k (accounts (committed s))"
    by (elim exE conjE)
  have led: "ledger_ok (committed s2)"
    using transfer.keeps_ledger [OF assms(2) create_transfer_change [OF assms(1)]] by (simp add: assms(5))
  from reverse_transfer_effect [OF assms(6) led assms(7)] assms(4,5) obtain u x y sb' db' where
    u: "find_by tr_id (tr_id (last (transfers (committed s1)))) (transfers (committed s1)) = Some u" and
    two: "find_by acc_id (tr_destination u) (accounts (committed s1)) = Some x"
      "find_by acc_id (tr_source u) (accounts (committed s1)) = Some y"
      "sint sb' = sint (balance_minor x) - sint (destination_amount_minor u)"
      "sint db' = sint (balance_minor y) + sint (total_debit_minor u)"
      "find_by acc_id (tr_destination u) (accounts (committed s3)) = Some (set_balance sb' (tx_time amb') x)"
      "find_by acc_id (tr_source u) (accounts (committed s3)) = Some (set_balance db' (tx_time amb') y)"
      "\<forall>k. k \<notin> {tr_source u, tr_destination u} \<longrightarrow>
         find_by acc_id k (accounts (committed s3)) = find_by acc_id k (accounts (committed s1))"
    by auto
  have "distinct (map tr_id (transfers (committed s1)))"
    using led by (simp add: assms(5) ledger_ok_def schema_ok_def keys_ok_def)
  from find_by_unique [OF u this, of t] have ut: "u = t" by (simp add: t)
  have "x = set_balance db (tx_time amb) b" and "y = set_balance sb (tx_time amb) a"
    using one two by (simp_all add: ut)
  then have "sint sb' = sint (balance_minor b)" and "sint db' = sint (balance_minor a)"
    using one(3,4) two(3,4) by (simp_all add: ut)
  then have "sb' = balance_minor b" and "db' = balance_minor a"
    by (simp_all add: signed_word_eqI)
  then show ?thesis
    using one two by (cases "k = tr_source t"; cases "k = tr_destination t") (auto simp: ut)
qed

theorem reversal_restores_balances_witness:
  "\<exists>(s' :: Session) s'' rv. map balance_minor (accounts (committed s')) = [3750, 1350, 900]
     \<and> reverse_transfer demo_platform demo_state demo_later ''bob'' demo_headers ''100''
         (demo_session (committed s')) = (Inr rv, s'')
     \<and> map_option balance_minor (find_by acc_id 1 (accounts (committed s''))) = Some 5000"
proof -
  obtain s' s'' :: Session and resp rv where
    run: "create_transfer demo_platform demo_state demo_ambient ''alice'' demo_headers
       demo_transfer_request (demo_session demo_ledger) = (Inr resp, s')" and
    ok: "ledger_ok (committed s')" and
    run2: "reverse_transfer demo_platform demo_state demo_later ''bob'' demo_headers ''100''
       (demo_session (committed s')) = (Inr rv, s'')" and
    ts: "transfers (committed s') = [demo_transfer]" "map reverses (transfers (committed s'')) = [None, Some 100]" and
    bal: "map balance_minor (accounts (committed s')) = [3750, 1350, 900]"
    by (rule demo_reversal_run) (rule that)
  have ne: "committed s'' \<noteq> committed (demo_session (committed s'))"
    using ts by (auto simp: demo_answers)
  have ne1: "committed s' \<noteq> committed (demo_session demo_ledger)"
    using ts by (auto simp: demo_answers demo_ledger_def)
  have pid: "parse_uuid demo_platform ''100'' = Some (tr_id (last (transfers (committed s'))))"
    by (simp add: ts demo_reversal_id)
  have led: "ledger_ok (committed (demo_session demo_ledger))" by (simp add: demo_answers)
  have "map_option balance_minor (find_by acc_id 1 (accounts (committed s''))) = Some 5000"
    using reversal_restores_balances [OF run led ne1 pid demo_answers(3) run2 ne, of 1]
    by (simp add: demo_answers) (simp add: demo_ledger_def demo_account_def)
  with bal run2 show ?thesis
    by (intro exI [of _ s'] exI [of _ s''] exI [of _ rv] conjI)
qed

text \<open>
  A transfer is returned at most once per key, whatever interrupts the first attempt: if that
  attempt changed the database, a later undisturbed attempt with the same key and transfer
  changes nothing and answers 201 with the body of the reversal that was posted, which is the
  first attempt's answer if it gave one.
\<close>

lemma reversal_exactly_once:
  assumes "platform_ok P" and "ledger_ok (committed s)"
    and "reverse_transfer P st amb c headers transfer_id s = (r, s')"
    and "committed s' \<noteq> committed s"
    and "fates s2 = []" and "committed s2 = committed s'"
  shows "\<exists>resp. resp_status resp = 201 \<and> (\<forall>x. r = Inr x \<longrightarrow> x = resp)
    \<and> fst (reverse_transfer P st amb' c headers transfer_id s2) = Inr resp
    \<and> committed (snd (reverse_transfer P st amb' c headers transfer_id s2)) = committed s'"
proof -
  have schema: "schema_ok (committed s)" using assms(2) by (rule ledger_okD)
  from reverse_transfer_cases [OF assms(3) schema] assms(4)
  obtain k oid resp where
    req: "reversal_request P headers transfer_id = Inr (k, oid)" and
    post: "reversal_posted P st amb c k oid (committed s) (committed s') resp" and
    r: "r \<in> {Inr resp, Inl (Fail lost), Inl Cancelled}"
    by blast
  from post obtain t a b sb db body where
    absent: "find_by idem_row_key (c, REVERSAL_OPERATION, k) (idempotency_records (committed s)) = None" and
    resp: "resp = \<lparr>resp_status = 201, resp_body = body\<rparr>" and
    d': "committed s' = reversal_applied amb (reversal_row amb c oid t) sb db
               (completed_row (tx_time amb) (idempotency_retention st) (c, REVERSAL_OPERATION, k)
                  (reversal_fingerprint P oid) 201 body (new_v4 amb 0)) (committed s)"
    unfolding reversal_posted_def by blast
  have "record_store.answer (committed s') (c, REVERSAL_OPERATION, k) (reversal_fingerprint P oid)
      = Replayed (201, body)"
    by (rule completed_answers(1) [OF absent]) (simp add: d')
  then have "stored_record (committed s2) (c, REVERSAL_OPERATION, k)
      = Some (reversal_fingerprint P oid, Some (201, body))"
    by (simp add: answer_Replayed_iff assms(6))
  moreover have "stored_status P 201 = Inr 201" using stored_status_2xx [OF assms(1), of 201] by simp
  ultimately show ?thesis
    using reverse_transfer_done [OF assms(5) req, of c "reversal_fingerprint P oid" 201 body st amb'] r
    by (intro exI [of _ resp]) (auto simp: resp assms(6))
qed

lemma reversal_exactly_once_witness:
  "\<exists>(s'' :: Session) resp. map reverses (transfers (committed s'')) = [None, Some 100]
     \<and> fst (reverse_transfer demo_platform demo_state demo_later ''bob'' demo_headers ''100''
         (demo_session (committed s''))) = Inr resp
     \<and> committed (snd (reverse_transfer demo_platform demo_state demo_later ''bob'' demo_headers ''100''
         (demo_session (committed s'')))) = committed s''"
proof -
  obtain s' s'' :: Session and resp rv where
    ok: "ledger_ok (committed s')" and
    run2: "reverse_transfer demo_platform demo_state demo_later ''bob'' demo_headers ''100''
       (demo_session (committed s')) = (Inr rv, s'')" and
    ts: "transfers (committed s') = [demo_transfer]" "map reverses (transfers (committed s'')) = [None, Some 100]"
    by (rule demo_reversal_run) (rule that)
  have ne: "committed s'' \<noteq> committed (demo_session (committed s'))"
    using ts by (auto simp: demo_answers)
  have "ledger_ok (committed (demo_session (committed s')))" using ok by (simp add: demo_answers)
  from reversal_exactly_once [OF demo_platform_ok this run2 ne demo_answers(2) demo_answers(3)]
  obtain again where
    "fst (reverse_transfer demo_platform demo_state demo_later ''bob'' demo_headers ''100''
         (demo_session (committed s''))) = Inr again"
    "committed (snd (reverse_transfer demo_platform demo_state demo_later ''bob'' demo_headers ''100''
         (demo_session (committed s'')))) = committed s''"
    by blast
  with ts show ?thesis by (intro exI [of _ s''] exI [of _ again] conjI)
qed

text \<open>
  C7: An undisturbed reversal does exactly what the checks in their order decide: an invalid key
  or identifier answers 400; a completed key replays or conflicts; an unknown transfer, or one
  whose receiving account the caller does not own, answers not found (so the transfer's existence
  is not disclosed); a reversal, a transfer already reversed, an inactive account and an
  overflow have their own errors; otherwise the reversal is posted and answered 201.  Only the
  last changes the database, and a lack of funds is no error.
\<close>

theorem reverse_transfer_decides:
  assumes "fates s = []" and "platform_ok P" and "ledger_ok (committed s)"
    and "nonblank c" and "retention_ok st amb" and "fresh_ids amb (committed s)"
    and "versions_ok (committed s)"
  shows "reversal_outcome P st amb c headers transfer_id (committed s)
     (fst (reverse_transfer P st amb c headers transfer_id s))
     (committed (snd (reverse_transfer P st amb c headers transfer_id s)))"
  using assms by (rule reverse_transfer_outcome)

theorem reverse_transfer_decides_witness:
  "fst (reverse_transfer demo_platform demo_state demo_ambient ''alice'' demo_headers ''100''
      (demo_session demo_ledger)) = Inl (Fail NotFound)"
  using reverse_transfer_decides [of "demo_session demo_ledger" demo_platform "''alice''" demo_state
      demo_ambient demo_headers "''100''"]
  by (simp add: demo_answers reversal_outcome_def demo_reversal_requested)
     (simp add: reversal_decision_def demo_ledger_def)

end
