(* ===== verification/Attempts.thy ===== *)
theory Attempts
  imports Telemetry Reversal_Properties
begin

text \<open>
  How an attempt of an operation ends (\<open>src/api_error.rs\<close> and \<open>src/observability.rs\<close> as the handlers
  use them): the errors each handler can answer, which attempts of a financial write are counted, and
  under what.
\<close>

section \<open>Statuses of errors\<close>

definition error_status :: "AppError \<Rightarrow> nat" where
  "error_status e = fst (response_parts e)"

lemma error_status_simps [simp]:
  "error_status (BadRequest details) = 400" "error_status (Validation c m) = 400"
  "error_status Unauthorized = 401" "error_status Forbidden = 403" "error_status NotFound = 404"
  "error_status Conflict = 409" "error_status IdempotencyConflict = 409"
  "error_status AccountUnavailable = 404" "error_status (Business c m) = 422"
  "error_status ServiceUnavailable = 503" "error_status (Internal f) = 500"
  by (simp_all add: error_status_def response_parts_def)

lemma error_status_sql [simp]: "error_status (internal_sql e) = 500"
  by (simp add: internal_sql_def)

text \<open>A computation all of whose errors satisfy \<open>N\<close>, whatever the fates.\<close>

definition raises :: "(AppError \<Rightarrow> bool) \<Rightarrow> (AppError, 'a) tx \<Rightarrow> bool" where
  "raises N m \<longleftrightarrow> (\<forall>s e s'. m s = (Inl (Fail e), s') \<longrightarrow> N e)"

named_theorems raises_intros \<open>the statuses of errors\<close>

definition refuses :: "(AppError \<Rightarrow> bool) \<Rightarrow> AppError + 'a \<Rightarrow> bool" where
  "refuses N r \<longleftrightarrow> (case r of Inl e \<Rightarrow> N e | Inr _ \<Rightarrow> True)"

lemma refuses_simps [simp]: "refuses N (Inl e) \<longleftrightarrow> N e" "refuses N (Inr x)"
  by (simp_all add: refuses_def)

lemma refusesD: "refuses N r \<Longrightarrow> r = Inl e \<Longrightarrow> N e"
  by simp

lemma refuses_bind:
  assumes "\<And>e. r = Inl e \<Longrightarrow> N (h e)" and "\<And>x. refuses N (g x)"
  shows "refuses N (case r of Inl e \<Rightarrow> Inl (h e) | Inr x \<Rightarrow> g x)"
  using assms by (cases r) simp_all

lemma raisesD: "raises N m \<Longrightarrow> m s = (Inl (Fail e), s') \<Longrightarrow> N e"
  by (auto simp: raises_def)

lemma raises_basic [raises_intros]:
  "raises N (tx_return x)" "raises N tx_panic" "raises N (tx_expect y)" "raises N (emit ms)"
  "N e \<Longrightarrow> raises N (tx_throw e)"
  "N e \<Longrightarrow> raises N (ok_or e y)"
  "N e \<Longrightarrow> raises N (ensure b e)"
  "refuses N r \<Longrightarrow> raises N (from_result r)"
  by (auto simp: raises_def refuses_def tx_return_def tx_panic_def tx_expect_def emit_def tx_throw_def
      ok_or_def ensure_def from_result_def split: option.splits sum.splits if_splits)

lemma raises_bind [raises_intros]:
  assumes "raises N m" and "\<And>x. raises N (f x)"
  shows "raises N (tx_bind m f)"
  using assms unfolding raises_def tx_bind_def by (fastforce split: prod.splits sum.splits)

lemma raises_then [raises_intros]: "raises N m \<Longrightarrow> raises N m' \<Longrightarrow> raises N (tx_then m m')"
  by (simp add: tx_then_def raises_bind)

lemma raises_map_err [raises_intros]: "(\<And>e. N (f e)) \<Longrightarrow> raises N (map_err f m)"
  by (auto simp: raises_def map_err_def map_fault_def split: prod.splits sum.splits fault.splits)

lemma raises_if [raises_intros]: "raises N m \<Longrightarrow> raises N m' \<Longrightarrow> raises N (if b then m else m')"
  by simp

lemma raises_case_prod [raises_intros]: "(\<And>a b. raises N (f a b)) \<Longrightarrow> raises N (case p of (a, b) \<Rightarrow> f a b)"
  by (cases p) simp

lemma raises_case_option [raises_intros]:
  "raises N m \<Longrightarrow> (\<And>x. raises N (f x)) \<Longrightarrow> raises N (case y of None \<Rightarrow> m | Some x \<Rightarrow> f x)"
  by (cases y) simp_all

lemma raises_case_sum [raises_intros]:
  "(\<And>x. raises N (f x)) \<Longrightarrow> (\<And>x. raises N (g x)) \<Longrightarrow> raises N (case y of Inl x \<Rightarrow> f x | Inr x \<Rightarrow> g x)"
  by (cases y) simp_all

lemma raises_format_amount [raises_intros]: "raises N (format_amount a scale)"
  unfolding format_amount_def by (rule raises_intros)

lemma raises_case_reservation [raises_intros]:
  "raises N a \<Longrightarrow> raises N b \<Longrightarrow> (\<And>s v. raises N (f s v)) \<Longrightarrow>
   raises N (case r of Reservation_Owned \<Rightarrow> a | Reservation_Conflict \<Rightarrow> b | Reservation_Replay s v \<Rightarrow> f s v)"
  by (cases r) simp_all

lemma raises_stored_response [raises_intros]: "(\<And>f. N (Internal f)) \<Longrightarrow> raises N (stored_response P s body)"
  unfolding stored_response_def stored_status_def
  by (intro raises_intros) (simp add: refuses_def split: option.split)

lemma raises_run_observed [raises_intros]:
  assumes "raises N body" and "\<And>f. N (Internal f)"
  shows "raises N (run_observed fin body)"
  unfolding raises_def
proof (intro allI impI)
  fix s e s' assume run: "run_observed fin body s = (Inl (Fail e), s')"
  obtain r s1 where b: "body s = (r, s1)" by fastforce
  then show "N e"
    using run raisesD [OF assms(1)] assms(2)
    by (auto simp: run_observed_def Let_def internal_sql_def commit_def rollback_def next_fate_def
        split: sum.splits fault.splits prod.splits Fate.splits list.splits)
qed

lemma raises_transactional [raises_intros]:
  assumes "raises N body" and "\<And>x. raises N (answer x)" and "\<And>f. N (Internal f)"
  shows "raises N (transactional body answer)"
proof -
  have inner: "raises N (tx_bind body (\<lambda>x. tx_then (map_err internal_sql commit) (answer x)))"
    using assms by (intro raises_intros) (simp_all add: internal_sql_def)
  have "raises N (\<lambda>s. case tx_bind body (\<lambda>x. tx_then (map_err internal_sql commit) (answer x)) s of
         (Inr y, s') \<Rightarrow> (Inr y, s') | (Inl f, s') \<Rightarrow> (Inl f, drop_transaction s'))"
    using raisesD [OF inner] by (auto simp: raises_def split: prod.splits sum.splits)
  then show ?thesis
    unfolding transactional_def using assms(3)
    by (intro raises_intros) (simp_all add: internal_sql_def)
qed

definition status_in :: "nat set \<Rightarrow> AppError \<Rightarrow> bool" where
  [simp]: "status_in N e \<longleftrightarrow> error_status e \<in> N"

lemma raises_acquire:
  assumes "\<And>f. N (Internal f)"
  shows "raises N (\<lambda>s. case pool_acquire s of
      (Inr _, s1) \<Rightarrow> (Inr (), s1\<lparr>emitted := emitted s1 @ record_transfer_pool_acquire Pool_Success\<rparr>)
    | (Inl (Fail e), s1) \<Rightarrow> (Inl (Fail (internal_sql e)),
        s1\<lparr>emitted := emitted s1 @ record_transfer_pool_acquire Pool_Failure\<rparr>)
    | (Inl f, s1) \<Rightarrow> (Inl (map_fault internal_sql f), s1))"
  using assms by (auto simp: raises_def map_fault_def internal_sql_def
      split: prod.splits sum.splits fault.splits)

lemma raises_dropping:
  assumes "raises N m"
  shows "raises N (\<lambda>s. case m s of
      (Inr x, s1) \<Rightarrow> (Inr x, s1) | (Inl f, s1) \<Rightarrow> (Inl f, drop_transaction s1))"
  using raisesD [OF assms] by (auto simp: raises_def split: prod.splits sum.splits)

section \<open>Statuses of the endpoints\<close>

lemma error_status_codes [simp]:
  "error_status invalid_json = 400" "error_status malformed_account_id = 400"
  "error_status malformed_transfer_id = 400" "error_status malformed_key = 400"
  "error_status invalid_query = 400" "error_status invalid_cursor = 400"
  "error_status reversal_of_reversal = 422" "error_status transfer_already_reversed = 422"
  "error_status reversal_out_of_range = 422" "error_status reversal_metadata_mismatch = 500"
  "error_status transfer_out_of_range = 422"
  by (simp_all add: invalid_json_def malformed_account_id_def malformed_transfer_id_def
      malformed_key_def invalid_query_def invalid_cursor_def reversal_of_reversal_def
      transfer_already_reversed_def reversal_out_of_range_def reversal_metadata_mismatch_def
      transfer_out_of_range_def)

lemma refuses_from_headers: "400 \<in> N \<Longrightarrow> refuses (status_in N) (from_headers P headers)"
  by (auto simp: refuses_def from_headers_def split: sum.split list.split option.split)

lemma raises_replay_or_reserve [raises_intros]:
  assumes "N IdempotencyConflict" and "\<And>f. N (Internal f)"
  shows "raises N (replay_or_reserve P fin now retention c op k fp)"
  unfolding replay_or_reserve_def Let_def by (intro raises_intros assms) (simp_all add: assms internal_sql_def)

lemma raises_record_posting [raises_intros]:
  assumes "\<And>f. N (Internal f)"
  shows "raises N (record_posting now t bs es)"
proof -
  have each: "raises N (tx_for_each f xs)" if "\<And>x. raises N (f x)" for f :: "'b \<Rightarrow> (AppError, unit) tx" and xs
    by (induction xs) (auto intro!: raises_intros that)
  show ?thesis
    unfolding record_posting_def
    by (intro raises_intros each) (auto simp: assms internal_sql_def intro!: raises_intros)
qed

lemma raises_create_account:
  "raises (status_in {400, 409, 500}) (create_account P st amb c headers request)"
proof -
  have "raises (status_in {400, 409, 500}) (create_account_body P st amb c k cur balance)" for k cur balance
    unfolding create_account_body_def Let_def by (intro raises_intros) simp_all
  moreover have "refuses (status_in {400, 409, 500}) (map_sum money_error id (r :: MoneyError + i64))" for r
    by (cases r) (auto simp: refuses_def money_error_def split: MoneyError.split)
  ultimately show ?thesis
    unfolding create_account_def
    by (intro raises_intros) (simp_all add: refuses_from_headers)
qed

lemma raises_get_balance: "raises (status_in {400, 404, 500}) (get_balance P c account_id)"
  unfolding get_balance_def by (intro raises_intros) simp_all

lemma raises_get_transfer: "raises (status_in {400, 404, 500}) (get_transfer P c transfer_id)"
  unfolding get_transfer_def Let_def by (intro raises_intros) simp_all

lemma raises_fx_configuration [raises_intros]:
  "422 \<in> N \<Longrightarrow> 500 \<in> N \<Longrightarrow> raises (status_in N) (fx_configuration fin p t)"
  unfolding fx_configuration_def
  by (intro raises_intros) (auto simp: transfer_configuration_error_def split: ConfigurationError.split)

lemma refuses_query: "refuses (status_in {400}) (parse_query P J raw account_id)"
proof -
  have part: "refuses (status_in {400}) (read_part q part)" for q part
    unfolding read_part_def Let_def by (simp split: prod.split)
  have parts: "refuses (status_in {400}) (read_parts q parts)" for q parts
    by (induction parts arbitrary: q)
       (auto intro!: refuses_bind simp: refusesD [OF part, simplified])
  have cursor: "refuses (status_in {400}) (decode_cursor J v)" for v
    by (auto simp: decode_cursor_def split: option.split)
  have limit: "refuses (status_in {400}) (parse_limit v)" for v
    by (auto simp: parse_limit_def split: option.split)
  have read: "status_in {400} e"
    if "(case v of None \<Rightarrow> Inr None | Some t \<Rightarrow> map_sum id Some (decode_cursor J t)) = Inl e" for v e
    using that refusesD [OF cursor] by (cases v; cases "decode_cursor J (the v)") auto
  show ?thesis
    unfolding parse_query_def
    by (intro refuses_bind; (erule refusesD [OF parts] refusesD [OF limit] read)?)
       (auto split: option.splits)
qed

lemma raises_get_account_history:
  "raises (status_in {400, 404, 500}) (get_account_history P J c account raw)"
proof -
  have items: "raises (status_in {400, 404, 500}) (tx_map_list (account_entry_response P u scale) es)" for u scale es
    by (induction es)
       (auto simp: account_entry_response_def format_option_def intro!: raises_intros)
  have "refuses (status_in {400, 404, 500}) (parse_query P J raw u)" for u
    using refuses_query [of P J raw u] by (auto simp: refuses_def split: sum.splits)
  moreover have "refuses (status_in {400, 404, 500}) (u8_try_from x)" for x
    by (simp add: refuses_def u8_try_from_def)
  ultimately show ?thesis
    unfolding get_account_history_def Let_def next_cursor_def
    by (intro raises_intros items) simp_all
qed

definition write_failures :: "nat set" where
  "write_failures = {400, 404, 409, 422, 500}"

lemma write_failures [simp]:
  "400 \<in> write_failures" "404 \<in> write_failures" "409 \<in> write_failures" "422 \<in> write_failures"
  "500 \<in> write_failures"
  by (simp_all add: write_failures_def)

lemma transfer_arithmetic_status [simp]: "error_status (transfer_arithmetic_error e) \<in> write_failures"
  by (cases e) (simp_all add: transfer_arithmetic_error_def)

lemma raises_post_transfer:
  "raises (status_in write_failures) (post_transfer P amb c k fin p source destination amount)"
proof -
  have amounts: "refuses (status_in write_failures) (transfer_amounts amount fx src dst)" for fx src dst
    unfolding transfer_amounts_def
    by (cases fx) (auto split: prod.split intro!: refuses_bind)
  have participants: "refuses (status_in write_failures) (check_participants c p src dst)" for src dst
    by (simp add: refuses_def check_participants_def)
  have balances: "refuses (status_in write_failures) (transfer_balances src dst ta)" for src dst ta
    by (auto simp: refuses_def transfer_balances_def split: option.split)
  have response: "raises (status_in write_failures) (transfer_response P t src dst)" for t src dst
    unfolding transfer_response_def Let_def by (intro raises_intros)
  have locks: "raises (status_in write_failures) (lock_accounts source destination)"
    unfolding lock_accounts_def Let_def by (intro raises_intros) simp_all
  have rate: "raises (status_in write_failures) (cast_rate r)" for r
    unfolding cast_rate_def by (intro raises_intros) simp_all
  show ?thesis
    unfolding post_transfer_def Let_def
    by (intro raises_intros amounts participants balances response locks rate) simp_all
qed

lemma raises_create_transfer: "raises (status_in write_failures) (create_transfer P st amb c headers request)"
proof -
  have valid: "refuses (status_in write_failures) (validate_transfer P headers request)"
    using refuses_from_headers [of write_failures P headers]
    by (auto simp: refuses_def validate_transfer_def split: sum.split option.split)
  have amount: "refuses (status_in write_failures) (transfer_amount p input)" for p input
    by (auto simp: refuses_def transfer_amount_def u8_try_from_def transfer_money_error_def
        split: sum.split MoneyError.split)
  have body: "raises (status_in write_failures) (transfer_body P st amb c k fin p source destination input)"
    for k fin p source destination input
    unfolding transfer_body_def by (intro raises_intros raises_post_transfer amount) simp_all
  have "refuses (status_in write_failures) (classify_transfer p)" for p
    by (simp add: refuses_def classify_transfer_def)
  then show ?thesis
    unfolding create_transfer_def
    by (intro raises_intros raises_acquire raises_dropping valid body) simp_all
qed

lemma raises_reverse_transfer: "raises (status_in write_failures) (reverse_transfer P st amb c headers transfer_id)"
proof -
  have response: "raises (status_in write_failures) (reversal_response P k t src dst sb db)" for k t src dst sb db
    unfolding reversal_response_def Let_def by (intro raises_intros)
  have locks: "raises (status_in write_failures) (lock_reversal_accounts a b)" for a b
    unfolding lock_reversal_accounts_def Let_def by (intro raises_intros) simp_all
  have decide: "raises (status_in write_failures) (decide_reversal c k)" for k
    unfolding decide_reversal_def by (intro raises_intros locks) simp_all
  have body: "raises (status_in write_failures) (reversal_body P st amb c k oid)" for k oid
    unfolding reversal_body_def post_reversal_def Let_def
    by (intro raises_intros response decide) simp_all
  have starts: "raises (status_in write_failures) (begin_counted fin)" for fin
    by (auto simp: raises_def begin_counted_def Let_def map_fault_def
        split: prod.splits sum.splits fault.splits)
  show ?thesis
    unfolding reverse_transfer_def
    by (intro raises_intros body starts) (simp_all add: refuses_from_headers)
qed

section \<open>Codes of refusals\<close>

text \<open>What the client reads of an error, and an error read as one of \<open>T\<close>.\<close>

definition answered :: "AppError \<Rightarrow> nat \<times> string" where
  "answered e = (case response_parts e of (status, body) \<Rightarrow> (status, error_code body))"

definition refusal :: "(nat \<times> string) list \<Rightarrow> AppError \<Rightarrow> bool" where
  "refusal T e \<longleftrightarrow> answered e \<in> set T"

text \<open>What a transfer can be refused with before it is observed, a transfer that is observed, and
  the same of a reversal.\<close>

definition key_refusals :: "(nat \<times> string) list" where
  "key_refusals = [(400, ''missing_idempotency_key''), (400, ''duplicate_idempotency_key''),
     (400, ''malformed_idempotency_key'')]"

definition early_transfer_refusals :: "(nat \<times> string) list" where
  "early_transfer_refusals = key_refusals @ [(400, ''invalid_json''), (400, ''malformed_account_id''),
     (400, ''same_source_and_destination''), (404, ''account_unavailable''), (500, ''internal_error'')]"

definition transfer_refusals :: "(nat \<times> string) list" where
  "transfer_refusals =
    [(400, ''malformed_amount''), (400, ''too_many_fractional_digits''), (400, ''non_positive_amount''),
     (400, ''amount_overflow''), (404, ''account_unavailable''), (409, ''idempotency_conflict''),
     (422, ''rate_unavailable''), (422, ''rate_configuration_ambiguous''), (422, ''fee_rule_unavailable''),
     (422, ''fee_rule_configuration_ambiguous''), (422, ''destination_amount_too_small''),
     (422, ''arithmetic_overflow''), (422, ''insufficient_funds''), (500, ''internal_error'')]"

definition early_reversal_refusals :: "(nat \<times> string) list" where
  "early_reversal_refusals = key_refusals @ [(400, ''malformed_transfer_id'')]"

definition reversal_refusals :: "(nat \<times> string) list" where
  "reversal_refusals =
    [(404, ''not_found''), (404, ''account_unavailable''), (409, ''idempotency_conflict''),
     (422, ''reversal_of_reversal''), (422, ''transfer_already_reversed''), (422, ''arithmetic_overflow''),
     (500, ''internal_error'')]"

lemma refusal_simps [simp]:
  "refusal T (Validation c m) \<longleftrightarrow> (400, c) \<in> set T" "refusal T (Business c m) \<longleftrightarrow> (422, c) \<in> set T"
  "refusal T NotFound \<longleftrightarrow> (404, ''not_found'') \<in> set T"
  "refusal T AccountUnavailable \<longleftrightarrow> (404, ''account_unavailable'') \<in> set T"
  "refusal T IdempotencyConflict \<longleftrightarrow> (409, ''idempotency_conflict'') \<in> set T"
  "refusal T (Internal f) \<longleftrightarrow> (500, ''internal_error'') \<in> set T"
  "refusal T (internal_sql e) \<longleftrightarrow> (500, ''internal_error'') \<in> set T"
  by (simp_all add: refusal_def answered_def response_parts_def ErrorEnvelope_new_def internal_sql_def)

lemmas refusal_tables = key_refusals_def early_transfer_refusals_def transfer_refusals_def
  early_reversal_refusals_def reversal_refusals_def

lemma refuses_key: "refuses (refusal T) (from_headers P headers)" if "set key_refusals \<subseteq> set T"
  using that by (auto simp: refuses_def from_headers_def malformed_key_def key_refusals_def
      split: sum.split list.split option.split)

lemma key_refusals_early:
  "set key_refusals \<subseteq> set early_transfer_refusals" "set key_refusals \<subseteq> set early_reversal_refusals"
  by (auto simp: early_transfer_refusals_def early_reversal_refusals_def)

lemma refuses_validate: "refuses (refusal early_transfer_refusals) (validate_transfer P headers request)"
  using refuses_key [OF key_refusals_early(1), of P headers]
  by (auto simp: refuses_def validate_transfer_def invalid_json_def malformed_account_id_def
      early_transfer_refusals_def split: sum.split option.split)

lemma refuses_reversal_request: "refuses (refusal early_reversal_refusals) (reversal_request P headers transfer_id)"
  using refuses_key [OF key_refusals_early(2), of P headers]
  by (auto simp: refuses_def reversal_request_def malformed_transfer_id_def
      early_reversal_refusals_def split: sum.split option.split)

lemma raises_fx_configuration_codes: "raises (refusal transfer_refusals) (fx_configuration fin p t)"
  unfolding fx_configuration_def
  by (intro raises_intros)
     (auto simp: transfer_configuration_error_def transfer_refusals_def split: ConfigurationError.split)

lemma raises_post_transfer_codes:
  "raises (refusal transfer_refusals) (post_transfer P amb c k fin p source destination amount)"
proof -
  let ?N = "refusal transfer_refusals"
  have arithmetic: "?N (transfer_arithmetic_error e)" for e
    by (cases e) (simp_all add: transfer_arithmetic_error_def transfer_refusals_def)
  have range: "?N transfer_out_of_range" by (simp add: transfer_out_of_range_def transfer_refusals_def)
  have amounts: "refuses ?N (transfer_amounts amount fx src dst)" for fx src dst
    unfolding transfer_amounts_def
    by (cases fx) (auto simp: arithmetic range split: prod.split intro!: refuses_bind)
  have participants: "refuses ?N (check_participants c p src dst)" for src dst
    by (simp add: refuses_def check_participants_def transfer_refusals_def)
  have balances: "refuses ?N (transfer_balances src dst ta)" for src dst ta
    by (auto simp: refuses_def transfer_balances_def range split: option.split)
       (simp_all add: transfer_refusals_def)
  have response: "raises ?N (transfer_response P t src dst)" for t src dst
    unfolding transfer_response_def Let_def by (intro raises_intros)
  have locks: "raises ?N (lock_accounts source destination)"
    unfolding lock_accounts_def Let_def by (intro raises_intros) (simp_all add: transfer_refusals_def)
  have rate: "raises ?N (cast_rate r)" for r
    unfolding cast_rate_def by (intro raises_intros) (simp_all add: transfer_refusals_def)
  show ?thesis
    unfolding post_transfer_def Let_def
    by (intro raises_intros amounts participants balances response locks rate raises_fx_configuration_codes)
       (simp_all add: transfer_refusals_def)
qed

lemma raises_transfer_body:
  "raises (refusal transfer_refusals) (transfer_body P st amb c k fin p source destination input)"
proof -
  have amount: "refuses (refusal transfer_refusals) (transfer_amount p input)" for p input
    by (auto simp: refuses_def transfer_amount_def u8_try_from_def transfer_money_error_def
        transfer_refusals_def split: sum.split MoneyError.split)
  show ?thesis
    unfolding transfer_body_def
    by (intro raises_intros raises_post_transfer_codes amount) (simp_all add: transfer_refusals_def)
qed

lemma raises_reversal_body:
  "raises (refusal reversal_refusals) (reversal_body P st amb c k oid)"
proof -
  let ?N = "refusal reversal_refusals"
  have response: "raises ?N (reversal_response P k t src dst sb db)" for k t src dst sb db
    unfolding reversal_response_def Let_def by (intro raises_intros)
  have locks: "raises ?N (lock_reversal_accounts a b)" for a b
    unfolding lock_reversal_accounts_def Let_def by (intro raises_intros) (simp_all add: reversal_refusals_def)
  have decide: "raises ?N (decide_reversal c k)" for k
    unfolding decide_reversal_def
    by (intro raises_intros locks) (simp_all add: reversal_refusals_def reversal_of_reversal_def
        transfer_already_reversed_def reversal_out_of_range_def reversal_metadata_mismatch_def)
  show ?thesis
    unfolding reversal_body_def post_reversal_def Let_def
    by (intro raises_intros response decide)
       (simp_all add: reversal_refusals_def reversal_out_of_range_def)
qed

text \<open>The counter names the very code that the client reads.\<close>

lemma counted_codes:
  assumes "T = transfer_refusals \<or> T = reversal_refusals" and "(n, c) \<in> set T" and "n = 400 \<or> n = 422"
  shows "c \<in> set (map fst financial_reason_table)"
proof -
  have "\<forall>(n, c) \<in> set T. n = 400 \<or> n = 422 \<longrightarrow> c \<in> set (map fst financial_reason_table)"
    using assms(1) by (auto simp: transfer_refusals_def reversal_refusals_def financial_reason_table_def)
  with assms(2,3) show ?thesis by blast
qed

lemma counted_code:
  assumes "refusal T e" and "T = transfer_refusals \<or> T = reversal_refusals"
  shows "counted_as fin (Inl (Fail e) :: AppError fault + 'a) =
    Counter operations_total
      [(''operation'', financial_operation_as_str fin),
       (''outcome'', if fst (answered e) = 500 then ''internal_error'' else ''rejected''),
       (''reason'', snd (answered e))]"
proof -
  note defs = counted_as_def terminal_outcome_def financial_metric_outcome_def answered_def
    operation_completed_metric_def response_parts_def ErrorEnvelope_new_def terminal_outcome_as_str_def
  show ?thesis
  proof (cases e)
    case (Validation c m)
    with assms counted_codes [OF assms(2), of 400 c] show ?thesis
      by (simp add: defs financial_reason_label)
  next
    case (Business c m)
    with assms counted_codes [OF assms(2), of 422 c] show ?thesis
      by (simp add: defs financial_reason_label)
  qed (use assms in \<open>auto simp: defs financial_reason_as_str_def refusal_def transfer_refusals_def
        reversal_refusals_def\<close>)
qed

section \<open>Attempts that are counted\<close>

text \<open>
  The operation an attempt of \<open>create_transfer\<close> is observed as: none when the request is invalid,
  when one of the three calls before the classification (the connection, \<open>BEGIN\<close>, the read of the
  two accounts) is interrupted, or when the accounts give no operation.
\<close>

definition observed_transfer ::
  "Platform \<Rightarrow> HeaderMap \<Rightarrow> CreateTransferRequest option \<Rightarrow> Session \<Rightarrow> FinancialOperation option" where
  "observed_transfer P headers request s =
     (case validate_transfer P headers request of
        Inl _ \<Rightarrow> None
      | Inr (k, req, source, destination) \<Rightarrow>
          if list_all (\<lambda>f. f = Fine) (take 3 (fates s))
          then operation_between source destination (committed s) else None)"

lemma three_calls:
  "list_all (\<lambda>f. f = Fine) (take 3 fs) \<longleftrightarrow>
     first_fate (s\<lparr>fates := fs\<rparr>) = Fine \<and> first_fate (s\<lparr>fates := tl fs\<rparr>) = Fine
     \<and> first_fate (s\<lparr>fates := tl (tl fs)\<rparr>) = Fine"
  by (cases fs; cases "tl fs"; cases "tl (tl fs)")
     (auto simp: first_fate_def numeral_3_eq_3 split: list.splits)

lemma first_fate_cong: "fates s' = fates s \<Longrightarrow> first_fate s' = first_fate s"
  by (simp add: first_fate_def)

lemma observed_transfer_eq:
  assumes "validate_transfer P headers request = Inr (k, req, source, destination)"
  shows "observed_transfer P headers request s =
    (if first_fate s = Fine \<and> first_fate (s\<lparr>fates := tl (fates s)\<rparr>) = Fine
        \<and> first_fate (s\<lparr>fates := tl (tl (fates s))\<rparr>) = Fine
     then operation_between source destination (committed s) else None)"
  using assms three_calls [of "fates s" s] by (simp add: observed_transfer_def)

lemma create_transfer_head:
  assumes run: "create_transfer P st amb c headers request s = (r, s')"
  obtains (stopped) "observed_transfer P headers request s = None"
      and "recorded operations_total s' = recorded operations_total s" and "committed s' = committed s"
      and "\<forall>x. r \<noteq> Inr x" and "\<And>e. r = Inl (Fail e) \<Longrightarrow> refusal early_transfer_refusals e"
  | (observed) k and req :: CreateTransferRequest and source destination and p :: Preliminary and fin s1 where
      "observed_transfer P headers request s = Some fin"
      and "recorded operations_total s1 = recorded operations_total s"
      and "run_observed fin (transfer_body P st amb c k fin p source destination (ctr_amount req)) s1 = (r, s')"
proof (cases "validate_transfer P headers request")
  case (Inl e)
  then show thesis
    using run refusesD [OF refuses_validate, of P headers request]
    by (intro stopped) (auto simp: observed_transfer_def create_transfer_def tx_bind_def
        from_result_def tx_throw_def)
next
  case (Inr v)
  obtain k req source destination where v: "v = (k, req, source, destination)" by (cases v)
  note valid = Inr [unfolded v]
  note eq = observed_transfer_eq [OF valid, of s]
  have begun: "recorded operations_total s2 = recorded operations_total s1 \<and> committed s2 = committed s1
      \<and> (q = Inr () \<longleftrightarrow> first_fate s1 = Fine) \<and> (q = Inr () \<longrightarrow> fates s2 = tl (fates s1) \<and> work s2 = committed s1)"
    if "map_err internal_sql begin_transaction s1 = (q, s2)" for q s1 s2
  proof -
    obtain q' where "begin_transaction s1 = (q', s2)" "q = Inr () \<longleftrightarrow> q' = Inr ()"
      using \<open>map_err internal_sql begin_transaction s1 = (q, s2)\<close>
      by (auto simp: map_err_def split: prod.splits sum.splits)
    then show ?thesis using begin_stage [of s1 q' s2 operations_total] by (cases "first_fate s1") auto
  qed
  have internal: "refusal early_transfer_refusals (Internal f)" for f
    by (simp add: early_transfer_refusals_def)
  have sql: "raises (refusal early_transfer_refusals) (map_err internal_sql m)"
    for m :: "(SqlError, 'z) tx"
    by (intro raises_intros) (simp add: early_transfer_refusals_def)
  have classified: "refuses (refusal early_transfer_refusals) (classify_transfer p)" for p
    by (simp add: refuses_def classify_transfer_def early_transfer_refusals_def)
  have preliminary: "raises (refusal early_transfer_refusals)
      (tx_bind (run_statement (select_preliminary source destination)) (\<lambda>row.
       tx_bind (ok_or AccountUnavailable row) (\<lambda>p.
       tx_bind (from_result (classify_transfer p)) (\<lambda>fin. tx_return (p, fin)))))"
    by (intro raises_intros classified) (simp_all add: early_transfer_refusals_def)
  from run have rest: "tx_bind (\<lambda>s. case pool_acquire s of
           (Inr _, s1) \<Rightarrow> (Inr (), s1\<lparr>emitted := emitted s1 @ record_transfer_pool_acquire Pool_Success\<rparr>)
         | (Inl (Fail e), s1) \<Rightarrow>
             (Inl (Fail (internal_sql e)),
              s1\<lparr>emitted := emitted s1 @ record_transfer_pool_acquire Pool_Failure\<rparr>)
         | (Inl f, s1) \<Rightarrow> (Inl (map_fault internal_sql f), s1)) (\<lambda>_.
     tx_bind (map_err internal_sql begin_transaction) (\<lambda>_.
     tx_bind (\<lambda>s. case tx_bind (run_statement (select_preliminary source destination)) (\<lambda>row.
                       tx_bind (ok_or AccountUnavailable row) (\<lambda>p.
                       tx_bind (from_result (classify_transfer p)) (\<lambda>fin. tx_return (p, fin)))) s of
           (Inr x, s1) \<Rightarrow> (Inr x, s1)
         | (Inl f, s1) \<Rightarrow> (Inl f, drop_transaction s1)) (\<lambda>(p, fin).
     run_observed fin (transfer_body P st amb c k fin p source destination (ctr_amount req))))) s = (r, s')"
    by (simp add: create_transfer_def valid tx_bind_def from_result_def tx_return_def)
  show thesis
    using rest
  proof (cases rule: tx_bind_cases)
    case (1 e)
    have "refusal early_transfer_refusals e'" if "e = Fail e'" for e'
      using raisesD [OF raises_acquire [of "refusal early_transfer_refusals", OF internal]] 1(1)
      unfolding that by blast
    then show thesis using acquire_stage [OF 1(1)] eq 1(2) by (intro stopped) auto
  next
    case (2 u s1)
    note a = acquire_stage [OF 2(1)]
    note f1 = first_fate_cong [of s1 "s\<lparr>fates := tl (fates s)\<rparr>"]
    show thesis
      using 2(2)
    proof (cases rule: tx_bind_cases)
      case b: (1 e)
      then show thesis using begun [OF b(1)] a f1 eq raisesD [OF sql] by (intro stopped) auto
    next
      case b: (2 u2 s2)
      note bg = begun [OF b(1)]
      note f2 = first_fate_cong [of s2 "s\<lparr>fates := tl (tl (fates s))\<rparr>"]
      show thesis
        using b(2)
      proof (cases rule: tx_bind_cases)
        case p: (1 e)
        note pre = preliminary_stage [OF p(1)]
        have "refusal early_transfer_refusals e'" if "e = Fail e'" for e'
          using raisesD [OF raises_dropping [OF preliminary]] p(1) unfolding that by blast
        then show thesis using pre bg a f1 f2 eq p(2) by (intro stopped) auto
      next
        case p: (2 pf s3)
        obtain pre_row fin where pf: "pf = (pre_row, fin)" by (cases pf)
        note pre = preliminary_stage [OF p(1)]
        have "observed_transfer P headers request s = Some fin"
          and "recorded operations_total s3 = recorded operations_total s"
          and "run_observed fin (transfer_body P st amb c k fin pre_row source destination (ctr_amount req)) s3
            = (r, s')"
          using pre bg a f1 f2 eq p(2) by (auto simp: pf)
        then show thesis by (rule observed)
      qed
    qed
  qed
qed

lemma reverse_transfer_counted:
  assumes run: "reverse_transfer P st amb c headers transfer_id s = (r, s')"
  shows "recorded operations_total s' = recorded operations_total s @
    (case reversal_request P headers transfer_id of
       Inl _ \<Rightarrow> []
     | Inr _ \<Rightarrow> if first_fate s \<in> {Dropped, AckDropped} then [] else [counted_as Operation_Reversal r])"
proof (cases "reversal_request P headers transfer_id")
  case (Inl e)
  then have "s' = s"
    using run by (auto simp: reverse_transfer_unfold tx_bind_def from_result_def tx_throw_def)
  with Inl show ?thesis by simp
next
  case (Inr v)
  obtain k oid where v: "v = (k, oid)" by (cases v)
  have "tx_then (begin_counted Operation_Reversal)
      (run_observed Operation_Reversal (reversal_body P st amb c k oid)) s = (r, s')"
    using run Inr by (simp add: v reverse_transfer_unfold tx_bind_def from_result_def tx_return_def)
  from this [unfolded tx_then_def] show ?thesis
  proof (cases rule: tx_bind_cases)
    case (1 e)
    then show ?thesis
      using begin_counted_recorded [OF 1(1)]
      by (cases "first_fate s") (auto simp: counted_as_def terminal_outcome_def Inr)
  next
    case (2 u s1)
    have "leaves operations_total (reversal_body P st amb c k oid)" by (intro leaves_intros) simp
    from run_observed_recorded [OF this 2(2)] begin_counted_recorded [OF 2(1)] show ?thesis
      by (cases "first_fate s") (auto simp: Inr)
  qed
qed

lemma create_transfer_counted:
  assumes run: "create_transfer P st amb c headers request s = (r, s')"
  shows "recorded operations_total s' = recorded operations_total s @
      (case observed_transfer P headers request s of None \<Rightarrow> [] | Some fin \<Rightarrow> [counted_as fin r])
    \<and> (observed_transfer P headers request s = None \<longrightarrow>
         committed s' = committed s \<and> (\<forall>resp. r \<noteq> Inr resp))"
proof (cases rule: create_transfer_head [OF run])
  case 1
  then show ?thesis by simp
next
  case (2 k req source destination p fin s1)
  have "leaves operations_total (transfer_body P st amb c k fin p source destination (ctr_amount req))"
    by (intro leaves_intros) simp
  from run_observed_recorded [OF this 2(3)] 2(1,2) show ?thesis by simp
qed

text \<open>What a failed attempt answers, and its counter.\<close>

lemma create_transfer_fails:
  assumes run: "create_transfer P st amb c headers request s = (Inl (Fail e), s')"
  shows "case observed_transfer P headers request s of
      None \<Rightarrow> answered e \<in> set early_transfer_refusals
    | Some fin \<Rightarrow> answered e \<in> set transfer_refusals \<and>
        recorded operations_total s' = recorded operations_total s @
          [Counter operations_total
            [(''operation'', financial_operation_as_str fin),
             (''outcome'', if fst (answered e) = 500 then ''internal_error'' else ''rejected''),
             (''reason'', snd (answered e))]]"
proof (cases rule: create_transfer_head [OF run])
  case 1
  then show ?thesis by (simp add: refusal_def)
next
  case (2 k req source destination p fin s1)
  have "raises (refusal transfer_refusals)
      (run_observed fin (transfer_body P st amb c k fin p source destination (ctr_amount req)))"
    by (intro raises_intros raises_transfer_body) (simp add: transfer_refusals_def)
  note refused = raisesD [OF this 2(3)]
  with create_transfer_counted [OF run] 2(1)
    counted_code [OF refused, of fin, where 'a = Response]
  show ?thesis by (simp add: refusal_def)
qed

lemma reverse_transfer_fails:
  assumes run: "reverse_transfer P st amb c headers transfer_id s = (Inl (Fail e), s')"
  shows "case reversal_request P headers transfer_id of
      Inl _ \<Rightarrow> answered e \<in> set early_reversal_refusals
    | Inr _ \<Rightarrow> answered e \<in> set reversal_refusals \<and>
        recorded operations_total s' = recorded operations_total s @
          [Counter operations_total
            [(''operation'', ''reversal''),
             (''outcome'', if fst (answered e) = 500 then ''internal_error'' else ''rejected''),
             (''reason'', snd (answered e))]]"
proof (cases "reversal_request P headers transfer_id")
  case (Inl e')
  then have "e = e'"
    using run by (simp add: reverse_transfer_unfold tx_bind_def from_result_def tx_throw_def)
  with refusesD [OF refuses_reversal_request Inl] Inl show ?thesis by (simp add: refusal_def)
next
  case (Inr v)
  obtain k oid where v: "v = (k, oid)" by (cases v)
  have begun: "tx_then (begin_counted Operation_Reversal)
      (run_observed Operation_Reversal (reversal_body P st amb c k oid)) s = (Inl (Fail e), s')"
    using run Inr by (simp add: v reverse_transfer_unfold tx_bind_def from_result_def tx_return_def)
  have internal: "refusal reversal_refusals (Internal f)" for f
    by (simp add: reversal_refusals_def)
  have "raises (refusal reversal_refusals) (begin_counted Operation_Reversal)"
    by (auto simp: raises_def begin_counted_def Let_def map_fault_def reversal_refusals_def
        split: prod.splits sum.splits fault.splits)
  then have "raises (refusal reversal_refusals) (tx_then (begin_counted Operation_Reversal)
      (run_observed Operation_Reversal (reversal_body P st amb c k oid)))"
    by (intro raises_intros raises_reversal_body internal)
  note refused = raisesD [OF this begun]
  have "first_fate s \<notin> {Dropped, AckDropped}"
  proof
    assume dropped: "first_fate s \<in> {Dropped, AckDropped}"
    obtain q s1 where b: "begin_transaction s = (q, s1)" by fastforce
    have "q = Inl Cancelled" using dropped begin_stage [OF b] by auto
    then show False
      using begun b by (simp add: begin_counted_def tx_then_def tx_bind_def Let_def map_fault_def)
  qed
  with reverse_transfer_counted [OF run] Inr counted_code [OF refused, of Operation_Reversal, where 'a = Response]
    refused
  show ?thesis by (simp add: refusal_def financial_operation_as_str_def)
qed



text \<open>
  C32: What a write that fails answers, and under what it is counted.  A failed \<open>create_transfer\<close>
  that is not observed answers one of eight fixed pairs of status and code; one that is observed
  answers one of fourteen, and its one counter names its operation, the very code the client reads as
  the reason, and \<open>internal_error\<close> as the outcome exactly for status 500 (\<open>rejected\<close> otherwise).
  A failed \<open>reverse_transfer\<close> answers one of four pairs when its request is refused and one of seven
  afterwards, counted in the same way.
\<close>

theorem failures_counted_by_code:
  "(case create_transfer P st amb c headers request s of
      (Inl (Fail e), s') \<Rightarrow>
        (case observed_transfer P headers request s of
           None \<Rightarrow> answered e \<in> set early_transfer_refusals
         | Some fin \<Rightarrow> answered e \<in> set transfer_refusals \<and>
             recorded operations_total s' = recorded operations_total s @
               [Counter operations_total
                 [(''operation'', financial_operation_as_str fin),
                  (''outcome'', if fst (answered e) = 500 then ''internal_error'' else ''rejected''),
                  (''reason'', snd (answered e))]])
    | _ \<Rightarrow> True)
   \<and> (case reverse_transfer P st amb c headers transfer_id s of
      (Inl (Fail e), s') \<Rightarrow>
        (case reversal_request P headers transfer_id of
           Inl _ \<Rightarrow> answered e \<in> set early_reversal_refusals
         | Inr _ \<Rightarrow> answered e \<in> set reversal_refusals \<and>
             recorded operations_total s' = recorded operations_total s @
               [Counter operations_total
                 [(''operation'', ''reversal''),
                  (''outcome'', if fst (answered e) = 500 then ''internal_error'' else ''rejected''),
                  (''reason'', snd (answered e))]])
    | _ \<Rightarrow> True)"
proof (intro conjI)
  show "case create_transfer P st amb c headers request s of
      (Inl (Fail e), s') \<Rightarrow>
        (case observed_transfer P headers request s of
           None \<Rightarrow> answered e \<in> set early_transfer_refusals
         | Some fin \<Rightarrow> answered e \<in> set transfer_refusals \<and>
             recorded operations_total s' = recorded operations_total s @
               [Counter operations_total
                 [(''operation'', financial_operation_as_str fin),
                  (''outcome'', if fst (answered e) = 500 then ''internal_error'' else ''rejected''),
                  (''reason'', snd (answered e))]])
    | _ \<Rightarrow> True"
    using create_transfer_fails [of P st amb c headers request s]
    by (auto split: prod.split sum.split fault.split option.split)
  show "case reverse_transfer P st amb c headers transfer_id s of
      (Inl (Fail e), s') \<Rightarrow>
        (case reversal_request P headers transfer_id of
           Inl _ \<Rightarrow> answered e \<in> set early_reversal_refusals
         | Inr _ \<Rightarrow> answered e \<in> set reversal_refusals \<and>
             recorded operations_total s' = recorded operations_total s @
               [Counter operations_total
                 [(''operation'', ''reversal''),
                  (''outcome'', if fst (answered e) = 500 then ''internal_error'' else ''rejected''),
                  (''reason'', snd (answered e))]])
    | _ \<Rightarrow> True"
    using reverse_transfer_fails [of P st amb c headers transfer_id s]
    by (auto split: prod.split sum.split fault.split)
qed

end
