(* ===== verification/App_Properties.thy ===== *)
theory App_Properties
  imports Startup Attempts
begin

text \<open>
  Properties of a whole request (\<open>App\<close>): the routes are unambiguous, a request without a valid
  token is answered 401 and touches nothing, only an authenticated POST with an idempotency key
  changes the database and a reply other than 201 and 500 means that it did not, and every reply
  is observed once.
\<close>

section \<open>Routing\<close>

text \<open>Two templates that agree in every segment that neither captures.\<close>

definition is_param :: "string \<Rightarrow> bool" where
  "is_param p \<longleftrightarrow> p \<noteq> [] \<and> hd p = CHR 0x7B"

fun overlap :: "string list \<Rightarrow> string list \<Rightarrow> bool" where
  "overlap [] [] = True"
| "overlap (p # ps) (q # qs) = ((is_param p \<or> is_param q \<or> p = q) \<and> overlap ps qs)"
| "overlap _ _ = False"

lemma match_overlap:
  "match_segments ps xs = Some cs \<Longrightarrow> match_segments qs xs = Some ds \<Longrightarrow> overlap ps qs"
proof (induction ps xs arbitrary: cs qs ds rule: match_segments.induct)
  case 1
  then show ?case by (cases qs) auto
next
  case (2 p ps x xs)
  then show ?case by (cases qs) (auto simp: is_param_def split: if_splits)
qed simp_all

abbreviation segments_of :: "string \<times> string \<times> Endpoint \<Rightarrow> string list" where
  "segments_of r \<equiv> split_char CHR ''/'' (fst r)"

lemma templates:
  "map segments_of routes =
     [[[], ''metrics''], [[], ''health''], [[], ''ready''], [[], ''openapi.json''], [[], ''accounts''],
      [[], ''accounts'', ''{account_id}'', ''balance''], [[], ''accounts'', ''{account_id}'', ''entries''],
      [[], ''transfers''], [[], ''transfers'', ''{transfer_id}''],
      [[], ''transfers'', ''{transfer_id}'', ''reversal'']]"
  by (simp add: routes_def)

lemma params:
  "is_param ''{account_id}''" "is_param ''{transfer_id}''" "\<not> is_param []" "\<not> is_param ''metrics''"
  "\<not> is_param ''health''" "\<not> is_param ''ready''" "\<not> is_param ''openapi.json''"
  "\<not> is_param ''accounts''" "\<not> is_param ''balance''" "\<not> is_param ''entries''"
  "\<not> is_param ''transfers''" "\<not> is_param ''reversal''"
  by (simp_all add: is_param_def)

lemma overlap_sym: "overlap ps qs = overlap qs ps"
  by (induction ps qs rule: overlap.induct) auto

lemma templates_apart: "sorted_wrt (\<lambda>ps qs. \<not> overlap ps qs) (map segments_of routes)"
  unfolding templates by (simp add: params)

lemma templates_disjoint:
  assumes "x \<in> set routes" and "y \<in> set routes" and "overlap (segments_of x) (segments_of y)"
  shows "x = y"
proof -
  obtain i j where i: "i < length routes" "x = routes ! i" and j: "j < length routes" "y = routes ! j"
    using assms(1,2) by (auto simp: in_set_conv_nth)
  have "\<not> overlap (segments_of (routes ! a)) (segments_of (routes ! b))"
    if "a < b" "b < length routes" for a b
    using templates_apart that by (auto simp: sorted_wrt_iff_nth_less)
  then show ?thesis using assms(3) i j by (metis linorder_neqE_nat overlap_sym)
qed

lemma routes_distinct: "distinct routes"
  by (simp add: routes_def)

lemma filter_unique:
  assumes "distinct xs" and "x \<in> set xs" and "Q x" and "\<And>y. y \<in> set xs \<Longrightarrow> Q y \<Longrightarrow> y = x"
  shows "filter Q xs = [x]"
  using assms
proof (induction xs)
  case (Cons z zs)
  show ?case
  proof (cases "z = x")
    case True
    with Cons.prems have "\<forall>y \<in> set zs. \<not> Q y" by (metis distinct.simps(2) list.set_intros(2))
    with True Cons.prems(3) show ?thesis by (simp add: filter_empty_conv)
  next
    case False
    then have "\<not> Q z" using Cons.prems(4) [OF list.set_intros(1)] by blast
    moreover have "filter Q zs = [x]"
      by (rule Cons.IH) (use Cons.prems(1,2) False in simp, use Cons.prems(2) False in simp,
        rule Cons.prems(3), rule Cons.prems(4) [OF list.set_intros(2)])
    ultimately show ?thesis by simp
  qed
qed simp

lemma one_route:
  assumes "(t, m, e) \<in> set routes" and "(t', m', e') \<in> set routes"
    and "match_route t path = Some cs" and "match_route t' path = Some cs'"
  shows "(t, m, e) = (t', m', e')"
proof -
  have "overlap (segments_of (t, m, e)) (segments_of (t', m', e'))"
    using assms(3,4) unfolding match_route_def fst_conv by (rule match_overlap)
  then show ?thesis by (rule templates_disjoint [OF assms(1,2)])
qed

lemma find_route_iff:
  "find_route path = Some (template, m, e, captures) \<longleftrightarrow>
     (template, m, e) \<in> set routes \<and> match_route template path = Some captures"
proof
  let ?Q = "\<lambda>(template, m, e). match_route template path \<noteq> None"
  assume "find_route path = Some (template, m, e, captures)"
  then obtain rest where f: "filter ?Q routes = (template, m, e) # rest"
    and c: "captures = the (match_route template path)"
    by (auto simp: find_route_def split: list.splits)
  then have "(template, m, e) \<in> set (filter ?Q routes)" by simp
  then show "(template, m, e) \<in> set routes \<and> match_route template path = Some captures"
    using c by auto
next
  let ?Q = "\<lambda>(template, m, e). match_route template path \<noteq> None"
  assume r: "(template, m, e) \<in> set routes \<and> match_route template path = Some captures"
  have "y = (template, m, e)" if y: "y \<in> set routes" "?Q y" for y
  proof -
    obtain t' m' e' where "y = (t', m', e')" by (cases y)
    with y r one_route [of t' m' e' template m e path] show ?thesis by auto
  qed
  with r have "filter ?Q routes = [(template, m, e)]"
    by (intro filter_unique [OF routes_distinct]) auto
  then show "find_route path = Some (template, m, e, captures)"
    using r by (simp add: find_route_def)
qed

text \<open>
  The routes are unambiguous: a path matches at most one of them, so a request goes to the
  route whose template its path matches, whatever the order of the routes, with the segments
  that the template captures; any other path is answered 404.
\<close>

lemma routes_unambiguous:
  "(find_route path = Some (template, m, e, captures)) =
     ((template, m, e) \<in> set routes \<and> match_route template path = Some captures)
   \<and> (dispatch S amb req = (None, tx_return (404, Body_Empty))) =
       list_all (\<lambda>(template, m, e). match_route template (http_path req) = None) routes"
proof (intro conjI)
  have "find_route (http_path req) = None \<longleftrightarrow>
      filter (\<lambda>(template, m, e). match_route template (http_path req) \<noteq> None) routes = []"
    by (auto simp: find_route_def split: list.splits)
  also have "\<dots> \<longleftrightarrow> list_all (\<lambda>(template, m, e). match_route template (http_path req) = None) routes"
    by (simp only: filter_empty_conv list_all_iff split_def) simp
  finally show "(dispatch S amb req = (None, tx_return (404, Body_Empty))) =
       list_all (\<lambda>(template, m, e). match_route template (http_path req) = None) routes"
    by (auto simp: dispatch_def split: option.splits)
qed (rule find_route_iff)

section \<open>What a request can change\<close>

definition reads_only :: "('e, 'a) tx \<Rightarrow> bool" where
  "reads_only m \<longleftrightarrow> (\<forall>s r s'. m s = (r, s') \<longrightarrow> committed s' = committed s)"

named_theorems reads_intros \<open>computations that never commit\<close>

lemma reads_onlyD: "reads_only m \<Longrightarrow> m s = (r, s') \<Longrightarrow> committed s' = committed s"
  by (simp add: reads_only_def)

lemma reads_basic [reads_intros]:
  "reads_only (tx_return x)" "reads_only (tx_throw e)" "reads_only tx_panic"
  by (simp_all add: reads_only_def tx_return_def tx_throw_def tx_panic_def)

lemma reads_cases [reads_intros]:
  "reads_only (from_result q)" "reads_only (ok_or e x)" "reads_only (tx_expect x)"
  "reads_only (format_amount a scale)"
  by (auto simp: from_result_def ok_or_def tx_expect_def reads_basic format_amount_def
      split: sum.split option.split)

lemma reads_bind [reads_intros]:
  assumes "reads_only m" and "\<And>x. reads_only (f x)"
  shows "reads_only (tx_bind m f)"
  using assms by (fastforce simp: reads_only_def tx_bind_def split: prod.splits sum.splits)

lemma reads_map_err [reads_intros]: "reads_only m \<Longrightarrow> reads_only (map_err f m)"
  by (auto simp: reads_only_def map_err_def split: prod.splits sum.splits)

lemma reads_pool_query [reads_intros]: "reads_only (pool_query st)"
  using pool_query_cases by (auto simp: reads_only_def)

lemma reads_split [reads_intros]:
  "(\<And>x. reads_only (f x)) \<Longrightarrow> reads_only (Let y f)"
  "(\<And>a b. reads_only (g a b)) \<Longrightarrow> reads_only (case p of (a, b) \<Rightarrow> g a b)"
  "reads_only m \<Longrightarrow> (\<And>x. reads_only (f x)) \<Longrightarrow> reads_only (case z of None \<Rightarrow> m | Some x \<Rightarrow> f x)"
  by (simp_all split: prod.split option.split)

lemma reads_map_list [reads_intros]: "(\<And>x. reads_only (f x)) \<Longrightarrow> reads_only (tx_map_list f xs)"
  by (induction xs) (auto intro: reads_intros)

lemma reads_endpoints [reads_intros]:
  "reads_only (get_balance P c a)" "reads_only (get_transfer P c t)"
  "reads_only (get_account_history P J c a q)" "reads_only health" "reads_only ready"
  "reads_only (metrics S)"
proof -
  show "reads_only (get_balance P c a)"
    unfolding get_balance_def by (intro reads_intros)
  show "reads_only (get_transfer P c t)"
    unfolding get_transfer_def Let_def by (intro reads_intros)
  show "reads_only (get_account_history P J c a q)"
    unfolding get_account_history_def Let_def next_cursor_def account_entry_response_def format_option_def
    by (auto intro!: reads_intros split: option.split)
  show "reads_only health" unfolding health_def by (rule reads_intros)
  show "reads_only (metrics S)" by (simp add: reads_only_def metrics_def)
  show "reads_only ready"
    using ready_committed by (auto simp: reads_only_def)
qed

text \<open>The three writes: a change was asked for with a key, and its caller knows what to expect.\<close>

definition change_result :: "AppError fault + Response \<Rightarrow> bool" where
  "change_result r \<longleftrightarrow>
     r = Inl (Fail lost) \<or> r = Inl Cancelled \<or> (\<exists>resp. r = Inr resp \<and> resp_status resp = 201)"

lemma create_account_change_result:
  assumes run: "create_account P st amb c headers request s = (r, s')"
    and "committed s' \<noteq> committed s"
  shows "change_result r \<and> (\<exists>k. from_headers P headers = Inr k)"
proof (cases "\<exists>k cur balance. account_request_ok P headers request k cur balance")
  case False
  then show ?thesis using create_account_invalid [of P headers request st amb c s] assms by auto
next
  case True
  then obtain k cur balance where ok: "account_request_ok P headers request k cur balance" by blast
  let ?body = "create_account_body P st amb c k cur balance"
  let ?answer = "\<lambda>answer. case answer of
      Inl (status, body) \<Rightarrow> stored_response P status body | Inr response \<Rightarrow> tx_return response"
  obtain r0 s0 where b0: "begin_transaction s = (r0, s0)" by fastforce
  obtain r1 s1 where b1: "?body s0 = (r1, s1)" by fastforce
  obtain r2 s2 where b2: "commit s1 = (r2, s2)" by fastforce
  have c0: "committed s0 = committed s" "\<And>u. r0 = Inr u \<Longrightarrow> work s0 = committed s"
    using begin_transaction_cases [OF b0] by simp_all
  have c1: "committed s1 = committed s" using calmD(1) [OF calm_create_account_body b1] c0 by simp
  note run' = run [unfolded create_account_unfold [OF ok] transactional_def tx_then_def tx_bind_def map_err_def]
  consider (early) f where "r0 = Inl f" | (body) u f where "r0 = Inr u" "r1 = Inl f"
    | (commit) u x where "r0 = Inr u" "r1 = Inr x"
    by (cases r0; cases r1) auto
  then show ?thesis
  proof cases
    case early
    then show ?thesis using run' b0 c0 assms(2) by auto
  next
    case body
    then show ?thesis using run' b0 b1 c1 assms(2) by (auto simp: drop_transaction_def)
  next
    case commit
    have eff: "committed s2 = committed s \<or> committed s2 = work s1"
      using commit_cases [OF b2] c1 by auto
    have kept: "work s1 = committed s \<or> (\<exists>resp. x = Inr resp \<and> resp_status resp = 201)"
      using create_account_body_InrD [OF b1 [unfolded commit(2)]] c0(2) [OF commit(1)]
      by (cases x) (auto split: prod.splits)
    have s': "committed s' = committed s2"
      using run' b0 b1 b2 commit
      by (auto simp: drop_transaction_def stored_response_def tx_bind_def from_result_def tx_return_def
          tx_throw_def split: sum.splits prod.splits)
    with assms(2) eff kept obtain resp where x: "x = Inr resp" "resp_status resp = 201" by auto
    have "change_result r"
      using run' b0 b1 b2 commit x commit_result [OF b2]
      by (auto simp: change_result_def map_fault_def tx_return_def lost_def)
    then show ?thesis using ok by (auto simp: account_request_ok_def)
  qed
qed

lemma transfer_change_result:
  assumes "create_transfer P st amb c headers request s = (r, s')" and "ledger_ok (committed s)"
    and "committed s' \<noteq> committed s"
  shows "change_result r \<and> (\<exists>k. from_headers P headers = Inr k)"
proof -
  have keys: "distinct (map acc_id (accounts (committed s)))"
    using assms(2) by (simp add: ledger_ok_def schema_ok_def keys_ok_def)
  from create_transfer_cases [OF assms(1) keys] assms(3)
  obtain k source destination p fin amount resp where
    ok: "transfer_request_ok P headers request (committed s) k source destination p fin amount" and
    post: "transfer_posted P st amb c k fin p source destination amount (committed s) (committed s') resp"
    and r: "r \<in> {Inr resp, Inl (Fail lost), Inl Cancelled}"
    by blast
  from ok have "\<exists>k. from_headers P headers = Inr k"
    by (auto simp: transfer_request_ok_def validate_transfer_def split: sum.splits)
  moreover have "resp_status resp = 201" using post by (auto simp: transfer_posted_def)
  ultimately show ?thesis using r by (auto simp: change_result_def)
qed

lemma reversal_change_result:
  assumes "reverse_transfer P st amb c headers transfer_id s = (r, s')" and "ledger_ok (committed s)"
    and "committed s' \<noteq> committed s"
  shows "change_result r \<and> (\<exists>k. from_headers P headers = Inr k)"
proof -
  have "schema_ok (committed s)" using assms(2) by (rule ledger_okD)
  from reverse_transfer_cases [OF assms(1) this] assms(3)
  obtain k oid resp where
    req: "reversal_request P headers transfer_id = Inr (k, oid)" and
    post: "reversal_posted P st amb c k oid (committed s) (committed s') resp" and
    r: "r \<in> {Inr resp, Inl (Fail lost), Inl Cancelled}"
    by blast
  from req have "\<exists>k. from_headers P headers = Inr k"
    by (auto simp: reversal_request_def split: sum.splits)
  moreover have "resp_status resp = 201" using post by (auto simp: reversal_posted_def)
  ultimately show ?thesis using r by (auto simp: change_result_def)
qed

lemma json_reply_result:
  assumes "json_reply m s = (r, s')"
  obtains r0 where "m s = (r0, s')"
    and "r = map_sum id (\<lambda>resp. (resp_status resp, Body_Json (resp_body resp))) r0"
  using assms by (auto simp: json_reply_def tx_bind_def tx_return_def split: prod.splits sum.splits)

lemma reads_json [reads_intros]: "reads_only m \<Longrightarrow> reads_only (json_reply m)"
  unfolding json_reply_def by (intro reads_intros)

lemma reads_with_path [reads_intros]: "(\<And>x. reads_only (f x)) \<Longrightarrow> reads_only (with_path S cs f)"
  by (auto simp: with_path_def reads_basic split: sum.split prod.split)

lemma reads_authenticated [reads_intros]: "(\<And>x. reads_only (f x)) \<Longrightarrow> reads_only (authenticated S req f)"
  unfolding authenticated_def by (intro reads_intros)

lemma authenticated_change:
  assumes "authenticated S req f s = (r, s')" and "committed s' \<noteq> committed s"
  obtains c where "from_request_parts (sv_platform S) (sv_jwt S) (app_auth S) (http_headers req) = Inr c"
    and "f c s = (r, s')"
  using assms by (auto simp: authenticated_def tx_bind_def from_result_def tx_return_def tx_throw_def
      split: sum.splits)

lemma with_path_change:
  assumes "with_path S cs f s = (r, s')" and "committed s' \<noteq> committed s"
  obtains x where "f x s = (r, s')"
  using assms by (auto simp: with_path_def tx_return_def split: sum.splits prod.splits)

definition reply_result :: "AppError fault + nat \<times> Body \<Rightarrow> bool" where
  "reply_result r \<longleftrightarrow> r = Inl (Fail lost) \<or> r = Inl Cancelled \<or> (\<exists>b. r = Inr (201, b))"

lemma change_reply_result:
  assumes "json_reply m s = (r, s')" and "\<And>r0. m s = (r0, s') \<Longrightarrow> change_result r0 \<and> K"
  shows "reply_result r \<and> K"
  by (rule json_reply_result [OF assms(1)])
     (use assms(2) in \<open>fastforce simp: reply_result_def change_result_def\<close>)

lemma handle_change:
  assumes run: "handle S amb req e captures s = (r, s')" and ledger: "ledger_ok (committed s)"
    and new: "committed s' \<noteq> committed s"
  shows "e \<in> {Create_Account, Create_Transfer, Reverse_Transfer} \<and> reply_result r
    \<and> (\<exists>c. from_request_parts (sv_platform S) (sv_jwt S) (app_auth S) (http_headers req) = Inr c)
    \<and> (\<exists>k. from_headers (sv_platform S) (http_headers req) = Inr k)"
proof (cases "e \<in> {Create_Account, Create_Transfer, Reverse_Transfer}")
  case False
  then have "reads_only (handle S amb req e captures)"
    by (cases e) (auto simp: handle_def Let_def intro!: reads_intros)
  from reads_onlyD [OF this run] new show ?thesis by simp
next
  case True
  then consider (account) "e = Create_Account" | (transfer) "e = Create_Transfer"
    | (reversal) "e = Reverse_Transfer" by blast
  then show ?thesis
  proof cases
    case account
    note run' = run [unfolded account handle_def Let_def Endpoint.case]
    from authenticated_change [OF run' new] obtain c where
      c: "from_request_parts (sv_platform S) (sv_jwt S) (app_auth S) (http_headers req) = Inr c" and
      m: "json_reply (create_account (sv_platform S) (app_state S) amb c (http_headers req)
            (json_account S (http_headers req) (http_body req))) s = (r, s')" by blast
    have "reply_result r \<and> (\<exists>k. from_headers (sv_platform S) (http_headers req) = Inr k)"
      by (rule change_reply_result [OF m]) (rule create_account_change_result [OF _ new])
    then show ?thesis using c account by blast
  next
    case transfer
    note run' = run [unfolded transfer handle_def Let_def Endpoint.case]
    from authenticated_change [OF run' new] obtain c where
      c: "from_request_parts (sv_platform S) (sv_jwt S) (app_auth S) (http_headers req) = Inr c" and
      m: "json_reply (create_transfer (sv_platform S) (app_state S) amb c (http_headers req)
            (json_transfer S (http_headers req) (http_body req))) s = (r, s')" by blast
    have "reply_result r \<and> (\<exists>k. from_headers (sv_platform S) (http_headers req) = Inr k)"
      by (rule change_reply_result [OF m]) (rule transfer_change_result [OF _ ledger new])
    then show ?thesis using c transfer by blast
  next
    case reversal
    note run' = run [unfolded reversal handle_def Let_def Endpoint.case]
    from authenticated_change [OF run' new] obtain c where
      c: "from_request_parts (sv_platform S) (sv_jwt S) (app_auth S) (http_headers req) = Inr c" and
      w: "with_path S captures (\<lambda>transfer_id. json_reply (reverse_transfer (sv_platform S) (app_state S)
            amb c (http_headers req) transfer_id)) s = (r, s')" by blast
    from with_path_change [OF w new] obtain x where
      m: "json_reply (reverse_transfer (sv_platform S) (app_state S) amb c (http_headers req) x) s = (r, s')"
      by blast
    have "reply_result r \<and> (\<exists>k. from_headers (sv_platform S) (http_headers req) = Inr k)"
      by (rule change_reply_result [OF m]) (rule reversal_change_result [OF _ ledger new])
    then show ?thesis using c reversal by blast
  qed
qed

section \<open>Whole requests\<close>

text \<open>How a reply comes about.\<close>

definition http_metrics :: "'key Server \<Rightarrow> string option \<Rightarrow> HttpCall \<Rightarrow> nat \<Rightarrow> Metric list" where
  "http_metrics S route req status =
     snd (observe_request (header_to_str (sv_platform S)) [] \<lparr>req_method = http_method req,
       matched_path = route, request_id_headers = []\<rparr> status)"

lemma observe_request_metrics:
  "snd (observe_request to_str fresh_id \<lparr>req_method = m, matched_path = route, request_id_headers = ids\<rparr> status)
   = snd (observe_request to_str' fresh_id' \<lparr>req_method = m, matched_path = route, request_id_headers = ids'\<rparr> status)"
  by (simp add: observe_request_def Let_def)

definition request_id_of :: "'key Server \<Rightarrow> string \<Rightarrow> HttpCall \<Rightarrow> string" where
  "request_id_of S fresh_id req =
     effective_request_id (header_to_str (sv_platform S))
       (get_all REQUEST_ID_HEADER (http_headers req)) fresh_id"

definition body_for :: "HttpCall \<Rightarrow> Body \<Rightarrow> Body" where
  "body_for req b = (if http_method req = ''HEAD'' then Body_Empty else b)"

text \<open>The reply a handler's result becomes; a panic or a cancellation has none.\<close>

definition reply_of :: "AppError fault + nat \<times> Body \<Rightarrow> (nat \<times> Body) option" where
  "reply_of r =
     (case r of Inr x \<Rightarrow> Some x | Inl (Fail e) \<Rightarrow> Some (into_response e) | Inl _ \<Rightarrow> None)"

lemma serve_eq:
  assumes "dispatch S amb req = (route, handler)" and "handler s = (r, s1)"
  shows "serve S amb fresh_id req s =
    (case reply_of r of
       None \<Rightarrow> (None, s1)
     | Some (status, b) \<Rightarrow>
         (Some \<lparr>reply_status = status, reply_body = body_for req b,
                reply_request_id = request_id_of S fresh_id req\<rparr>,
          s1\<lparr>emitted := emitted s1 @ http_metrics S route req status\<rparr>))"
  using assms
  by (auto simp: serve_def reply_of_def Let_def http_metrics_def body_for_def request_id_of_def
      observe_request_def split: sum.split fault.split prod.split)

lemma serve_committed:
  assumes "serve S amb fresh_id req s = (reply, s')"
  obtains route handler r s1 where "dispatch S amb req = (route, handler)" and "handler s = (r, s1)"
    and "committed s' = committed s1" and "map_option reply_status reply = map_option fst (reply_of r)"
proof -
  obtain route handler where d: "dispatch S amb req = (route, handler)" by fastforce
  obtain r s1 where h: "handler s = (r, s1)" by fastforce
  show ?thesis
    using that [OF d h] assms serve_eq [OF d h, of fresh_id] by (auto split: option.splits prod.splits)
qed

lemma dispatch_cases:
  assumes "dispatch S amb req = (route, handler)"
  obtains (unrouted) x where "handler = tx_return x"
  | (routed) template m e captures where
      "find_route (http_path req) = Some (template, m, e, captures)"
      "accepts_method m (http_method req)" "handler = handle S amb req e captures"
proof (cases "find_route (http_path req)")
  case None
  then show ?thesis using assms unrouted [of "(404, Body_Empty)"] by (simp add: dispatch_def)
next
  case (Some v)
  obtain template m e captures where "v = (template, m, e, captures)" by (cases v)
  then show ?thesis
    using assms Some unrouted [of "(405, Body_Empty)"] routed
    by (cases "accepts_method m (http_method req)") (simp_all add: dispatch_def)
qed

text \<open>
  C15: Only an authorised write changes the ledger.  Whatever a client sends and whatever interrupts
  it, a request that changed the committed database was a POST on one of the three write routes,
  carried one accepted token and one valid idempotency key, and its reply, if the client got one,
  is 201 or (the commit's acknowledgement was lost) 500.  So every other reply, every error and
  every read leaves the database as it was.
\<close>

theorem writes_are_authorised:
  assumes "serve S amb fresh_id req s = (reply, s')" and "ledger_ok (committed s)"
    and "committed s' \<noteq> committed s"
  shows "http_method req = ''POST''
    \<and> (\<exists>template e captures. find_route (http_path req) = Some (template, ''POST'', e, captures)
         \<and> e \<in> {Create_Account, Create_Transfer, Reverse_Transfer})
    \<and> (\<exists>c. from_request_parts (sv_platform S) (sv_jwt S) (app_auth S) (http_headers req) = Inr c)
    \<and> (\<exists>k. from_headers (sv_platform S) (http_headers req) = Inr k)
    \<and> (case reply of None \<Rightarrow> True | Some rp \<Rightarrow> reply_status rp \<in> {201, 500})"
proof -
  from serve_committed [OF assms(1)] obtain route handler r s1 where
    d: "dispatch S amb req = (route, handler)" and h: "handler s = (r, s1)" and
    s1: "committed s' = committed s1" and st: "map_option reply_status reply = map_option fst (reply_of r)"
    by blast
  have idle: "handler \<noteq> tx_return x" for x
    using h assms(3) s1 by (auto simp: tx_return_def)
  from d idle obtain template m e captures where
    f: "find_route (http_path req) = Some (template, m, e, captures)" and
    ok: "accepts_method m (http_method req)" and hd: "handler = handle S amb req e captures"
    by (cases rule: dispatch_cases) blast+
  have "committed s1 \<noteq> committed s" using assms(3) s1 by simp
  note c = handle_change [OF h [unfolded hd] assms(2) this]
  have "(template, m, e) \<in> set routes" using f by (simp add: find_route_iff)
  with c have "m = ''POST''" by (auto simp: routes_def)
  moreover from this ok have "http_method req = ''POST''" by (simp add: accepts_method_def)
  moreover have "case reply of None \<Rightarrow> True | Some rp \<Rightarrow> reply_status rp \<in> {201, 500}"
    using c st by (auto simp: reply_result_def reply_of_def into_response_def lost_def internal_sql_def
        response_parts_def split: option.splits)
  ultimately show ?thesis using c f by blast
qed

section \<open>A concrete server\<close>

definition demo_server :: "string Server" where
  "demo_server =
     \<lparr>sv_platform = demo_platform, sv_jwt = demo_jwt, sv_cursor = demo_cursor_json,
      json_account = (\<lambda>_ _. demo_account_request), json_transfer = (\<lambda>_ _. demo_transfer_request),
      path_param = Inr, render_metrics = (\<lambda>ms. show_nat (length ms)), openapi_document = JObject [],
      app_state = demo_state, app_auth = demo_verifier\<rparr>"

definition demo_call :: HttpCall where
  "demo_call =
     \<lparr>http_method = ''POST'', http_path = ''/transfers'', http_query = None,
      http_headers = [(''authorization'', ''Bearer t1''), (''idempotency-key'', ''k1'')], http_body = []\<rparr>"

lemma demo_client:
  "from_request_parts demo_platform demo_jwt demo_verifier (http_headers demo_call) = Inr ''alice''"
proof -
  have "split_whitespace ''Bearer t1'' = [''Bearer'', ''t1'']"
    by (simp add: split_whitespace_def split_words_steps is_visible_ascii_def is_blank_def)
  moreover have "trim ''alice'' = ''alice''" by (rule trim_plain) (simp_all add: is_visible_ascii_def)
  moreover have "header_to_str demo_platform ''Bearer t1'' = Some ''Bearer t1''"
    by (simp add: demo_platform_def header_text_def is_visible_ascii_def is_blank_def)
  moreover have "authenticate demo_jwt demo_verifier ''t1'' = Inr ''alice''"
    using demo_verifier_fields \<open>trim ''alice'' = ''alice''\<close> by (simp add: authenticate_def demo_jwt_def)
  ultimately show ?thesis
    by (simp add: from_request_parts_def demo_call_def get_all_def AUTHORIZATION_def eq_ignore_ascii_case_def)
qed

lemma demo_route: "find_route ''/transfers'' = Some (''/transfers'', ''POST'', Create_Transfer, [])"
  unfolding find_route_iff by (simp add: routes_def match_route_def)

lemma demo_dispatch:
  "dispatch demo_server amb demo_call = (Some ''/transfers'', handle demo_server amb demo_call Create_Transfer [])"
proof -
  have "find_route (http_path demo_call) = Some (''/transfers'', ''POST'', Create_Transfer, [])"
    by (simp add: demo_call_def demo_route)
  then show ?thesis by (simp add: dispatch_def accepts_method_def demo_call_def)
qed

lemma demo_handle:
  "handle demo_server amb demo_call Create_Transfer [] =
     json_reply (create_transfer demo_platform demo_state amb ''alice'' demo_headers demo_transfer_request)"
proof -
  have "from_headers demo_platform (http_headers demo_call) = from_headers demo_platform demo_headers"
    by (simp add: from_headers_def demo_call_def demo_headers_def get_all_def IDEMPOTENCY_KEY_HEADER_def)
  then have same: "create_transfer demo_platform demo_state amb ''alice'' (http_headers demo_call) req
      = create_transfer demo_platform demo_state amb ''alice'' demo_headers req" for req
    by (simp add: create_transfer_def validate_transfer_def)
  show ?thesis
    by (rule ext) (simp add: handle_def Let_def authenticated_def tx_bind_def from_result_def
        tx_return_def demo_server_def demo_client same)
qed

lemma demo_serve:
  obtains reply s' where "serve demo_server demo_ambient ''id-1'' demo_call (demo_session demo_ledger)
      = (Some reply, s')"
    and "reply_status reply = 201" and "length (transfers (committed s')) = 1"
proof -
  obtain resp s' idem where
    run: "create_transfer demo_platform demo_state demo_ambient ''alice'' demo_headers
       demo_transfer_request (demo_session demo_ledger) = (Inr resp, s')" and st: "resp_status resp = 201" and
    eff: "committed s' = transfer_applied demo_ambient
       (new_transfer demo_ambient ''alice'' (demo_account 1 ''alice'' ''PLN'' 5000)
          (demo_account 2 ''bob'' ''PLN'' 100) 1250
          \<lparr>ta_kind = Kind_Transfer, ta_destination = 1250, ta_fee = 0, ta_debit = 1250,
           ta_fee_bps = None, ta_rate = None, ta_rate_id = None\<rparr>) 3750 1350 idem demo_ledger"
    using demo_transfer_run by metis
  have h: "handle demo_server demo_ambient demo_call Create_Transfer [] (demo_session demo_ledger)
      = (Inr (201, Body_Json (resp_body resp)), s')"
    unfolding demo_handle using run st by (simp add: json_reply_def tx_bind_def tx_return_def)
  have "length (transfers (committed s')) = 1" by (simp add: eff demo_ledger_def)
  then show ?thesis
    using that serve_eq [OF demo_dispatch h, of "''id-1''"] by (simp add: reply_of_def)
qed

theorem writes_are_authorised_witness:
  "\<exists>s'. length (transfers (committed s')) = 1 \<and> http_method demo_call = ''POST''
     \<and> fst (serve demo_server demo_ambient ''id-1'' demo_call (demo_session demo_ledger)) \<noteq> None
     \<and> snd (serve demo_server demo_ambient ''id-1'' demo_call (demo_session demo_ledger)) = s'"
proof -
  obtain reply s' where run: "serve demo_server demo_ambient ''id-1'' demo_call (demo_session demo_ledger)
      = (Some reply, s')" and n: "length (transfers (committed s')) = 1"
    by (rule demo_serve) (rule that)
  have "committed s' \<noteq> committed (demo_session demo_ledger)"
    using n by (auto simp: demo_answers demo_ledger_def)
  then have "http_method demo_call = ''POST''"
    using writes_are_authorised [OF run] by (simp add: demo_answers)
  with run n show ?thesis by simp
qed

section \<open>A configuration that panics\<close>

lemma reserve_panics:
  assumes "i64_max < uint retention"
  shows "reserve now c op k fp retention s = (Inl Panicked, s)"
  using assms by (simp add: reserve_def i64_try_from_def tx_bind_def tx_expect_def tx_panic_def)

text \<open>
  C39: A retention beyond \<open>i64\<close> is accepted at startup and breaks every write: the configuration
  loads with any positive number of seconds up to \<open>u64\<close>, but the reservation of a key converts it
  to \<open>i64\<close> and expects it to fit.  With a larger value every account creation, however valid,
  panics on an undisturbed database (the client's connection is closed without an answer) and
  changes nothing.
\<close>

theorem oversized_retention_panics:
  assumes "i64_max < uint (seconds :: u64)" and "trim u \<noteq> []" and "trim i \<noteq> []" and "trim a \<noteq> []" and "trim p \<noteq> []"
    and "from_rsa_pem J p \<noteq> None" and "fates s = []"
    and "account_request_ok P headers request k cur balance"
  shows "\<exists>c. config_from_values J
      [(''DATABASE_URL'', u), (''JWT_ISSUER'', i), (''JWT_AUDIENCE'', a), (''JWT_PUBLIC_KEY_PEM'', p),
       (''IDEMPOTENCY_RETENTION_SECS'', show_nat (unat seconds))] = Inr c
    \<and> fst (create_account P (state_from_config c) amb client_id headers request s) = Inl Panicked
    \<and> committed (snd (create_account P (state_from_config c) amb client_id headers request s)) = committed s"
proof -
  have "Some seconds \<noteq> Some 0" using assms(1) by (auto simp: i64_max_def)
  from config_from_required [OF assms(2-6) this] obtain c where
    c: "config_from_values J
      [(''DATABASE_URL'', u), (''JWT_ISSUER'', i), (''JWT_AUDIENCE'', a), (''JWT_PUBLIC_KEY_PEM'', p),
       (''IDEMPOTENCY_RETENTION_SECS'', show_nat (unat seconds))] = Inr c" and
    ret: "config_idempotency_retention c = seconds" by auto
  have body: "create_account_body P (state_from_config c) amb client_id k cur balance (s\<lparr>work := committed s\<rparr>)
      = (Inl Panicked, s\<lparr>work := committed s\<rparr>)"
    using reserve_panics [OF assms(1)]
    by (simp add: create_account_body_def Let_def state_from_config_def ret tx_bind_def map_err_def map_fault_def)
  have "fst (create_account P (state_from_config c) amb client_id headers request s) = Inl Panicked
    \<and> committed (snd (create_account P (state_from_config c) amb client_id headers request s)) = committed s"
    unfolding create_account_unfold [OF assms(8)]
    using assms(7)
    by (simp add: drop_transaction_def transactional_fine [where body = "create_account_body P (state_from_config c) amb client_id k cur balance",
        OF _ body])
  with c show ?thesis by blast
qed

theorem oversized_retention_panics_witness:
  "\<exists>c. config_from_values demo_jwt
      [(''DATABASE_URL'', ''u''), (''JWT_ISSUER'', ''i''), (''JWT_AUDIENCE'', ''a''),
       (''JWT_PUBLIC_KEY_PEM'', ''p''),
       (''IDEMPOTENCY_RETENTION_SECS'', show_nat (unat (2 ^ 63 :: u64)))] = Inr c
    \<and> fst (create_account demo_platform (state_from_config c) demo_ambient ''alice'' demo_headers
         demo_account_request (demo_session empty_database)) = Inl Panicked"
proof -
  have big: "i64_max < uint (2 ^ 63 :: u64)" by (simp add: i64_max_def)
  have "account_request_ok demo_platform demo_headers demo_account_request ''k1''
      \<lparr>cur_code = ''PLN'', cur_scale = 2\<rparr> 1025" by code_simp
  from oversized_retention_panics [OF big demo_settings demo_answers(2) this]
  show ?thesis by blast
qed

section \<open>Requests without a token\<close>

text \<open>
  C28: A request for a route of the ledger's data without an accepted token is answered 401 with the
  fixed \<open>unauthorized\<close> envelope and does nothing else: no database call is made (not even one that
  could fail), nothing is written, and the request's own HTTP metrics are all it records, whatever
  its path, body, query and idempotency key are.
\<close>

theorem no_entry_without_token:
  assumes "find_route (http_path req) = Some (template, m, e, captures)"
    and "accepts_method m (http_method req)" and "e \<notin> {Metrics, Health, Ready, Openapi}"
    and "from_request_parts (sv_platform S) (sv_jwt S) (app_auth S) (http_headers req) = Inl err"
  shows "serve S amb fresh_id req s =
    (Some \<lparr>reply_status = 401,
           reply_body = body_for req (Body_Json (error_envelope
             \<lparr>error_code = ''unauthorized'', error_message = ''Authentication is required'',
              error_details = None, error_request_id = None\<rparr>)),
           reply_request_id = request_id_of S fresh_id req\<rparr>,
     s\<lparr>emitted := emitted s @ http_metrics S (Some template) req 401\<rparr>)"
proof -
  have d: "dispatch S amb req = (Some template, handle S amb req e captures)"
    using assms(1,2) by (simp add: dispatch_def)
  have "err = Unauthorized" using assms(4) by (rule from_request_parts_Inl)
  then have h: "handle S amb req e captures s = (Inl (Fail Unauthorized), s)"
    using assms(3,4)
    by (cases e) (simp_all add: handle_def Let_def authenticated_def tx_bind_def from_result_def tx_throw_def)
  show ?thesis
    using serve_eq [OF d h, of fresh_id]
    by (simp add: reply_of_def into_response_def response_parts_def ErrorEnvelope_new_def)
qed

theorem no_entry_without_token_witness:
  "map_option reply_status (fst (serve demo_server demo_ambient ''id-1''
     (demo_call\<lparr>http_headers := []\<rparr>) (demo_session demo_ledger))) = Some 401"
proof -
  let ?req = "demo_call\<lparr>http_headers := []\<rparr>"
  have "find_route (http_path ?req) = Some (''/transfers'', ''POST'', Create_Transfer, [])"
    by (simp add: demo_call_def demo_route)
  moreover have "accepts_method ''POST'' (http_method ?req)" by (simp add: demo_call_def accepts_method_def)
  moreover have "Create_Transfer \<notin> {Metrics, Health, Ready, Openapi}" by simp
  moreover have "from_request_parts (sv_platform demo_server) (sv_jwt demo_server) (app_auth demo_server)
      (http_headers ?req) = Inl Unauthorized"
    by (simp add: from_request_parts_def get_all_def)
  ultimately show ?thesis
    using no_entry_without_token [of ?req "''/transfers''" "''POST''" Create_Transfer "[]" demo_server
      Unauthorized demo_ambient "''id-1''" "demo_session demo_ledger"] by simp
qed

section \<open>Observation of replies\<close>

lemma leaves_run_observed [leaves_intros]:
  assumes "leaves n body" and "n \<noteq> operations_total"
    and "n \<noteq> ''ledger_database_transaction_duration_seconds''"
  shows "leaves n (run_observed fin body)"
  using run_observed_recorded [OF assms(1)] assms(2,3) by (auto simp: leaves_def)

lemma leaves_begin_counted [leaves_intros]:
  assumes "n \<noteq> operations_total"
  shows "leaves n (begin_counted fin)"
proof (rule leavesI)
  fix s r s' assume run: "begin_counted fin s = (r, s')"
  obtain q s1 where b: "begin_transaction s = (q, s1)" by fastforce
  have "recorded n s1 = recorded n s" by (rule leavesD [OF leaves_begin(1) b])
  then show "recorded n s' = recorded n s"
    using run b assms
    by (cases q; cases "projl q")
       (auto simp: begin_counted_def Let_def record_operation_without_transaction_def split: prod.splits)
qed

lemma leaves_reverse_transfer [leaves_intros]:
  "leaves http_requests_total (reverse_transfer P st amb c headers transfer_id)"
  unfolding reverse_transfer_def by (intro leaves_intros) simp_all

lemma leaves_acquire:
  assumes "n \<noteq> ''ledger_database_pool_acquire_duration_seconds''"
  shows "leaves n (\<lambda>s. case pool_acquire s of
       (Inr _, s1) \<Rightarrow> (Inr (), s1\<lparr>emitted := emitted s1 @ record_transfer_pool_acquire Pool_Success\<rparr>)
     | (Inl (Fail e), s1) \<Rightarrow>
         (Inl (Fail (internal_sql e)),
          s1\<lparr>emitted := emitted s1 @ record_transfer_pool_acquire Pool_Failure\<rparr>)
     | (Inl f, s1) \<Rightarrow> (Inl (map_fault internal_sql f), s1))"
  by (rule leavesI)
     (use assms in \<open>auto dest: leavesD [OF leaves_begin(2)] simp: record_transfer_pool_acquire_def
        split: prod.splits sum.splits fault.splits\<close>)

lemma leaves_dropping:
  assumes "leaves n m"
  shows "leaves n (\<lambda>s. case m s of (Inr x, s1) \<Rightarrow> (Inr x, s1) | (Inl f, s1) \<Rightarrow> (Inl f, drop_transaction s1))"
  by (rule leavesI) (auto dest: leavesD [OF assms] split: prod.splits sum.splits)

lemma leaves_create_transfer [leaves_intros]:
  "leaves http_requests_total (create_transfer P st amb c headers request)"
  unfolding create_transfer_def
  by (intro leaves_intros leaves_acquire leaves_dropping) simp_all

lemma leaves_map_list [leaves_intros]: "(\<And>x. leaves n (f x)) \<Longrightarrow> leaves n (tx_map_list f xs)"
  by (induction xs) (auto intro: leaves_intros)

lemma leaves_reads [leaves_intros]:
  "leaves n (get_balance P c a)" "leaves n (get_transfer P c t)"
  "leaves n (get_account_history P J c a q)" "leaves n health" "leaves n (metrics S)"
proof -
  show "leaves n (get_balance P c a)"
    unfolding get_balance_def by (intro leaves_intros)
  show "leaves n (get_transfer P c t)"
    unfolding get_transfer_def Let_def by (intro leaves_intros)
  show "leaves n (get_account_history P J c a q)"
    unfolding get_account_history_def Let_def next_cursor_def account_entry_response_def format_option_def
    by (auto intro!: leaves_intros split: option.split)
  show "leaves n health" unfolding health_def by (rule leaves_intros)
  show "leaves n (metrics S)" by (simp add: leaves_def metrics_def)
qed

lemma leaves_handle: "leaves http_requests_total (handle S amb req e captures)"
proof -
  have json: "leaves n m \<Longrightarrow> leaves n (json_reply m)" for n and m :: "(AppError, Response) tx"
    unfolding json_reply_def by (intro leaves_intros)
  have auth: "(\<And>x. leaves n (f x)) \<Longrightarrow> leaves n (authenticated S req f)" for n f
    unfolding authenticated_def by (intro leaves_intros)
  have path: "(\<And>x. leaves n (f x)) \<Longrightarrow> leaves n (with_path S captures f)" for n f
    by (auto simp: with_path_def leaves_basic split: sum.split prod.split)
  show ?thesis
    by (cases e)
       (auto simp: handle_def Let_def intro!: json auth path leaves_intros ready_leaves)
qed

lemma status_class_ranges:
  "status_class status =
     (if status \<in> {200..299} then ''2xx'' else if status \<in> {300..399} then ''3xx''
      else if status \<in> {400..499} then ''4xx'' else ''5xx'')"
  by (auto simp: status_class_def)

lemma leaves_dispatch: "dispatch S amb req = (route, handler) \<Longrightarrow> leaves http_requests_total handler"
  by (auto simp: dispatch_def leaves_handle leaves_basic split: option.splits if_splits)

text \<open>
  C30: Every reply is observed exactly once, under labels that its request and its status determine,
  and carries a determined request identifier.  The middleware adds one
  \<open>ledger_http_requests_total\<close> increment per reply, labelled with the request's method when it is
  one of the nine standard ones (\<open>OTHER\<close> otherwise), with the template of the router that matches
  the path (\<open>unmatched\<close> without one, never the raw path), and with the class of the reply's status;
  a request without a reply (a panic, or a client that went away) adds none.  The identifier is the
  client's own when it sent exactly one readable and valid one, the fresh one otherwise, and a valid
  header value in either case.
\<close>

theorem every_reply_observed:
  assumes "valid_request_id fresh_id"
  shows "case serve S amb fresh_id req s of
      (None, s') \<Rightarrow> recorded http_requests_total s' = recorded http_requests_total s
    | (Some reply, s') \<Rightarrow>
        valid_request_id (reply_request_id reply)
      \<and> reply_request_id reply =
          (case get_all REQUEST_ID_HEADER (http_headers req) of
             [v] \<Rightarrow> (case header_to_str (sv_platform S) v of
                       Some t \<Rightarrow> if valid_request_id t then t else fresh_id
                     | None \<Rightarrow> fresh_id)
           | _ \<Rightarrow> fresh_id)
      \<and> recorded http_requests_total s' = recorded http_requests_total s @
          [Counter http_requests_total
             [(''method'', if http_method req \<in> {''GET'', ''POST'', ''PUT'', ''PATCH'', ''DELETE'', ''HEAD'',
                  ''OPTIONS'', ''CONNECT'', ''TRACE''} then http_method req else ''OTHER''),
              (''route'', case find_route (http_path req) of
                 Some (template, _) \<Rightarrow> template | None \<Rightarrow> ''unmatched''),
              (''status_class'',
                 if reply_status reply \<in> {200..299} then ''2xx''
                 else if reply_status reply \<in> {300..399} then ''3xx''
                 else if reply_status reply \<in> {400..499} then ''4xx'' else ''5xx'')]]"
proof -
  obtain route handler where d: "dispatch S amb req = (route, handler)" by fastforce
  obtain r s1 where h: "handler s = (r, s1)" by fastforce
  have same: "recorded http_requests_total s1 = recorded http_requests_total s"
    by (rule leavesD [OF leaves_dispatch [OF d] h])
  have id: "valid_request_id (request_id_of S fresh_id req)"
    using assms by (simp add: request_id_of_def effective_request_id_valid)
  have route: "route = map_option fst (find_route (http_path req))"
    using d by (auto simp: dispatch_def split: option.splits if_splits)
  have counter: "filter (\<lambda>m. metric_name m = http_requests_total) (http_metrics S route req status) =
      [Counter http_requests_total
         [(''method'', normalized_method (http_method req)),
          (''route'', case find_route (http_path req) of
             Some (template, _) \<Rightarrow> template | None \<Rightarrow> ''unmatched''),
          (''status_class'', status_class status)]]" for status
    by (auto simp: http_metrics_def observe_request_def Let_def route split: option.split)
  show ?thesis
    unfolding serve_eq [OF d h]
    using same id counter
    by (auto simp: status_class_ranges normalized_method_def http_methods_def request_id_of_def
        effective_request_id_def split: option.split prod.split)
qed

lemma demo_method: "http_method demo_call = ''POST''" "http_path demo_call = ''/transfers''"
  by (simp_all add: demo_call_def)

theorem every_reply_observed_witness:
  "\<exists>reply s'. serve demo_server demo_ambient ''id-1'' demo_call (demo_session demo_ledger)
      = (Some reply, s')
    \<and> reply_request_id reply = ''id-1''
    \<and> recorded http_requests_total s' =
        [Counter http_requests_total
           [(''method'', ''POST''), (''route'', ''/transfers''), (''status_class'', ''2xx'')]]"
proof -
  obtain reply s' where run: "serve demo_server demo_ambient ''id-1'' demo_call (demo_session demo_ledger)
      = (Some reply, s')" and st: "reply_status reply = 201"
    by (rule demo_serve) (rule that)
  have "valid_request_id ''id-1''" by (simp add: valid_request_id_def is_visible_ascii_def)
  moreover have "get_all REQUEST_ID_HEADER (http_headers demo_call) = []" by code_simp
  moreover have "recorded http_requests_total (demo_session demo_ledger) = []"
    by (simp add: recorded_def demo_session_def)
  ultimately show ?thesis
    using every_reply_observed [where S = demo_server and amb = demo_ambient and req = demo_call
        and s = "demo_session demo_ledger" and fresh_id = "''id-1''"] demo_route
    by (simp add: run st demo_method)
qed

end
