(* ===== verification/Service.thy ===== *)
theory Service
  imports App_Properties
begin

text \<open>
  The service over time.  A step is any request with any fate (lost connections, dropped futures,
  lost commit acknowledgements, panics), answered or not, or a change an operator makes to the
  rates, the fee rules or the status of an account.  Theorems here hold after any number of steps.
\<close>

section \<open>Steps\<close>

inductive service_step :: "'key Server \<Rightarrow> Database \<Rightarrow> Database \<Rightarrow> bool" for S where
  request: "serve S amb fresh_id req s = (reply, s') \<Longrightarrow>
     service_step S (committed s) (committed s')"
| configure: "schema_ok (d\<lparr>exchange_rates := rs, fx_fee_rules := fs\<rparr>) \<Longrightarrow>
     service_step S d (d\<lparr>exchange_rates := rs, fx_fee_rules := fs\<rparr>)"
| set_status: "service_step S d
     (d\<lparr>accounts := update_by acc_id k (\<lambda>r. r\<lparr>acc_status := status\<rparr>) (accounts d)\<rparr>)"

inductive_cases service_stepE: "service_step S d d'"

text \<open>What no step undoes: the history, the records, and whose account in which currency.\<close>

definition same_holder :: "AccountRow \<Rightarrow> AccountRow \<Rightarrow> bool" where
  "same_holder r r' \<longleftrightarrow>
     owner_id r' = owner_id r \<and> acc_currency r' = acc_currency r \<and> currency_scale r' = currency_scale r"

definition evolves :: "Database \<Rightarrow> Database \<Rightarrow> bool" where
  "evolves d d' \<longleftrightarrow>
     prefix (transfers d) (transfers d') \<and> prefix (account_entries d) (account_entries d')
     \<and> prefix (idempotency_records d) (idempotency_records d')
     \<and> (\<forall>k r. find_by acc_id k (accounts d) = Some r \<longrightarrow>
          (\<exists>r'. find_by acc_id k (accounts d') = Some r' \<and> same_holder r r'))"

lemma evolves_refl [simp]: "evolves d d"
  by (simp add: evolves_def same_holder_def)

lemma evolves_trans:
  assumes "evolves d d'" and "evolves d' d''"
  shows "evolves d d''"
proof -
  have "\<exists>r''. find_by acc_id k (accounts d'') = Some r'' \<and> same_holder r r''"
    if "find_by acc_id k (accounts d) = Some r" for k r
    using assms that unfolding evolves_def same_holder_def by metis
  then show ?thesis
    using assms unfolding evolves_def by (meson prefix_order.trans)
qed

text \<open>Which endpoint changed the database in a request.\<close>

lemma handle_changes:
  assumes "handle S amb req e captures s = (r, s')"
  shows "committed s' = committed s \<or> account_creation_change (committed s) (committed s')
    \<or> transfer_change (committed s) (committed s') \<or> reversal_change (committed s) (committed s')"
proof (rule ccontr)
  assume no: "\<not> ?thesis"
  then have new: "committed s' \<noteq> committed s" by simp
  note run = assms [unfolded handle_def Let_def]
  have acc: False if "create_account P st amb c h q s = (r0, s')" for P st c h q r0
    using no that unfolding account_creation_change_def commits_def by blast
  have tr: False if "create_transfer P st amb c h q s = (r0, s')" for P st c h q r0
    using no that unfolding transfer_change_def commits_def by blast
  have rv: False if "reverse_transfer P st amb c h q s = (r0, s')" for P st c h q r0
    using no that unfolding reversal_change_def commits_def by blast
  show False
  proof (cases "e \<in> {Create_Account, Create_Transfer, Reverse_Transfer}")
    case False
    then have "reads_only (handle S amb req e captures)"
      by (cases e) (auto simp: handle_def Let_def intro!: reads_intros)
    from reads_onlyD [OF this assms] new show False by simp
  next
    case True
    then show False
      using run by (elim insertE emptyE; simp only: Endpoint.case)
        (erule authenticated_change [OF _ new]; (erule with_path_change [OF _ new])?;
          erule json_reply_result; use acc tr rv in blast)+
  qed
qed

lemma serve_changes:
  assumes "serve S amb fresh_id req s = (reply, s')"
  shows "committed s' = committed s \<or> account_creation_change (committed s) (committed s')
    \<or> transfer_change (committed s) (committed s') \<or> reversal_change (committed s) (committed s')"
proof -
  from serve_committed [OF assms] obtain route handler r s1 where
    d: "dispatch S amb req = (route, handler)" and h: "handler s = (r, s1)" and
    s1: "committed s' = committed s1"
    by (rule serve_committed [OF assms], rule that)
  show ?thesis
    using d
  proof (cases rule: dispatch_cases)
    case unrouted
    then show ?thesis using h s1 by (auto simp: tx_return_def)
  next
    case routed
    show ?thesis unfolding s1 by (rule handle_changes [OF h [unfolded routed(3)]])
  qed
qed

section \<open>Every step keeps the ledger\<close>

definition operator_change :: "Database \<Rightarrow> Database \<Rightarrow> bool" where
  "operator_change d d' \<longleftrightarrow>
     (\<exists>rs fs. d' = d\<lparr>exchange_rates := rs, fx_fee_rules := fs\<rparr> \<and> schema_ok d')
     \<or> (\<exists>k status. d' = d\<lparr>accounts := update_by acc_id k (\<lambda>r. r\<lparr>acc_status := status\<rparr>) (accounts d)\<rparr>)"

lemma service_step_changes:
  assumes "service_step S d d'"
  shows "d' = d \<or> account_creation_change d d' \<or> transfer_change d d' \<or> reversal_change d d'
    \<or> operator_change d d'"
  using assms by (cases rule: service_step.cases) (auto simp: operator_change_def dest: serve_changes)

lemma find_set_status:
  "find_by acc_id j (update_by acc_id k (\<lambda>r. r\<lparr>acc_status := status\<rparr>) rows) =
     map_option (\<lambda>r. if j = k then r\<lparr>acc_status := status\<rparr> else r) (find_by acc_id j rows)"
  by (cases "j = k"; cases "find_by acc_id j rows")
     (simp_all add: find_by_update_same find_by_update_other)

lemma status_check: "account_check (r\<lparr>acc_status := status\<rparr>) = account_check r"
  by (simp add: account_check_def)

lemma set_status_schema:
  assumes "schema_ok d"
  shows "schema_ok (d\<lparr>accounts := update_by acc_id k (\<lambda>r. r\<lparr>acc_status := status\<rparr>) (accounts d)\<rparr>)"
    (is "schema_ok ?d")
proof -
  have ids: "map acc_id (accounts ?d) = map acc_id (accounts d)" by (simp add: map_key_update_by)
  then have idset: "acc_id ` set (accounts ?d) = acc_id ` set (accounts d)" by (metis list.set_map)
  have "refs_ok ?d"
    by (rule refs_ok_mono [of d]) (use assms idset in \<open>auto simp: schema_ok_def\<close>)
  moreover have "keys_ok ?d" using assms ids by (simp add: schema_ok_def keys_ok_def)
  moreover have "list_all account_check (accounts ?d)"
    using assms by (auto simp: schema_ok_def checks_ok_def list_all_iff set_update_by status_check)
  then have "checks_ok ?d" using assms by (simp add: schema_ok_def checks_ok_def)
  ultimately show ?thesis by (simp add: schema_ok_def)
qed

lemma operator_change_keeps:
  assumes "operator_change d d'" and "ledger_ok d"
  shows "ledger_ok d' \<and> (\<forall>k. opening_balance k d' = opening_balance k d) \<and> evolves d d'"
  using assms(1) unfolding operator_change_def
proof (elim disjE exE conjE)
  fix rs fs assume d': "d' = d\<lparr>exchange_rates := rs, fx_fee_rules := fs\<rparr>" and "schema_ok d'"
  moreover have "books_ok d'" using ledger_okD(2) [OF assms(2)] books_ok_cong [of d' d] by (simp add: d')
  ultimately show ?thesis
    using ledger_okD(3) [OF assms(2)]
    by (simp add: ledger_ok_def evolves_def same_holder_def opening_balance_def balance_of_def)
next
  fix k status assume d': "d' = d\<lparr>accounts := update_by acc_id k (\<lambda>r. r\<lparr>acc_status := status\<rparr>) (accounts d)\<rparr>"
  have cur: "account_currency a d' = account_currency a d" for a
    by (cases "find_by acc_id a (accounts d)") (simp_all add: d' account_currency_def find_set_status)
  have "currencies_ok d' = currencies_ok d" by (simp add: currencies_ok_def cur fun_eq_iff)
  moreover have "double_entry d' = double_entry d" "transfers d' = transfers d"
    by (simp_all add: d' double_entry_def)
  ultimately have "books_ok d'" using ledger_okD(2) [OF assms(2)] by (simp add: books_ok_def)
  moreover have "opening_balance a d' = opening_balance a d" for a
    by (cases "find_by acc_id a (accounts d)")
       (simp_all add: d' opening_balance_def balance_of_def find_set_status)
  moreover have "evolves d d'" by (auto simp: d' evolves_def same_holder_def find_set_status)
  ultimately show ?thesis
    using assms(2) set_status_schema [OF ledger_okD(1) [OF assms(2)], of k status]
    by (simp add: ledger_ok_def) (simp add: d')
qed

lemma transfer_change_evolves:
  assumes "transfer_change d d'" and "ledger_ok d"
  shows "evolves d d'"
proof (cases "d' = d")
  case False
  from assms(1) obtain P st amb c headers request s r s' where
    run: "create_transfer P st amb c headers request s = (r, s')" and
    d: "committed s = d" "committed s' = d'"
    by (auto simp: transfer_change_def commits_def)
  from create_transfer_effect [OF run, unfolded d, OF assms(2) False] obtain a b t x y idem sb db where
    rows: "find_by acc_id (tr_source t) (accounts d) = Some a"
      "find_by acc_id (tr_destination t) (accounts d) = Some b"
      "find_by acc_id (tr_source t) (accounts d') = Some (set_balance sb (tx_time amb) a)"
      "find_by acc_id (tr_destination t) (accounts d') = Some (set_balance db (tx_time amb) b)"
      "\<forall>k. k \<notin> {tr_source t, tr_destination t} \<longrightarrow>
         find_by acc_id k (accounts d') = find_by acc_id k (accounts d)" and
    "transfers d' = transfers d @ [t]" "account_entries d' = account_entries d @ [x, y]"
    "idempotency_records d' = idempotency_records d @ [idem]"
    by (elim exE conjE)
  moreover have "\<exists>r'. find_by acc_id k (accounts d') = Some r' \<and> same_holder r r'"
    if "find_by acc_id k (accounts d) = Some r" for k r
    using rows that by (cases "k = tr_source t"; cases "k = tr_destination t") (auto simp: same_holder_def)
  ultimately show ?thesis by (simp add: evolves_def)
qed simp

lemma reversal_change_evolves:
  assumes "reversal_change d d'" and "ledger_ok d"
  shows "evolves d d'"
proof (cases "d' = d")
  case False
  from assms(1) obtain P st amb c headers transfer_id s r s' where
    run: "reverse_transfer P st amb c headers transfer_id s = (r, s')" and
    d: "committed s = d" "committed s' = d'"
    by (auto simp: reversal_change_def commits_def)
  from reverse_transfer_effect [OF run, unfolded d, OF assms(2) False] obtain t :: TransferRow and rv a b x y idem sb db where
    rows: "find_by acc_id (tr_destination t) (accounts d) = Some a"
      "find_by acc_id (tr_source t) (accounts d) = Some b"
      "find_by acc_id (tr_destination t) (accounts d') = Some (set_balance sb (tx_time amb) a)"
      "find_by acc_id (tr_source t) (accounts d') = Some (set_balance db (tx_time amb) b)"
      "\<forall>k. k \<notin> {tr_source t, tr_destination t} \<longrightarrow>
         find_by acc_id k (accounts d') = find_by acc_id k (accounts d)" and
    "transfers d' = transfers d @ [rv]" "account_entries d' = account_entries d @ [x, y]"
    "idempotency_records d' = idempotency_records d @ [idem]"
    by (elim exE conjE) (rule that)
  moreover have "\<exists>r'. find_by acc_id k (accounts d') = Some r' \<and> same_holder r r'"
    if "find_by acc_id k (accounts d) = Some r" for k r
    using rows that by (cases "k = tr_source t"; cases "k = tr_destination t") (auto simp: same_holder_def)
  ultimately show ?thesis by (simp add: evolves_def)
qed simp

lemma account_creation_change_evolves:
  assumes "account_creation_change d d'"
  shows "evolves d d'"
  by (rule account_creation_changeE [OF assms])
     (auto simp: evolves_def same_holder_def find_by_append account_created_def)

lemma service_step_keeps:
  assumes "service_step S d d'" and "ledger_ok d"
  shows "ledger_ok d' \<and> evolves d d'
    \<and> (\<forall>k. find_by acc_id k (accounts d) \<noteq> None \<longrightarrow> opening_balance k d' = opening_balance k d)"
  using service_step_changes [OF assms(1)]
proof (elim disjE)
  assume "account_creation_change d d'"
  then show ?thesis
    using assms(2) account_creation.keeps_ledger account_creation.keeps_opening
      account_creation_change_evolves by blast
next
  assume "transfer_change d d'"
  then show ?thesis
    using assms(2) transfer.keeps_ledger transfer.keeps_opening transfer_change_evolves by blast
next
  assume "reversal_change d d'"
  then show ?thesis
    using assms(2) reversal.keeps_ledger reversal.keeps_opening reversal_change_evolves by blast
next
  assume "operator_change d d'"
  then show ?thesis using assms(2) operator_change_keeps by blast
qed (use assms(2) in simp)

text \<open>The whole service is a ledger operation: what holds of one step holds of any number.\<close>

interpretation service: ledger_operation "service_step S" for S
proof
  fix d d' k
  assume l: "ledger_ok d" and st: "service_step S d d'"
  note keeps = service_step_keeps [OF st l]
  show "ledger_ok d'" using keeps by simp
  show "prefix (transfers d) (transfers d') \<and> prefix (account_entries d) (account_entries d')"
    using keeps by (simp add: evolves_def)
  assume k: "find_by acc_id k (accounts d) \<noteq> None"
  then obtain r where "find_by acc_id k (accounts d) = Some r" by blast
  then show "find_by acc_id k (accounts d') \<noteq> None \<and> opening_balance k d' = opening_balance k d"
    using keeps k unfolding evolves_def by (metis option.distinct(1))
qed

lemma service_evolves:
  "(service_step S)\<^sup>*\<^sup>* d d' \<Longrightarrow> ledger_ok d \<Longrightarrow> evolves d d'"
proof (induction rule: rtranclp_induct)
  case (step d1 d2)
  then show ?case
    using service_step_keeps [OF step.hyps(2)] service.chain_ledger evolves_trans by metis
qed simp

text \<open>A balance moves by exactly the entries recorded since.\<close>

lemma net_entries_append: "net_entries k (xs @ ys) = net_entries k xs + net_entries k ys"
  by (simp add: net_entries_def)

lemma balance_since:
  assumes "(service_step S)\<^sup>*\<^sup>* d d'" and "ledger_ok d" and "find_by acc_id k (accounts d) \<noteq> None"
  shows "balance_of k d' = balance_of k d
    + net_entries k (drop (length (account_entries d)) (account_entries d'))"
proof -
  have "prefix (account_entries d) (account_entries d')"
    using service_evolves [OF assms(1,2)] by (simp add: evolves_def)
  then obtain new where "account_entries d' = account_entries d @ new" by (auto simp: prefix_def)
  with service.chain_opening [OF assms] show ?thesis
    by (simp add: opening_balance_def net_entries_append)
qed

text \<open>
  C1: Whatever the clients request, however their requests are interrupted, and whatever operators
  configure, the ledger stays sound: every transfer keeps exactly one debit and one credit entry
  of its own amounts, reversals mirror their originals, every idempotency record is complete; no
  recorded transfer, entry or idempotency record is ever changed or removed; no account changes
  hands or currency; and the balance of every account has moved by exactly the sum of the entries
  recorded for it in the meantime.
\<close>

theorem service_keeps_ledger:
  assumes "(service_step S)\<^sup>*\<^sup>* d d'" and "ledger_ok d"
  shows "ledger_ok d' \<and> prefix (transfers d) (transfers d')
    \<and> prefix (account_entries d) (account_entries d')
    \<and> prefix (idempotency_records d) (idempotency_records d')
    \<and> (\<forall>k r. find_by acc_id k (accounts d) = Some r \<longrightarrow>
        (\<exists>r'. find_by acc_id k (accounts d') = Some r' \<and> owner_id r' = owner_id r
           \<and> acc_currency r' = acc_currency r
           \<and> sint (balance_minor r') = sint (balance_minor r)
               + net_entries k (drop (length (account_entries d)) (account_entries d'))))"
proof (intro conjI allI impI)
  note ev = service_evolves [OF assms]
  show "ledger_ok d'" using service.chain_ledger [OF assms] .
  show "prefix (transfers d) (transfers d')" "prefix (account_entries d) (account_entries d')"
    "prefix (idempotency_records d) (idempotency_records d')"
    using ev by (simp_all add: evolves_def)
  fix k r assume r: "find_by acc_id k (accounts d) = Some r"
  then obtain r' where r': "find_by acc_id k (accounts d') = Some r'" "same_holder r r'"
    using ev unfolding evolves_def by blast
  have "balance_of k d' = balance_of k d
      + net_entries k (drop (length (account_entries d)) (account_entries d'))"
    by (rule balance_since [OF assms]) (simp add: r)
  with r r' show "\<exists>r'. find_by acc_id k (accounts d') = Some r' \<and> owner_id r' = owner_id r
      \<and> acc_currency r' = acc_currency r
      \<and> sint (balance_minor r') = sint (balance_minor r)
          + net_entries k (drop (length (account_entries d)) (account_entries d'))"
    by (auto simp: balance_of_def same_holder_def)
qed

text \<open>A concrete history: one request, then one more step.\<close>

lemma demo_steps:
  obtains d where "(service_step demo_server)\<^sup>*\<^sup>* demo_ledger d" and "length (transfers d) = 1"
proof -
  obtain reply s' where run: "serve demo_server demo_ambient ''id-1'' demo_call (demo_session demo_ledger)
      = (Some reply, s')" and n: "length (transfers (committed s')) = 1"
    by (rule demo_serve) (rule that)
  have "service_step demo_server demo_ledger (committed s')"
    using service_step.request [OF run] by (simp add: demo_answers)
  then show ?thesis using that n by blast
qed

theorem service_keeps_ledger_witness:
  "\<exists>d. (service_step demo_server)\<^sup>*\<^sup>* demo_ledger d \<and> length (transfers d) = 1 \<and> ledger_ok d"
proof -
  obtain d where d: "(service_step demo_server)\<^sup>*\<^sup>* demo_ledger d" "length (transfers d) = 1"
    by (rule demo_steps)
  have "ledger_ok d" using service_keeps_ledger [OF d(1) demo_ledger_ok] by simp
  with d show ?thesis by blast
qed

section \<open>Retries at any later time\<close>

lemma find_by_prefix:
  "prefix xs ys \<Longrightarrow> find_by key k xs = Some r \<Longrightarrow> find_by key k ys = Some r"
  by (auto simp: prefix_def find_by_append)

lemma stored_record_evolves:
  assumes "evolves d d'" and "stored_record d k = Some x"
  shows "stored_record d' k = Some x"
proof -
  from assms(2) obtain r where "find_by idem_row_key k (idempotency_records d) = Some r"
    by (auto simp: stored_record_def split: option.splits)
  moreover from this have "find_by idem_row_key k (idempotency_records d') = Some r"
    using assms(1) by (auto simp: evolves_def intro: find_by_prefix)
  ultimately show ?thesis using assms(2) by (simp add: stored_record_def)
qed

lemma request_ok_evolves:
  assumes "evolves d d'" and "transfer_request_ok P headers request d k source destination p fin amount"
  shows "transfer_request_ok P headers request d' k source destination p fin amount"
proof -
  from assms(2) obtain req a b where
    req: "validate_transfer P headers request = Inr (k, req, source, destination)"
      "classify_transfer p = Inr fin" "transfer_amount p (ctr_amount req) = Inr amount" and
    ab: "find_by acc_id source (accounts d) = Some a" "find_by acc_id destination (accounts d) = Some b" and
    p: "p = preliminary_of a b"
    unfolding transfer_request_ok_def by blast
  obtain a' b' where
    "find_by acc_id source (accounts d') = Some a'" "find_by acc_id destination (accounts d') = Some b'"
    "same_holder a a'" "same_holder b b'"
    using assms(1) ab unfolding evolves_def by blast
  moreover from this have "p = preliminary_of a' b'" by (simp add: p preliminary_of_def same_holder_def)
  ultimately show ?thesis using req unfolding transfer_request_ok_def by blast
qed

text \<open>
  C4: Exactly once, for good: if a call of \<open>create_transfer\<close> changed the database, even one whose
  client saw an error or nothing, then after any number of other requests, failures and operator
  changes (the accounts may be inactive, empty or reversed by then) an undisturbed retry with the
  same key and request changes nothing and answers 201 with the body of the transfer that was
  posted.
\<close>

theorem transfer_retry_any_time:
  assumes "platform_ok P" and "ledger_ok (committed s)"
    and "create_transfer P st amb c headers request s = (r, s')"
    and "committed s' \<noteq> committed s"
    and "(service_step S)\<^sup>*\<^sup>* (committed s') (committed s2)" and "fates s2 = []"
  shows "\<exists>resp. resp_status resp = 201 \<and> (\<forall>x. r = Inr x \<longrightarrow> x = resp)
    \<and> fst (create_transfer P st amb' c headers request s2) = Inr resp
    \<and> committed (snd (create_transfer P st amb' c headers request s2)) = committed s2"
proof -
  have keys: "distinct (map acc_id (accounts (committed s)))"
    using assms(2) by (simp add: ledger_ok_def schema_ok_def keys_ok_def)
  from create_transfer_cases [OF assms(3) keys] assms(4)
  obtain k source destination p fin amount resp where
    ok: "transfer_request_ok P headers request (committed s) k source destination p fin amount" and
    post: "transfer_posted P st amb c k fin p source destination amount (committed s) (committed s') resp"
    and r: "r \<in> {Inr resp, Inl (Fail lost), Inl Cancelled}"
    by blast
  note ans = transfer_posted_answers [OF ok post]
  have ch: "transfer_change (committed s) (committed s')" by (rule create_transfer_change [OF assms(3)])
  have ev: "evolves (committed s') (committed s2)"
    using assms(5) transfer.keeps_ledger [OF assms(2) ch] by (rule service_evolves)
  have "transfer_request_ok P headers request (committed s2) k source destination p fin amount"
    using request_ok_evolves [OF ev] transfer_change_evolves [OF ch assms(2)] ok
    by (blast intro: request_ok_evolves)
  then have dec: "transfer_request_decision P headers request (committed s2)
      = Inr (k, source, destination, p, fin, amount)"
    by (simp add: transfer_request_ok_decides)
  have "stored_status P 201 = Inr 201" using stored_status_2xx [OF assms(1), of 201] by simp
  with create_transfer_done [OF assms(6) dec stored_record_evolves [OF ev ans(2)], of st amb'] r ans(3)
  show ?thesis by (intro exI [of _ resp]) (auto simp: prod_eq_iff)
qed

theorem transfer_retry_any_time_witness:
  "\<exists>(s' :: Session) (d :: Database) resp. length (transfers (committed s')) = 1
     \<and> map acc_status (accounts d) = [Inactive, Active, Active]
     \<and> fst (create_transfer demo_platform demo_state demo_ambient ''alice'' demo_headers
           demo_transfer_request (demo_session d)) = Inr resp \<and> resp_status resp = 201
     \<and> committed (snd (create_transfer demo_platform demo_state demo_ambient ''alice'' demo_headers
           demo_transfer_request (demo_session d))) = d"
proof -
  obtain resp s' idem where
    run: "create_transfer demo_platform demo_state demo_ambient ''alice'' demo_headers
       demo_transfer_request (demo_session demo_ledger) = (Inr resp, s')" and
    eff: "committed s' = transfer_applied demo_ambient
       (new_transfer demo_ambient ''alice'' (demo_account 1 ''alice'' ''PLN'' 5000)
          (demo_account 2 ''bob'' ''PLN'' 100) 1250
          \<lparr>ta_kind = Kind_Transfer, ta_destination = 1250, ta_fee = 0, ta_debit = 1250,
           ta_fee_bps = None, ta_rate = None, ta_rate_id = None\<rparr>) 3750 1350 idem demo_ledger"
    using demo_transfer_run by metis
  define d where "d = (committed s')\<lparr>accounts :=
    update_by acc_id 1 (\<lambda>r. r\<lparr>acc_status := Inactive\<rparr>) (accounts (committed s'))\<rparr>"
  have "length (transfers (committed s')) = 1" by (simp add: eff demo_ledger_def)
  moreover have "map acc_status (accounts d) = [Inactive, Active, Active]"
    by (simp add: d_def eff demo_ledger_def write_balances_def update_by_def demo_account_def)
  moreover have led: "ledger_ok (committed (demo_session demo_ledger))" by (simp add: demo_answers)
  moreover have ne: "committed s' \<noteq> committed (demo_session demo_ledger)"
    using \<open>length (transfers (committed s')) = 1\<close> by (auto simp: demo_answers demo_ledger_def)
  moreover have steps: "(service_step demo_server)\<^sup>*\<^sup>* (committed s') (committed (demo_session d))"
    unfolding demo_answers d_def by (rule r_into_rtranclp) (rule service_step.set_status)
  moreover from transfer_retry_any_time [OF demo_platform_ok led run ne steps demo_answers(2)]
  obtain again where "fst (create_transfer demo_platform demo_state demo_ambient ''alice'' demo_headers
           demo_transfer_request (demo_session d)) = Inr again" "resp_status again = 201"
    "committed (snd (create_transfer demo_platform demo_state demo_ambient ''alice'' demo_headers
           demo_transfer_request (demo_session d))) = d"
    unfolding demo_answers by blast
  ultimately show ?thesis
    by (intro exI [of _ s'] exI [of _ d] exI [of _ again] conjI)
qed

text \<open>
  C21: The same for reversals: once a reversal took effect, every later undisturbed retry with its
  key answers 201 with the stored body and changes nothing.
\<close>

theorem reversal_retry_any_time:
  assumes "platform_ok P" and "ledger_ok (committed s)"
    and "reverse_transfer P st amb c headers transfer_id s = (r, s')"
    and "committed s' \<noteq> committed s"
    and "(service_step S)\<^sup>*\<^sup>* (committed s') (committed s2)" and "fates s2 = []"
  shows "\<exists>resp. resp_status resp = 201 \<and> (\<forall>x. r = Inr x \<longrightarrow> x = resp)
    \<and> fst (reverse_transfer P st amb' c headers transfer_id s2) = Inr resp
    \<and> committed (snd (reverse_transfer P st amb' c headers transfer_id s2)) = committed s2"
proof -
  have schema: "schema_ok (committed s)" using assms(2) by (rule ledger_okD)
  from reverse_transfer_cases [OF assms(3) schema] assms(4)
  obtain k oid resp where
    req: "reversal_request P headers transfer_id = Inr (k, oid)" and
    post: "reversal_posted P st amb c k oid (committed s) (committed s') resp" and
    r: "r \<in> {Inr resp, Inl (Fail lost), Inl Cancelled}"
    by blast
  from post obtain t sb db body where
    absent: "find_by idem_row_key (c, REVERSAL_OPERATION, k) (idempotency_records (committed s)) = None" and
    resp: "resp = \<lparr>resp_status = 201, resp_body = body\<rparr>" and
    d': "committed s' = reversal_applied amb (reversal_row amb c oid t) sb db
               (completed_row (tx_time amb) (idempotency_retention st) (c, REVERSAL_OPERATION, k)
                  (reversal_fingerprint P oid) 201 body (new_v4 amb 0)) (committed s)"
    unfolding reversal_posted_def by blast
  have "record_store.answer (committed s') (c, REVERSAL_OPERATION, k) (reversal_fingerprint P oid)
      = Replayed (201, body)"
    by (rule completed_answers(1) [OF absent]) (simp add: d')
  then have "stored_record (committed s') (c, REVERSAL_OPERATION, k)
      = Some (reversal_fingerprint P oid, Some (201, body))"
    by (simp add: answer_Replayed_iff)
  moreover have "evolves (committed s') (committed s2)"
    using assms(5) reversal.keeps_ledger [OF assms(2) reverse_transfer_change [OF assms(3)]]
    by (rule service_evolves)
  ultimately have "stored_record (committed s2) (c, REVERSAL_OPERATION, k)
      = Some (reversal_fingerprint P oid, Some (201, body))"
    by (blast intro: stored_record_evolves)
  moreover have "stored_status P 201 = Inr 201" using stored_status_2xx [OF assms(1), of 201] by simp
  ultimately show ?thesis
    using reverse_transfer_done [OF assms(6) req, of c "reversal_fingerprint P oid" 201 body st amb'] r
    by (intro exI [of _ resp]) (auto simp: resp)
qed

theorem reversal_retry_any_time_witness:
  "\<exists>(s'' :: Session) resp. map reverses (transfers (committed s'')) = [None, Some 100]
     \<and> fst (reverse_transfer demo_platform demo_state demo_later ''bob'' demo_headers ''100''
         (demo_session (committed s''))) = Inr resp \<and> resp_status resp = 201"
proof -
  obtain s' s'' :: Session and resp rv where
    ok: "ledger_ok (committed s')" and
    run2: "reverse_transfer demo_platform demo_state demo_later ''bob'' demo_headers ''100''
       (demo_session (committed s')) = (Inr rv, s'')" and
    ts: "transfers (committed s') = [demo_transfer]" "map reverses (transfers (committed s'')) = [None, Some 100]"
    by (rule demo_reversal_run) (rule that)
  have ne: "committed s'' \<noteq> committed (demo_session (committed s'))"
    using ts by (auto simp: demo_answers)
  have led: "ledger_ok (committed (demo_session (committed s')))" using ok by (simp add: demo_answers)
  have steps: "(service_step demo_server)\<^sup>*\<^sup>* (committed s'') (committed (demo_session (committed s'')))"
    by (simp add: demo_answers)
  from reversal_retry_any_time [OF demo_platform_ok led run2 ne steps demo_answers(2)]
  obtain again where "fst (reverse_transfer demo_platform demo_state demo_later ''bob'' demo_headers ''100''
         (demo_session (committed s''))) = Inr again" "resp_status again = 201"
    by blast
  with ts show ?thesis by (intro exI [of _ s''] exI [of _ again] conjI)
qed

section \<open>Reversals over time\<close>

text \<open>The entries of a transfer and of the reversal that mirrors it cancel out.\<close>

definition entries_of :: "uuid \<Rightarrow> Database \<Rightarrow> EntryRow list" where
  "entries_of tid d = filter (\<lambda>e. en_transfer e = tid) (account_entries d)"

lemma net_entries_of:
  assumes "ledger_ok d" and "t \<in> set (transfers d)"
  shows "net_entries k (entries_of (tr_id t) d) =
    (if k = tr_source t then - sint (total_debit_minor t) else 0)
    + (if k = tr_destination t then sint (destination_amount_minor t) else 0)"
proof -
  obtain a b where ab: "entries_of (tr_id t) d = [a, b]" "entry_pair t a b"
    using ledger_okD(2) [OF assms(1)] assms(2) unfolding books_ok_def double_entry_def entries_of_def
    by blast
  then show ?thesis by (auto simp: net_entries_def entry_net_def entry_pair_def)
qed

lemma reverses_unique:
  assumes "schema_ok d" and "t \<in> set (transfers d)" and "u \<in> set (transfers d)"
    and "reverses t = Some x" and "reverses u = Some x"
  shows "t = u"
proof -
  have "distinct (filter (\<lambda>x. x \<noteq> None) (map reverses (transfers d)))"
    using assms(1) by (simp add: schema_ok_def keys_ok_def)
  then have "distinct (map reverses (filter (\<lambda>t. reverses t \<noteq> None) (transfers d)))"
    by (simp add: filter_map o_def)
  then have "inj_on reverses (set (filter (\<lambda>t. reverses t \<noteq> None) (transfers d)))"
    by (simp add: distinct_map)
  then show ?thesis using assms(2-5) unfolding inj_on_def by auto
qed

text \<open>
  C13: In every state the service reaches, a transfer has at most one reversal, a reversal has none,
  and a reversal and its original cancel out on every account: the entries of the two net to
  zero for both participants.
\<close>

theorem reversed_at_most_once:
  assumes "(service_step S)\<^sup>*\<^sup>* d0 d" and "ledger_ok d0"
    and "rv \<in> set (transfers d)" and "reverses rv = Some x"
  shows "\<exists>t \<in> set (transfers d). tr_id t = x \<and> tr_kind t \<noteq> Kind_Reversal
    \<and> (\<forall>u \<in> set (transfers d). reverses u = Some x \<longrightarrow> u = rv)
    \<and> (\<forall>u \<in> set (transfers d). reverses u \<noteq> Some (tr_id rv))
    \<and> (\<forall>k. net_entries k (entries_of x d) + net_entries k (entries_of (tr_id rv) d) = 0)"
proof -
  have led: "ledger_ok d" by (rule service.chain_ledger [OF assms(1,2)])
  have link: "reversal_link_ok (transfers d) t" if "t \<in> set (transfers d)" for t
    using ledger_okD(2) [OF led] that by (simp add: books_ok_def list_all_iff)
  from link [OF assms(3)] assms(4) obtain t where
    t: "t \<in> set (transfers d)" "tr_id t = x" "tr_kind t \<noteq> Kind_Reversal" "mirrors t rv"
    and kind: "tr_kind rv = Kind_Reversal"
    by (auto simp: reversal_link_ok_def)
  have ids: "distinct (map tr_id (transfers d))"
    using led by (simp add: ledger_ok_def schema_ok_def keys_ok_def)
  have "reverses u \<noteq> Some (tr_id rv)" if u: "u \<in> set (transfers d)" for u
  proof
    assume "reverses u = Some (tr_id rv)"
    with link [OF u] obtain v where "v \<in> set (transfers d)" "tr_id v = tr_id rv" "tr_kind v \<noteq> Kind_Reversal"
      by (auto simp: reversal_link_ok_def)
    with kind assms(3) ids show False by (metis distinct_map inj_onD)
  qed
  moreover have "net_entries k (entries_of x d) + net_entries k (entries_of (tr_id rv) d) = 0" for k
    using net_entries_of [OF led t(1), of k] net_entries_of [OF led assms(3), of k] t(2,4)
    by (auto simp: mirrors_def)
  ultimately show ?thesis
    using t reverses_unique [OF ledger_okD(1) [OF led] _ assms(3) _ assms(4)] by blast
qed

theorem reversed_at_most_once_witness:
  "\<exists>(s' :: Session) rv. map reverses (transfers (committed s')) = [None, Some 100]
     \<and> rv \<in> set (transfers (committed s')) \<and> reverses rv = Some 100
     \<and> net_entries 1 (entries_of 100 (committed s')) + net_entries 1 (entries_of (tr_id rv) (committed s')) = 0"
proof -
  obtain s' s'' :: Session and resp rv where
    ok: "ledger_ok (committed s')" and
    run2: "reverse_transfer demo_platform demo_state demo_later ''bob'' demo_headers ''100''
       (demo_session (committed s')) = (Inr rv, s'')" and
    ts: "map reverses (transfers (committed s'')) = [None, Some 100]"
    by (rule demo_reversal_run) (rule that)
  have led: "ledger_ok (committed s'')"
    using reversal.keeps_ledger [OF _ reverse_transfer_change [OF run2]] ok by (simp add: demo_answers)
  have "Some 100 \<in> set (map reverses (transfers (committed s'')))" by (simp add: ts)
  then obtain t where t: "t \<in> set (transfers (committed s''))" "reverses t = Some 100" by auto
  have "(service_step demo_server)\<^sup>*\<^sup>* (committed s'') (committed s'')" by simp
  from reversed_at_most_once [OF this led t]
  have "net_entries 1 (entries_of 100 (committed s'')) + net_entries 1 (entries_of (tr_id t) (committed s'')) = 0"
    by blast
  with ts t show ?thesis by (intro exI [of _ s''] exI [of _ t] conjI)
qed

section \<open>Overdrafts\<close>

text \<open>No reversal has debited the account.\<close>

definition never_returned :: "uuid \<Rightarrow> Database \<Rightarrow> bool" where
  "never_returned k d \<longleftrightarrow>
     list_all (\<lambda>e. \<not> (en_account e = k \<and> en_kind e = Kind_Reversal \<and> direction e = Debit))
       (account_entries d)"

definition covered :: "Database \<Rightarrow> bool" where
  "covered d \<longleftrightarrow>
     (\<forall>k r. find_by acc_id k (accounts d) = Some r \<and> never_returned k d \<longrightarrow> 0 \<le> sint (balance_minor r))"

lemma never_returned_append:
  assumes "account_entries d' = account_entries d @ es"
  shows "never_returned k d' \<longleftrightarrow> never_returned k d \<and>
    list_all (\<lambda>e. \<not> (en_account e = k \<and> en_kind e = Kind_Reversal \<and> direction e = Debit)) es"
  using assms by (simp add: never_returned_def)

lemma created_covered:
  assumes "account_creation_change d d'" and "covered d"
  shows "covered d'"
proof -
  from assms(1) obtain P st amb c headers request s r s' where
    run: "create_account P st amb c headers request s = (r, s')" and
    d: "committed s = d" "committed s' = d'"
    by (auto simp: account_creation_change_def commits_def)
  from create_account_cases [OF run] consider "d' = d"
    | k cur balance shown where "account_request_ok P headers request k cur balance"
        "find_by acc_id (new_v4 amb 0) (accounts d) = None"
        "d' = account_created P st amb c k cur balance shown d"
    unfolding d by blast
  then show ?thesis
  proof cases
    case 2
    have "0 \<le> sint balance"
      using 2(1) by (auto simp: account_request_ok_def parse_initial_balance_Inr split: option.splits)
    moreover have "never_returned k d' = never_returned k d" for k
      by (simp add: 2(3) never_returned_def)
    ultimately show ?thesis
      using assms(2) by (auto simp: covered_def 2(3) find_by_append new_account_def split: option.splits if_splits)
  qed (use assms(2) in simp)
qed

lemma operator_covered:
  assumes "operator_change d d'" and "covered d"
  shows "covered d'"
  using assms(1) unfolding operator_change_def
proof (elim disjE exE conjE)
  fix rs fs assume "d' = d\<lparr>exchange_rates := rs, fx_fee_rules := fs\<rparr>"
  then show ?thesis using assms(2) by (simp add: covered_def never_returned_def)
next
  fix k status assume d': "d' = d\<lparr>accounts := update_by acc_id k (\<lambda>r. r\<lparr>acc_status := status\<rparr>) (accounts d)\<rparr>"
  have "never_returned a d' = never_returned a d" for a by (simp add: d' never_returned_def)
  then show ?thesis
    using assms(2) unfolding covered_def by (auto simp: d' find_set_status split: if_splits)
qed

lemma positive_amounts:
  assumes "ledger_ok d" and "t \<in> set (transfers d)"
  shows "0 < sint (destination_amount_minor t)" and "0 < sint (total_debit_minor t)"
  using assms by (auto simp: ledger_ok_def schema_ok_def checks_ok_def list_all_iff transfer_check_def)

lemma transfer_covered:
  assumes "transfer_change d d'" and "ledger_ok d" and "covered d"
  shows "covered d'"
proof (cases "d' = d")
  case False
  from assms(1) obtain P st amb c headers request s r s' where
    run: "create_transfer P st amb c headers request s = (r, s')" and
    d: "committed s = d" "committed s' = d'"
    by (auto simp: transfer_change_def commits_def)
  from create_transfer_effect [OF run, unfolded d, OF assms(2) False] obtain a b t x y sb db where
    rows: "find_by acc_id (tr_source t) (accounts d) = Some a"
      "find_by acc_id (tr_destination t) (accounts d) = Some b"
      "sint (total_debit_minor t) \<le> sint (balance_minor a)"
      "sint sb = sint (balance_minor a) - sint (total_debit_minor t)"
      "sint db = sint (balance_minor b) + sint (destination_amount_minor t)"
      "find_by acc_id (tr_source t) (accounts d') = Some (set_balance sb (tx_time amb) a)"
      "find_by acc_id (tr_destination t) (accounts d') = Some (set_balance db (tx_time amb) b)"
      "\<forall>k. k \<notin> {tr_source t, tr_destination t} \<longrightarrow>
         find_by acc_id k (accounts d') = find_by acc_id k (accounts d)" and
    ts: "transfers d' = transfers d @ [t]" and es: "account_entries d' = account_entries d @ [x, y]"
    by (elim exE conjE) (rule that)
  have "ledger_ok d'" by (rule transfer.keeps_ledger [OF assms(2,1)])
  then have pos: "0 < sint (destination_amount_minor t)"
    using positive_amounts [of d' t] by (simp add: ts)
  show ?thesis
    unfolding covered_def
  proof (intro allI impI)
    fix k r assume r: "find_by acc_id k (accounts d') = Some r \<and> never_returned k d'"
    then have "never_returned k d" using never_returned_append [OF es] by simp
    then have old: "find_by acc_id k (accounts d) = Some r0 \<Longrightarrow> 0 \<le> sint (balance_minor r0)" for r0
      using assms(3) by (auto simp: covered_def)
    show "0 \<le> sint (balance_minor r)"
      using r rows pos old by (cases "k = tr_source t"; cases "k = tr_destination t") auto
  qed
qed (use assms(3) in simp)

lemma reversal_covered:
  assumes "reversal_change d d'" and "ledger_ok d" and "covered d"
  shows "covered d'"
proof (cases "d' = d")
  case False
  from assms(1) obtain P st amb c headers transfer_id s r s' where
    run: "reverse_transfer P st amb c headers transfer_id s = (r, s')" and
    d: "committed s = d" "committed s' = d'"
    by (auto simp: reversal_change_def commits_def)
  from reverse_transfer_effect [OF run, unfolded d, OF assms(2) False]
  obtain oid and t rv :: TransferRow and a b x y sb db where
    t: "find_by tr_id oid (transfers d) = Some t" and
    rows: "find_by acc_id (tr_destination t) (accounts d) = Some a"
      "find_by acc_id (tr_source t) (accounts d) = Some b"
      "sint db = sint (balance_minor b) + sint (total_debit_minor t)"
      "find_by acc_id (tr_destination t) (accounts d') = Some (set_balance sb (tx_time amb) a)"
      "find_by acc_id (tr_source t) (accounts d') = Some (set_balance db (tx_time amb) b)"
      "\<forall>k. k \<notin> {tr_source t, tr_destination t} \<longrightarrow>
         find_by acc_id k (accounts d') = find_by acc_id k (accounts d)" and
    link: "reverses rv = Some oid" "mirrors t rv" and ts: "transfers d' = transfers d @ [rv]" and
    es: "account_entries d' = account_entries d @ [x, y]" and pair: "entry_pair rv x y"
    by (elim exE conjE) (rule that)
  have led: "ledger_ok d'" by (rule reversal.keeps_ledger [OF assms(2,1)])
  have kind: "tr_kind rv = Kind_Reversal"
    using ledger_okD(2) [OF led] link by (auto simp: books_ok_def ts reversal_link_ok_def)
  have pos: "0 < sint (total_debit_minor t)"
    using positive_amounts [OF assms(2)] find_by_SomeD [OF t] by simp
  show ?thesis
    unfolding covered_def
  proof (intro allI impI)
    fix k r assume r: "find_by acc_id k (accounts d') = Some r \<and> never_returned k d'"
    then have nr: "never_returned k d" "k \<noteq> tr_destination t"
      using never_returned_append [OF es] pair link kind by (auto simp: entry_pair_def mirrors_def)
    then have old: "find_by acc_id k (accounts d) = Some r0 \<Longrightarrow> 0 \<le> sint (balance_minor r0)" for r0
      using assms(3) by (auto simp: covered_def)
    show "0 \<le> sint (balance_minor r)"
      using r rows pos old nr(2) by (cases "k = tr_source t") auto
  qed
qed (use assms(3) in simp)

lemma service_covered:
  "(service_step S)\<^sup>*\<^sup>* d d' \<Longrightarrow> ledger_ok d \<Longrightarrow> covered d \<Longrightarrow> covered d'"
proof (induction rule: rtranclp_induct)
  case (step d1 d2)
  have "ledger_ok d1" by (rule service.chain_ledger [OF step.hyps(1) step.prems(1)])
  with service_step_changes [OF step.hyps(2)] step.IH [OF step.prems] show ?case
    using created_covered transfer_covered reversal_covered operator_covered by blast
qed simp

text \<open>
  C11: No account is overdrawn by a transfer.  From a sound ledger in which no balance is negative
  (an empty one, say), whatever happens, an account that no reversal has debited never has a
  negative balance: the fee, the conversion and the arithmetic at the bounds never take an
  account below zero, and an account is created with at least zero.
\<close>

theorem overdrawn_only_by_reversal:
  assumes "(service_step S)\<^sup>*\<^sup>* d0 d" and "ledger_ok d0"
    and "list_all (\<lambda>r. 0 \<le> sint (balance_minor r)) (accounts d0)"
    and "find_by acc_id k (accounts d) = Some r"
    and "list_all (\<lambda>e. \<not> (en_account e = k \<and> en_kind e = Kind_Reversal \<and> direction e = Debit))
       (account_entries d)"
  shows "0 \<le> sint (balance_minor r)"
proof -
  have "covered d0"
    using assms(3) by (auto simp: covered_def list_all_iff dest: find_by_SomeD)
  with service_covered [OF assms(1,2)] have "covered d" by blast
  with assms(4,5) show ?thesis by (auto simp: covered_def never_returned_def)
qed

lemma demo_after:
  obtains s' :: Session where "service_step demo_server demo_ledger (committed s')"
    and "map balance_minor (accounts (committed s')) = [3750, 1350, 900]"
    and "map acc_id (accounts (committed s')) = [1, 2, 3]"
    and "list_all (\<lambda>e. en_kind e = Kind_Transfer) (account_entries (committed s'))"
proof -
  obtain resp s' idem where
    run: "create_transfer demo_platform demo_state demo_ambient ''alice'' demo_headers
       demo_transfer_request (demo_session demo_ledger) = (Inr resp, s')" and
    eff: "committed s' = transfer_applied demo_ambient
       (new_transfer demo_ambient ''alice'' (demo_account 1 ''alice'' ''PLN'' 5000)
          (demo_account 2 ''bob'' ''PLN'' 100) 1250
          \<lparr>ta_kind = Kind_Transfer, ta_destination = 1250, ta_fee = 0, ta_debit = 1250,
           ta_fee_bps = None, ta_rate = None, ta_rate_id = None\<rparr>) 3750 1350 idem demo_ledger"
    using demo_transfer_run by metis
  have h: "handle demo_server demo_ambient demo_call Create_Transfer [] (demo_session demo_ledger)
      = (Inr (resp_status resp, Body_Json (resp_body resp)), s')"
    unfolding demo_handle using run by (simp add: json_reply_def tx_bind_def tx_return_def)
  obtain reply s1 where "serve demo_server demo_ambient ''id-1'' demo_call (demo_session demo_ledger) = (reply, s1)"
    and "committed s1 = committed s'"
    using serve_eq [OF demo_dispatch h, of "''id-1''"] by (simp add: reply_of_def)
  with service_step.request [of demo_server demo_ambient "''id-1''" demo_call "demo_session demo_ledger"]
  have "service_step demo_server demo_ledger (committed s')" by (metis demo_answers(3))
  moreover have "map balance_minor (accounts (committed s')) = [3750, 1350, 900]"
    "map acc_id (accounts (committed s')) = [1, 2, 3]"
    by (simp_all add: eff demo_ledger_def write_balances_def update_by_def demo_account_def)
  moreover have "list_all (\<lambda>e. en_kind e = Kind_Transfer) (account_entries (committed s'))"
    by (simp add: eff demo_ledger_def transfer_entries_def Let_def)
  ultimately show ?thesis by (rule that)
qed

theorem overdrawn_only_by_reversal_witness:
  "\<exists>(d :: Database) r. map acc_id (accounts d) = [1, 2, 3] \<and> find_by acc_id 1 (accounts d) = Some r
     \<and> 0 \<le> sint (balance_minor r)"
proof -
  obtain s' :: Session where st: "service_step demo_server demo_ledger (committed s')"
    and ids: "map acc_id (accounts (committed s')) = [1, 2, 3]"
    and kinds: "list_all (\<lambda>e. en_kind e = Kind_Transfer) (account_entries (committed s'))"
    by (rule demo_after) (rule that)
  have steps: "(service_step demo_server)\<^sup>*\<^sup>* demo_ledger (committed s')" using st by (rule r_into_rtranclp)
  have pos: "list_all (\<lambda>r. 0 \<le> sint (balance_minor r)) (accounts demo_ledger)"
    by (simp add: demo_ledger_def demo_account_def)
  have "1 \<in> set (map acc_id (accounts (committed s')))" by (simp add: ids)
  then obtain r where r: "find_by acc_id 1 (accounts (committed s')) = Some r"
    by (metis find_by_None_iff list.set_map option.exhaust)
  have "list_all (\<lambda>e. \<not> (en_account e = 1 \<and> en_kind e = Kind_Reversal \<and> direction e = Debit))
      (account_entries (committed s'))"
    using kinds by (auto simp: list_all_iff)
  from overdrawn_only_by_reversal [OF steps demo_ledger_ok pos r this] ids r
  show ?thesis by (intro exI [of _ "committed s'"] exI [of _ r] conjI)
qed

end
