(* ===== verification/Locks.thy ===== *)
theory Locks
  imports Ledger_Prelude "HOL-Library.Char_ord" "HOL-Library.List_Lexorder" "HOL-Library.Product_Lexorder"
begin

text \<open>
  The locks that writes take in PostgreSQL: a transaction owns the idempotency key it inserts (a
  second insert of the key waits for it), and \<open>SELECT ... FOR UPDATE\<close> locks the rows it returns.
  Locks have one order, in which every write handler takes them: keys before transfers before
  accounts, and accounts by their identifiers.
\<close>

section \<open>Locks and their order\<close>

datatype Lock = Key_Lock "string \<times> string \<times> string" | Transfer_Lock uuid | Account_Lock uuid

primrec lock_position :: "Lock \<Rightarrow> nat \<times> (string \<times> string \<times> string) \<times> nat" where
  "lock_position (Key_Lock k) = (0, k, 0)"
| "lock_position (Transfer_Lock u) = (1, ([], [], []), unat u)"
| "lock_position (Account_Lock u) = (2, ([], [], []), unat u)"

lemma lock_position_inject: "lock_position a = lock_position b \<longleftrightarrow> a = b"
  by (cases a; cases b) (auto simp: word_unat_eq_iff)

instantiation Lock :: linorder
begin

definition less_eq_Lock :: "Lock \<Rightarrow> Lock \<Rightarrow> bool" where
  "less_eq_Lock a b \<longleftrightarrow> lock_position a \<le> lock_position b"

definition less_Lock :: "Lock \<Rightarrow> Lock \<Rightarrow> bool" where
  "less_Lock a b \<longleftrightarrow> lock_position a < lock_position b"

instance
proof
  fix a b c :: Lock
  show "a < b \<longleftrightarrow> a \<le> b \<and> \<not> b \<le> a"
    unfolding less_eq_Lock_def less_Lock_def by (rule less_le_not_le)
  show "a \<le> a" by (simp add: less_eq_Lock_def)
  show "a \<le> b \<or> b \<le> a" unfolding less_eq_Lock_def by (rule linear)
  assume ab: "a \<le> b"
  show "b \<le> c \<Longrightarrow> a \<le> c" using ab unfolding less_eq_Lock_def by (rule order_trans)
  assume "b \<le> a"
  then have "lock_position a = lock_position b" using ab unfolding less_eq_Lock_def by (rule antisym [rotated])
  then show "a = b" by (simp add: lock_position_inject)
qed

end

lemma lock_order [simp]:
  "Key_Lock k < Transfer_Lock u" "Key_Lock k < Account_Lock a" "Transfer_Lock u < Account_Lock a"
  "Account_Lock a < Account_Lock b \<longleftrightarrow> unat a < unat b"
  by (simp_all add: less_Lock_def)

end
