(* ===== verification/Concurrency.thy ===== *)
theory Concurrency
  imports Service Locks
begin

text \<open>
  The write handlers as concurrent transactions: the locks each takes, and that whatever a write
  commits it has locked.
\<close>

section \<open>The locks of a write\<close>

datatype Write_Call =
    Open_Account Platform string HeaderMap "CreateAccountRequest option"
  | Post_Transfer Platform string HeaderMap "CreateTransferRequest option"
  | Return_Transfer Platform string HeaderMap string

primrec perform :: "Write_Call \<Rightarrow> AppState \<Rightarrow> Ambient \<Rightarrow> (AppError, Response) tx" where
  "perform (Open_Account P c headers request) st amb = create_account P st amb c headers request"
| "perform (Post_Transfer P c headers request) st amb = create_transfer P st amb c headers request"
| "perform (Return_Transfer P c headers transfer_id) st amb = reverse_transfer P st amb c headers transfer_id"

text \<open>The rows \<open>SELECT ... ORDER BY id FOR UPDATE\<close> returns, in the order it locks them.\<close>

definition row_locks :: "uuid list \<Rightarrow> Database \<Rightarrow> Lock list" where
  "row_locks ks d =
     (case select_accounts_for_update ks d of
        Inl _ \<Rightarrow> [] | Inr (rows, _) \<Rightarrow> map (\<lambda>r. Account_Lock (acc_id r)) rows)"

definition account_locks :: "Platform \<Rightarrow> string \<Rightarrow> HeaderMap \<Rightarrow> Lock list" where
  "account_locks P c headers =
     (case from_headers P headers of
        Inl _ \<Rightarrow> [] | Inr k \<Rightarrow> [Key_Lock (c, ACCOUNT_CREATION_OPERATION, k)])"

definition transfer_locks ::
  "Platform \<Rightarrow> string \<Rightarrow> HeaderMap \<Rightarrow> CreateTransferRequest option \<Rightarrow> Database \<Rightarrow> Lock list" where
  "transfer_locks P c headers request d =
     (case transfer_request_decision P headers request d of
        Inl _ \<Rightarrow> []
      | Inr (k, source, destination, p, fin, amount) \<Rightarrow>
          Key_Lock (c, operation_type fin, k) # row_locks [source, destination] d)"

definition reversal_locks :: "Platform \<Rightarrow> string \<Rightarrow> HeaderMap \<Rightarrow> string \<Rightarrow> Database \<Rightarrow> Lock list" where
  "reversal_locks P c headers transfer_id d =
     (case reversal_request P headers transfer_id of
        Inl _ \<Rightarrow> []
      | Inr (k, original_id) \<Rightarrow>
          Key_Lock (c, REVERSAL_OPERATION, k) #
            (case find_by tr_id original_id (transfers d) of
               None \<Rightarrow> []
             | Some original \<Rightarrow>
                 Transfer_Lock original_id # row_locks [tr_destination original, tr_source original] d))"

primrec lock_plan :: "Write_Call \<Rightarrow> Database \<Rightarrow> Lock list" where
  "lock_plan (Open_Account P c headers request) d = account_locks P c headers"
| "lock_plan (Post_Transfer P c headers request) d = transfer_locks P c headers request d"
| "lock_plan (Return_Transfer P c headers transfer_id) d = reversal_locks P c headers transfer_id d"

lemma row_locks_eq:
  "row_locks ks d = map (\<lambda>r. Account_Lock (acc_id r))
     (order_by_id acc_id (filter (\<lambda>r. acc_id r \<in> set ks) (accounts d)))"
  by (simp add: row_locks_def select_accounts_for_update_def)

lemma set_row_locks:
  "set (row_locks ks d) = {Account_Lock k |k. k \<in> set ks \<and> find_by acc_id k (accounts d) \<noteq> None}"
  by (auto simp: row_locks_eq find_by_None_iff)

lemma sorted_row_locks:
  assumes "schema_ok d"
  shows "sorted_wrt (<) (row_locks ks d)"
proof -
  let ?rows = "order_by_id acc_id (filter (\<lambda>r. acc_id r \<in> set ks) (accounts d))"
  have "sorted (map (\<lambda>r. unat (acc_id r)) ?rows)" by (simp add: order_by_id_def)
  moreover have "distinct (map acc_id (filter (\<lambda>r. acc_id r \<in> set ks) (accounts d)))"
    using assms by (simp add: schema_ok_def keys_ok_def distinct_map_filter)
  then have "distinct (map acc_id ?rows)" by (auto simp: order_by_id_def distinct_map)
  then have "distinct (map unat (map acc_id ?rows))"
    by (subst distinct_map) (simp add: inj_on_def word_unat_eq_iff)
  then have "distinct (map (\<lambda>r. unat (acc_id r)) ?rows)" by (simp add: comp_def)
  ultimately have "sorted_wrt (<) (map (\<lambda>r. unat (acc_id r)) ?rows)" by (simp add: strict_sorted_iff)
  then show ?thesis by (simp add: row_locks_eq sorted_wrt_map)
qed

lemma row_locks_late:
  "l \<in> set (row_locks ks d) \<Longrightarrow> Key_Lock k < l \<and> Transfer_Lock u < l"
  by (auto simp: set_row_locks)

lemma row_locks_length:
  assumes "schema_ok d"
  shows "length (row_locks ks d) \<le> length ks"
proof -
  have "distinct (row_locks ks d)"
    using sorted_row_locks [OF assms] by (simp add: strict_sorted_iff)
  then have "length (row_locks ks d) = card (set (row_locks ks d))" by (simp add: distinct_card)
  also have "\<dots> \<le> card (Account_Lock ` set ks)" by (rule card_mono) (auto simp: set_row_locks)
  also have "\<dots> \<le> length ks" using card_image_le [of "set ks" Account_Lock] card_length [of ks] by simp
  finally show ?thesis .
qed

section \<open>Writes are locked\<close>

lemma completed_row_key [simp]: "idem_row_key (completed_row now retention k fp st b u) = k"
  by (simp add: completed_row_def set_response_key)

lemma write_balances_other:
  assumes "k \<notin> set (map fst bs)"
  shows "find_by acc_id k (write_balances now bs rows) = find_by acc_id k rows"
  using assms
proof (induction bs arbitrary: rows)
  case (Cons b bs)
  then show ?case by (cases b) (simp add: write_balances_def find_by_update_other)
qed (simp add: write_balances_def)

definition locked_writes :: "Lock set \<Rightarrow> Database \<Rightarrow> Database \<Rightarrow> bool" where
  "locked_writes ls d d' \<longleftrightarrow>
     (\<forall>k. find_by acc_id k (accounts d) \<noteq> None
          \<and> find_by acc_id k (accounts d') \<noteq> find_by acc_id k (accounts d) \<longrightarrow> Account_Lock k \<in> ls)
     \<and> (\<forall>i. i \<in> set (idempotency_records d') - set (idempotency_records d) \<longrightarrow> Key_Lock (idem_row_key i) \<in> ls)
     \<and> (\<forall>t x. t \<in> set (transfers d') - set (transfers d) \<and> reverses t = Some x \<longrightarrow> Transfer_Lock x \<in> ls)"

lemma account_writes_locked:
  assumes "create_account P st amb c headers request s = (r, s')"
  shows "locked_writes (set (account_locks P c headers)) (committed s) (committed s')"
  using create_account_cases [OF assms]
proof (elim disjE exE conjE)
  assume "committed s' = committed s"
  then show ?thesis by (simp add: locked_writes_def)
next
  fix k cur balance shown
  assume ok: "account_request_ok P headers request k cur balance"
    and eff: "committed s' = account_created P st amb c k cur balance shown (committed s)"
  have "account_locks P c headers = [Key_Lock (c, ACCOUNT_CREATION_OPERATION, k)]"
    using ok by (simp add: account_locks_def account_request_ok_def)
  then show ?thesis
    by (auto simp: locked_writes_def eff account_created_def find_by_append completed_row_key
        split: option.splits)
qed

lemma transfer_writes_locked:
  assumes "create_transfer P st amb c headers request s = (r, s')" and "ledger_ok (committed s)"
  shows "locked_writes (set (transfer_locks P c headers request (committed s))) (committed s) (committed s')"
proof -
  have keys: "distinct (map acc_id (accounts (committed s)))"
    using assms(2) by (simp add: ledger_ok_def schema_ok_def keys_ok_def)
  from create_transfer_cases [OF assms(1) keys] consider (same) "committed s' = committed s"
    | (posted) k source destination p fin amount resp where
      "transfer_request_ok P headers request (committed s) k source destination p fin amount"
      "transfer_posted P st amb c k fin p source destination amount (committed s) (committed s') resp"
    by blast
  then show ?thesis
  proof cases
    case same
    then show ?thesis by (simp add: locked_writes_def)
  next
    case posted
    have dec: "transfer_request_decision P headers request (committed s)
        = Inr (k, source, destination, p, fin, amount)"
      using posted(1) by (simp add: transfer_request_ok_decides)
    from posted(2) obtain a b ta sb db body where
      rows: "find_by acc_id source (accounts (committed s)) = Some a"
        "find_by acc_id destination (accounts (committed s)) = Some b" and
      eff: "committed s' = transfer_applied amb (new_transfer amb c a b amount ta) sb db
               (completed_row (tx_time amb) (idempotency_retention st) (c, operation_type fin, k)
                  (transfer_fingerprint P source destination (pre_source_currency p) amount)
                  201 body (new_v4 amb 0)) (committed s)"
      unfolding transfer_posted_def transfer_computed_def by blast
    have ids: "acc_id a = source" "acc_id b = destination" using rows by (auto dest: find_by_SomeD)
    have locks: "set (transfer_locks P c headers request (committed s))
        = {Key_Lock (c, operation_type fin, k), Account_Lock source, Account_Lock destination}"
      using rows by (auto simp: transfer_locks_def dec set_row_locks)
    have "find_by acc_id j (accounts (committed s')) = find_by acc_id j (accounts (committed s))"
      if "j \<noteq> source" "j \<noteq> destination" for j
      using that write_balances_other [of j "[(source, sb), (destination, db)]"] ids by (simp add: eff)
    then show ?thesis
      unfolding locked_writes_def locks by (auto simp: eff completed_row_key)
  qed
qed

lemma reversal_writes_locked:
  assumes "reverse_transfer P st amb c headers transfer_id s = (r, s')" and "ledger_ok (committed s)"
  shows "locked_writes (set (reversal_locks P c headers transfer_id (committed s))) (committed s) (committed s')"
proof -
  have schema: "schema_ok (committed s)" using assms(2) by (rule ledger_okD)
  from reverse_transfer_cases [OF assms(1) schema] consider (same) "committed s' = committed s"
    | (posted) k oid resp where "reversal_request P headers transfer_id = Inr (k, oid)"
      "reversal_posted P st amb c k oid (committed s) (committed s') resp"
    by blast
  then show ?thesis
  proof cases
    case same
    then show ?thesis by (simp add: locked_writes_def)
  next
    case posted
    from posted(2) obtain t a b sb db body where
      dec: "reversal_decision c oid (committed s) = Inr (t, a, b, sb, db)" and
      eff: "committed s' = reversal_applied amb (reversal_row amb c oid t) sb db
               (completed_row (tx_time amb) (idempotency_retention st) (c, REVERSAL_OPERATION, k)
                  (reversal_fingerprint P oid) 201 body (new_v4 amb 0)) (committed s)"
      unfolding reversal_posted_def by blast
    have rows: "find_by tr_id oid (transfers (committed s)) = Some t"
      "find_by acc_id (tr_destination t) (accounts (committed s)) = Some a"
      "find_by acc_id (tr_source t) (accounts (committed s)) = Some b"
      by (rule reversal_decision_Inr [OF dec])+
    have locks: "set (reversal_locks P c headers transfer_id (committed s))
        = {Key_Lock (c, REVERSAL_OPERATION, k), Transfer_Lock oid,
           Account_Lock (tr_destination t), Account_Lock (tr_source t)}"
      using rows by (auto simp: reversal_locks_def posted(1) set_row_locks)
    have "find_by acc_id j (accounts (committed s')) = find_by acc_id j (accounts (committed s))"
      if "j \<noteq> tr_source t" "j \<noteq> tr_destination t" for j
      using that write_balances_other [of j "[(tr_destination t, sb), (tr_source t, db)]"]
      by (simp add: eff)
    then show ?thesis
      unfolding locked_writes_def locks by (auto simp: eff completed_row_key)
  qed
qed

text \<open>
  C10: No write without its lock: whatever a write request commits, and however it is interrupted,
  every account row it changes, every idempotency key it stores and every transfer it marks as
  reversed is covered by a lock its statements took before.
\<close>

theorem writes_are_locked:
  assumes "perform call st amb s = (r, s')" and "ledger_ok (committed s)"
  shows "(\<forall>k. find_by acc_id k (accounts (committed s)) \<noteq> None
        \<and> find_by acc_id k (accounts (committed s')) \<noteq> find_by acc_id k (accounts (committed s))
        \<longrightarrow> Account_Lock k \<in> set (lock_plan call (committed s)))
   \<and> (\<forall>i. i \<in> set (idempotency_records (committed s')) - set (idempotency_records (committed s))
        \<longrightarrow> Key_Lock (idem_row_key i) \<in> set (lock_plan call (committed s)))
   \<and> (\<forall>t x. t \<in> set (transfers (committed s')) - set (transfers (committed s)) \<and> reverses t = Some x
        \<longrightarrow> Transfer_Lock x \<in> set (lock_plan call (committed s)))"
proof -
  have "locked_writes (set (lock_plan call (committed s))) (committed s) (committed s')"
    using assms account_writes_locked transfer_writes_locked reversal_writes_locked
    by (cases call) simp_all
  then show ?thesis by (simp only: locked_writes_def)
qed

definition demo_write :: Write_Call where
  "demo_write = Post_Transfer demo_platform ''alice'' demo_headers demo_transfer_request"

theorem writes_are_locked_witness:
  "\<exists>(s' :: Session) i. idempotency_records (committed s') = [i]
     \<and> Key_Lock (idem_row_key i) \<in> set (lock_plan demo_write demo_ledger)"
proof -
  obtain resp s' idem where
    run: "create_transfer demo_platform demo_state demo_ambient ''alice'' demo_headers
       demo_transfer_request (demo_session demo_ledger) = (Inr resp, s')" and
    eff: "committed s' = transfer_applied demo_ambient
       (new_transfer demo_ambient ''alice'' (demo_account 1 ''alice'' ''PLN'' 5000)
          (demo_account 2 ''bob'' ''PLN'' 100) 1250
          \<lparr>ta_kind = Kind_Transfer, ta_destination = 1250, ta_fee = 0, ta_debit = 1250,
           ta_fee_bps = None, ta_rate = None, ta_rate_id = None\<rparr>) 3750 1350 idem demo_ledger"
    using demo_transfer_run by metis
  have "perform demo_write demo_state demo_ambient (demo_session demo_ledger) = (Inr resp, s')"
    using run by (simp add: demo_write_def)
  moreover have led: "ledger_ok (committed (demo_session demo_ledger))" by (simp add: demo_answers)
  moreover have recs: "idempotency_records (committed s') = [idem]" by (simp add: eff demo_ledger_def)
  moreover have "idem \<in> set (idempotency_records (committed s'))
      - set (idempotency_records (committed (demo_session demo_ledger)))"
    unfolding recs demo_answers by (simp add: demo_ledger_def)
  ultimately have "Key_Lock (idem_row_key idem)
      \<in> set (lock_plan demo_write (committed (demo_session demo_ledger)))"
    using writes_are_locked by blast
  with recs show ?thesis unfolding demo_answers by blast
qed

end
