(* ===== verification/Independence.thy ===== *)
theory Independence
  imports Concurrency "HOL-Library.Multiset"
begin

text \<open>
  Transfers that share no lock do not depend on each other: whichever commits first, each is
  decided, answered and posted as if it ran alone, and the ledger ends the same.  This is what
  lets independent accounts be processed concurrently.
\<close>

section \<open>Attempts\<close>

record Attempt =
  at_client :: string
  at_headers :: HeaderMap
  at_request :: "CreateTransferRequest option"
  at_ambient :: Ambient

text \<open>An undisturbed call: its answer and the database it leaves.\<close>

definition attempt ::
  "Platform \<Rightarrow> AppState \<Rightarrow> Attempt \<Rightarrow> Database \<Rightarrow> (AppError fault + Response) \<times> Database" where
  "attempt P st a d =
     (case create_transfer P st (at_ambient a) (at_client a) (at_headers a) (at_request a) (demo_session d) of
        (r, s') \<Rightarrow> (r, committed s'))"

definition attempt_locks :: "Platform \<Rightarrow> Attempt \<Rightarrow> Database \<Rightarrow> Lock set" where
  "attempt_locks P a d = set (transfer_locks P (at_client a) (at_headers a) (at_request a) d)"

definition ready_for :: "AppState \<Rightarrow> Attempt \<Rightarrow> Database \<Rightarrow> bool" where
  "ready_for st a d \<longleftrightarrow>
     nonblank (at_client a) \<and> retention_ok st (at_ambient a) \<and> fresh_ids (at_ambient a) d"

definition ids_apart :: "Ambient \<Rightarrow> Ambient \<Rightarrow> bool" where
  "ids_apart amb amb' \<longleftrightarrow>
     new_v4 amb 0 \<noteq> new_v4 amb' 0 \<and> {new_v4 amb 1, new_v4 amb 2} \<inter> {new_v4 amb' 1, new_v4 amb' 2} = {}"

lemma ids_apart_sym: "ids_apart a b \<Longrightarrow> ids_apart b a"
  by (auto simp: ids_apart_def)

lemma attempt_outcome:
  assumes "attempt P st a d = (r, d')" and "platform_ok P" and "ledger_ok d" and "versions_ok d"
    and "ready_for st a d"
  shows "transfer_outcome P st (at_ambient a) (at_client a) (at_headers a) (at_request a) d r d'"
    and "ledger_ok d'"
proof -
  let ?run = "create_transfer P st (at_ambient a) (at_client a) (at_headers a) (at_request a) (demo_session d)"
  obtain s' where run: "?run = (r, s')" and d': "d' = committed s'"
    using assms(1) by (auto simp: attempt_def split: prod.splits)
  have "transfer_outcome P st (at_ambient a) (at_client a) (at_headers a) (at_request a)
      (committed (demo_session d)) (fst ?run) (committed (snd ?run))"
    by (rule create_transfer_outcome)
      (use assms(2-5) in \<open>simp_all add: demo_answers ready_for_def\<close>)
  then show "transfer_outcome P st (at_ambient a) (at_client a) (at_headers a) (at_request a) d r d'"
    by (simp add: run d' demo_answers)
  show "ledger_ok d'"
    using transfer.keeps_ledger [OF _ create_transfer_change [OF run]] assms(3)
    by (simp add: d' demo_answers)
qed

text \<open>What an attempt does to the database: nothing, or a posting that its locks cover.\<close>

type_synonym Effect = "(TransferRow \<times> i64 \<times> i64 \<times> IdempotencyRow) option"

definition apply_effect :: "Ambient \<Rightarrow> Effect \<Rightarrow> Database \<Rightarrow> Database" where
  "apply_effect amb oe d =
     (case oe of None \<Rightarrow> d | Some (t, sb, db, rec) \<Rightarrow> transfer_applied amb t sb db rec d)"

definition covered_effect :: "Ambient \<Rightarrow> Lock set \<Rightarrow> Effect \<Rightarrow> bool" where
  "covered_effect amb ls oe \<longleftrightarrow>
     (case oe of
        None \<Rightarrow> True
      | Some (t, sb, db, rec) \<Rightarrow>
          tr_id t = new_v4 amb 0 \<and> tr_source t \<noteq> tr_destination t
          \<and> {Key_Lock (idem_row_key rec), Account_Lock (tr_source t), Account_Lock (tr_destination t)} \<subseteq> ls)"

lemma decided_locks:
  assumes "transfer_request_decision P headers request d = Inr (k, source, destination, p, fin, amount)"
  shows "set (transfer_locks P c headers request d) =
      {Key_Lock (c, operation_type fin, k), Account_Lock source, Account_Lock destination}"
    and "source \<noteq> destination"
proof -
  have ok: "transfer_request_ok P headers request d k source destination p fin amount"
    using assms by (simp add: transfer_request_ok_decides)
  then show "source \<noteq> destination" by (auto simp: transfer_request_ok_def dest: validate_transfer_ne)
  from ok have "find_by acc_id source (accounts d) \<noteq> None" "find_by acc_id destination (accounts d) \<noteq> None"
    by (auto simp: transfer_request_ok_def)
  then show "set (transfer_locks P c headers request d) =
      {Key_Lock (c, operation_type fin, k), Account_Lock source, Account_Lock destination}"
    by (auto simp: transfer_locks_def assms set_row_locks)
qed

section \<open>What another posting leaves as it was\<close>

lemma request_decision_after:
  "tr_source t \<noteq> tr_destination t \<Longrightarrow>
   transfer_request_decision P headers request (transfer_applied amb t sb db rec d)
     = transfer_request_decision P headers request d"
  by (intro transfer_request_decision_cong)
     (auto simp: find_write_balances option.map_comp o_def split: option.split intro!: map_option_cong)

lemma answer_after:
  "idem_row_key rec \<noteq> key \<Longrightarrow>
   record_store.answer (transfer_applied amb t sb db rec d) key fp = record_store.answer d key fp"
  by (simp add: record_store.answer_def stored_record_def find_by_append split: option.split)

lemma decision_after:
  assumes "tr_source t \<noteq> tr_destination t"
    and "{source, destination} \<inter> {tr_source t, tr_destination t} = {}"
  shows "transfer_decision c fin p now source destination amount (transfer_applied amb t sb db rec d)
       = transfer_decision c fin p now source destination amount d"
proof -
  let ?e = "transfer_applied amb t sb db rec d"
  have fx: "fx_decision fin p now ?e = fx_decision fin p now d"
  proof -
    have "chosen_rate x y now ?e = chosen_rate x y now d" "chosen_fee x y now ?e = chosen_fee x y now d" for x y
      by (simp_all add: chosen_rate_def chosen_fee_def Let_def)
    then show ?thesis by (simp add: fx_decision_def split: sum.split)
  qed
  have rows: "find_by acc_id source (accounts ?e) = find_by acc_id source (accounts d)"
    "find_by acc_id destination (accounts ?e) = find_by acc_id destination (accounts d)"
    using assms(2) by (auto intro!: write_balances_other)
  show ?thesis unfolding transfer_decision_def fx rows ..
qed

text \<open>Two databases between which an attempt sees no difference.\<close>

definition agrees_for ::
  "Platform \<Rightarrow> string \<Rightarrow> HeaderMap \<Rightarrow> CreateTransferRequest option \<Rightarrow> timestamp \<Rightarrow> Database \<Rightarrow> Database \<Rightarrow> bool" where
  "agrees_for P c headers request now d e \<longleftrightarrow>
     transfer_request_decision P headers request e = transfer_request_decision P headers request d
     \<and> (case transfer_request_decision P headers request d of
          Inl _ \<Rightarrow> True
        | Inr (k, source, destination, p, fin, amount) \<Rightarrow>
            (\<forall>fp. record_store.answer e (c, operation_type fin, k) fp
                 = record_store.answer d (c, operation_type fin, k) fp)
            \<and> transfer_decision c fin p now source destination amount e
                = transfer_decision c fin p now source destination amount d)"

lemma agrees_after:
  assumes cov: "covered_effect amb ls oe"
    and apart: "set (transfer_locks P c headers request d) \<inter> ls = {}"
  shows "agrees_for P c headers request now d (apply_effect amb oe d)"
proof (cases oe)
  case None
  then show ?thesis by (auto simp: agrees_for_def apply_effect_def split: sum.split)
next
  case (Some x)
  obtain t sb db rec where x: "x = (t, sb, db, rec)" by (cases x)
  have ne: "tr_source t \<noteq> tr_destination t"
    and ls: "{Key_Lock (idem_row_key rec), Account_Lock (tr_source t), Account_Lock (tr_destination t)} \<subseteq> ls"
    using cov by (simp_all add: covered_effect_def Some x)
  show ?thesis
  proof (cases "transfer_request_decision P headers request d")
    case (Inl e)
    then show ?thesis by (simp add: agrees_for_def apply_effect_def Some x request_decision_after [OF ne])
  next
    case (Inr v)
    obtain k source destination p fin amount where v: "v = (k, source, destination, p, fin, amount)"
      by (cases v)
    note locks = decided_locks(1) [OF Inr [unfolded v], of c]
    have "idem_row_key rec \<noteq> (c, operation_type fin, k)"
      "{source, destination} \<inter> {tr_source t, tr_destination t} = {}"
      using apart ls unfolding locks by auto
    then show ?thesis
      by (simp add: agrees_for_def apply_effect_def Some x request_decision_after [OF ne] Inr v
          answer_after decision_after [OF ne])
  qed
qed

text \<open>The outcome of an attempt is an effect, and it is the same wherever it sees the same.\<close>

lemma outcome_effect:
  assumes out: "transfer_outcome P st amb c headers request d r d'"
  obtains oe where "covered_effect amb (set (transfer_locks P c headers request d)) oe"
    and "d' = apply_effect amb oe d"
    and "\<And>e r' e'. agrees_for P c headers request (tx_time amb) d e \<Longrightarrow>
           transfer_outcome P st amb c headers request e r' e' \<Longrightarrow> r' = r \<and> e' = apply_effect amb oe e"
proof (cases "transfer_request_decision P headers request d")
  case (Inl e)
  show thesis
    by (rule that [of None])
      (use out Inl in \<open>simp_all add: transfer_outcome_def agrees_for_def apply_effect_def covered_effect_def\<close>)
next
  case (Inr v)
  obtain k source destination p fin amount where v: "v = (k, source, destination, p, fin, amount)"
    by (cases v)
  note dec = Inr [unfolded v]
  let ?fp = "transfer_fingerprint P source destination (pre_source_currency p) amount"
  let ?key = "(c, operation_type fin, k)"
  have seen: "transfer_request_decision P headers request e = Inr (k, source, destination, p, fin, amount)
      \<and> record_store.answer e ?key ?fp = record_store.answer d ?key ?fp
      \<and> transfer_decision c fin p (tx_time amb) source destination amount e
          = transfer_decision c fin p (tx_time amb) source destination amount d"
    if "agrees_for P c headers request (tx_time amb) d e" for e
    using that by (simp add: agrees_for_def dec)
  show thesis
  proof (cases "record_store.answer d ?key ?fp = Fresh
      \<and> (\<exists>w. transfer_decision c fin p (tx_time amb) source destination amount d = Inr w)")
    case False
    show thesis
    proof (rule that [of None])
      show "d' = apply_effect amb None d"
        using out False
        by (cases "record_store.answer d ?key ?fp";
            cases "transfer_decision c fin p (tx_time amb) source destination amount d")
           (auto simp: transfer_outcome_def dec Let_def apply_effect_def)
      fix e r' e'
      assume "agrees_for P c headers request (tx_time amb) d e"
        and "transfer_outcome P st amb c headers request e r' e'"
      with out False seen show "r' = r \<and> e' = apply_effect amb None e"
        by (cases "record_store.answer d ?key ?fp";
            cases "transfer_decision c fin p (tx_time amb) source destination amount d")
           (auto simp: transfer_outcome_def dec Let_def apply_effect_def)
    qed (simp add: covered_effect_def)
  next
    case True
    then obtain a b ta sb db where fresh: "record_store.answer d ?key ?fp = Fresh"
      and w: "transfer_decision c fin p (tx_time amb) source destination amount d = Inr (a, b, ta, sb, db)"
      by auto
    let ?t = "new_transfer amb c a b amount ta"
    let ?rec = "\<lambda>body. completed_row (tx_time amb) (idempotency_retention st) ?key ?fp 201 body (new_v4 amb 0)"
    have posted: "\<exists>body. (\<forall>s. fst (transfer_response P ?t (locked_account a) (locked_account b) s) = Inr body)
        \<and> r' = Inr \<lparr>resp_status = 201, resp_body = body\<rparr> \<and> e' = transfer_applied amb ?t sb db (?rec body) e"
      if "agrees_for P c headers request (tx_time amb) d e"
        and "transfer_outcome P st amb c headers request e r' e'" for e r' e'
      using that(2) seen [OF that(1)] by (simp add: transfer_outcome_def Let_def fresh w)
    have "agrees_for P c headers request (tx_time amb) d d" by (auto simp: agrees_for_def dec)
    from posted [OF this out] obtain body where
      body: "\<forall>s. fst (transfer_response P ?t (locked_account a) (locked_account b) s) = Inr body"
      and r: "r = Inr \<lparr>resp_status = 201, resp_body = body\<rparr>"
      and d': "d' = transfer_applied amb ?t sb db (?rec body) d" by blast
    have "find_by acc_id source (accounts d) = Some a" "find_by acc_id destination (accounts d) = Some b"
      using w by (auto simp: transfer_decision_Inr transfer_computed_def)
    then have ids: "acc_id a = source" "acc_id b = destination" by (auto dest: find_by_SomeD)
    show thesis
    proof (rule that [of "Some (?t, sb, db, ?rec body)"])
      show "covered_effect amb (set (transfer_locks P c headers request d)) (Some (?t, sb, db, ?rec body))"
        by (simp add: covered_effect_def decided_locks [OF dec] ids)
      show "d' = apply_effect amb (Some (?t, sb, db, ?rec body)) d" by (simp add: apply_effect_def d')
      fix e r' e'
      assume "agrees_for P c headers request (tx_time amb) d e"
        and "transfer_outcome P st amb c headers request e r' e'"
      from posted [OF this] body r show "r' = r \<and> e' = apply_effect amb (Some (?t, sb, db, ?rec body)) e"
        by (auto simp: apply_effect_def)
    qed
  qed
qed

section \<open>Postings commute\<close>

lemma update_by_commute:
  assumes "k \<noteq> k'" and "\<And>r. key (f r) = key r" and "\<And>r. key (g r) = key r"
  shows "update_by key k f (update_by key k' g rows) = update_by key k' g (update_by key k f rows)"
  using assms by (simp add: update_by_def)

lemma write_balances_Cons:
  "write_balances now ((k, b) # bs) rows = write_balances now bs (update_by acc_id k (set_balance b now) rows)"
  by (simp add: write_balances_def)

lemma write_balances_Nil: "write_balances now [] rows = rows"
  by (simp add: write_balances_def)

lemma write_balances_commute:
  assumes "{k1, k2} \<inter> {j1, j2} = {}"
  shows "write_balances now [(k1, a1), (k2, a2)] (write_balances now' [(j1, b1), (j2, b2)] rows)
       = write_balances now' [(j1, b1), (j2, b2)] (write_balances now [(k1, a1), (k2, a2)] rows)"
proof -
  have "update_by acc_id k (set_balance a now) (update_by acc_id j (set_balance b now') rs)
      = update_by acc_id j (set_balance b now') (update_by acc_id k (set_balance a now) rs)"
    if "k \<in> {k1, k2}" "j \<in> {j1, j2}" for k j a b rs
    by (rule update_by_commute) (use that assms in \<open>auto simp: set_balance_def\<close>)
  then show ?thesis by (simp add: write_balances_Cons write_balances_Nil)
qed

definition same_content :: "Database \<Rightarrow> Database \<Rightarrow> bool" where
  "same_content d d' \<longleftrightarrow>
     accounts d = accounts d' \<and> mset (transfers d) = mset (transfers d')
     \<and> mset (account_entries d) = mset (account_entries d')
     \<and> mset (idempotency_records d) = mset (idempotency_records d')
     \<and> exchange_rates d = exchange_rates d' \<and> fx_fee_rules d = fx_fee_rules d'"

lemma effects_commute:
  assumes "covered_effect amb ls oe" and "covered_effect amb' ls' oe'" and "ls \<inter> ls' = {}"
  shows "same_content (apply_effect amb oe (apply_effect amb' oe' d)) (apply_effect amb' oe' (apply_effect amb oe d))"
proof (cases "oe = None \<or> oe' = None")
  case True
  then show ?thesis by (auto simp: same_content_def apply_effect_def split: option.split)
next
  case False
  then obtain t sb db rec u sb' db' rec' where e: "oe = Some (t, sb, db, rec)" "oe' = Some (u, sb', db', rec')"
    by auto
  have "{tr_source t, tr_destination t} \<inter> {tr_source u, tr_destination u} = {}"
    using assms by (auto simp: e covered_effect_def)
  note write_balances_commute [OF this]
  then show ?thesis by (simp add: same_content_def apply_effect_def e)
qed

section \<open>An attempt stays ready\<close>

lemma write_balances_versions:
  assumes bound: "list_all (\<lambda>r. sint (acc_version r) < b) rows" and "b \<le> i64_max"
    and ne: "s \<noteq> t" and keys: "distinct (map acc_id rows)"
  shows "list_all (\<lambda>r. sint (acc_version r) < b + 1) (write_balances now [(s, sb), (t, db)] rows)"
proof -
  let ?rows = "write_balances now [(s, sb), (t, db)] rows"
  have "sint (acc_version r) < b + 1" if r: "r \<in> set ?rows" for r
  proof -
    have "map acc_id ?rows = map acc_id rows"
      by (simp add: write_balances_def map_key_update_by set_balance_def)
    then have "distinct (map acc_id ?rows)" using keys by simp
    with r have "find_by acc_id (acc_id r) ?rows = Some r"
      by (simp add: find_by_eq_Some_iff)
    then obtain r0 where r0: "find_by acc_id (acc_id r) rows = Some r0"
      and v: "acc_version r = acc_version r0 \<or> acc_version r = acc_version r0 + 1"
      using ne by (auto simp: find_write_balances split: option.splits if_splits)
    have "sint (acc_version r0) < b"
      using bound find_by_SomeD [OF r0] by (auto simp: list_all_iff)
    then show ?thesis using v assms(2) sint_succ_i64 [of "acc_version r0"] by auto
  qed
  then show ?thesis by (simp add: list_all_iff)
qed

lemma versions_after:
  assumes "list_all (\<lambda>r. sint (acc_version r) < i64_max - 1) (accounts d)"
    and "covered_effect amb ls oe" and "distinct (map acc_id (accounts d))"
  shows "versions_ok (apply_effect amb oe d)"
proof (cases oe)
  case None
  then show ?thesis using assms(1) by (auto simp: apply_effect_def versions_ok_def list_all_iff)
next
  case (Some x)
  obtain t sb db rec where x: "x = (t, sb, db, rec)" by (cases x)
  have "tr_source t \<noteq> tr_destination t" using assms(2) by (simp add: Some x covered_effect_def)
  from write_balances_versions [OF assms(1) _ this assms(3)] show ?thesis
    by (simp add: versions_ok_def apply_effect_def Some x)
qed

lemma ready_after:
  assumes "ready_for st b d" and "ids_apart amb (at_ambient b)" and "covered_effect amb ls oe"
  shows "ready_for st b (apply_effect amb oe d)"
proof (cases oe)
  case None
  then show ?thesis using assms(1) by (simp add: apply_effect_def)
next
  case (Some x)
  obtain t sb db rec where x: "x = (t, sb, db, rec)" by (cases x)
  have "tr_id t = new_v4 amb 0" using assms(3) by (simp add: Some x covered_effect_def)
  then show ?thesis
    using assms(1,2)
    by (auto simp: ready_for_def fresh_ids_def ids_apart_def find_by_append transfer_entries_def Let_def
        apply_effect_def Some x)
qed

text \<open>One attempt, alone and after an independent one.\<close>

lemma attempt_beside:
  assumes "platform_ok P" and "ledger_ok d"
    and "list_all (\<lambda>r. sint (acc_version r) < i64_max - 1) (accounts d)"
    and "ready_for st a d" and "ids_apart amb' (at_ambient a)"
    and "attempt_locks P a d \<inter> ls' = {}" and "covered_effect amb' ls' oe'" and "ledger_ok (apply_effect amb' oe' d)"
    and "attempt P st a d = (r, d1)" and "attempt P st a (apply_effect amb' oe' d) = (r', e1)"
  obtains oe where "covered_effect (at_ambient a) (attempt_locks P a d) oe"
    and "d1 = apply_effect (at_ambient a) oe d" and "r' = r"
    and "e1 = apply_effect (at_ambient a) oe (apply_effect amb' oe' d)"
proof -
  have keys: "distinct (map acc_id (accounts d))"
    using assms(2) by (simp add: ledger_ok_def schema_ok_def keys_ok_def)
  have ver: "versions_ok d" using assms(3) by (auto simp: versions_ok_def list_all_iff)
  note out = attempt_outcome(1) [OF assms(9,1,2) ver assms(4)]
  note out' = attempt_outcome(1) [OF assms(10,1,8) versions_after [OF assms(3,7) keys]
      ready_after [OF assms(4,5,7)]]
  have ag: "agrees_for P (at_client a) (at_headers a) (at_request a) (tx_time (at_ambient a)) d
      (apply_effect amb' oe' d)"
    by (rule agrees_after [OF assms(7)]) (use assms(6) in \<open>simp add: attempt_locks_def\<close>)
  from outcome_effect [OF out] obtain oe where
    cov: "covered_effect (at_ambient a) (attempt_locks P a d) oe" and d1: "d1 = apply_effect (at_ambient a) oe d"
    and same: "\<And>e r' e'. agrees_for P (at_client a) (at_headers a) (at_request a) (tx_time (at_ambient a)) d e
       \<Longrightarrow> transfer_outcome P st (at_ambient a) (at_client a) (at_headers a) (at_request a) e r' e'
       \<Longrightarrow> r' = r \<and> e' = apply_effect (at_ambient a) oe e"
    unfolding attempt_locks_def by blast
  from cov d1 same [OF ag out'] show thesis by (intro that) simp_all
qed

text \<open>
  C9: Independent transfers commute: two transfers that have no lock in common (no account of the
  one is an account of the other, and the keys differ), on a sound ledger, give each client the
  same answer in either order, errors and replays included, and leave the same accounts, the
  same transfers, entries and idempotency records.
\<close>

theorem independent_transfers_commute:
  assumes "platform_ok P" and "ledger_ok d"
    and "list_all (\<lambda>r. sint (acc_version r) < i64_max - 1) (accounts d)"
    and "ready_for st a d" and "ready_for st b d" and "ids_apart (at_ambient a) (at_ambient b)"
    and "attempt_locks P a d \<inter> attempt_locks P b d = {}"
    and "attempt P st a d = (ra, d1)" and "attempt P st b d1 = (rb, d12)"
    and "attempt P st b d = (rb', d2)" and "attempt P st a d2 = (ra', d21)"
  shows "ra' = ra \<and> rb' = rb
    \<and> accounts d21 = accounts d12 \<and> mset (transfers d21) = mset (transfers d12)
    \<and> mset (account_entries d21) = mset (account_entries d12)
    \<and> mset (idempotency_records d21) = mset (idempotency_records d12)
    \<and> exchange_rates d21 = exchange_rates d12 \<and> fx_fee_rules d21 = fx_fee_rules d12"
proof -
  have keys: "distinct (map acc_id (accounts d))"
    using assms(2) by (simp add: ledger_ok_def schema_ok_def keys_ok_def)
  have ver: "versions_ok d" using assms(3) by (auto simp: versions_ok_def list_all_iff)
  note out = attempt_outcome [OF assms(8,1,2) ver assms(4)] attempt_outcome [OF assms(10,1,2) ver assms(5)]
  obtain oa where oa: "covered_effect (at_ambient a) (attempt_locks P a d) oa" "d1 = apply_effect (at_ambient a) oa d"
    using outcome_effect [OF out(1)] unfolding attempt_locks_def by blast
  obtain ob where ob: "covered_effect (at_ambient b) (attempt_locks P b d) ob" "d2 = apply_effect (at_ambient b) ob d"
    using outcome_effect [OF out(3)] unfolding attempt_locks_def by blast
  obtain oa' where oa': "covered_effect (at_ambient a) (attempt_locks P a d) oa'"
    "d1 = apply_effect (at_ambient a) oa' d" "ra' = ra" "d21 = apply_effect (at_ambient a) oa' d2"
    by (rule attempt_beside [OF assms(1-4) ids_apart_sym [OF assms(6)] assms(7) ob(1), of ra d1 ra' d21])
       (use assms(8,11) out(4) ob(2) in simp_all)
  obtain ob' where ob': "covered_effect (at_ambient b) (attempt_locks P b d) ob'"
    "d2 = apply_effect (at_ambient b) ob' d" "rb = rb'" "d12 = apply_effect (at_ambient b) ob' d1"
    by (rule attempt_beside [OF assms(1-3,5,6) _ oa(1), of rb' d2 rb d12])
       (use assms(7,9,10) out(2) oa(2) in \<open>auto simp: Int_commute\<close>)
  have "same_content d21 d12"
    using effects_commute [OF oa'(1) ob'(1) assms(7), of d] by (simp add: oa'(4) ob'(4) oa'(2) ob'(2))
  with oa'(3) ob'(3) have "ra' = ra \<and> rb' = rb \<and> same_content d21 d12" by simp
  then show ?thesis by (simp add: same_content_def)
qed

text \<open>Two pairs of accounts.\<close>

definition demo_two_pairs :: Database where
  "demo_two_pairs = demo_ledger
     \<lparr>accounts := accounts demo_ledger @ [demo_account 4 ''dave'' ''PLN'' 700, demo_account 5 ''bob'' ''PLN'' 0]\<rparr>"

definition demo_first :: Attempt where
  "demo_first = \<lparr>at_client = ''alice'', at_headers = demo_headers, at_request = demo_transfer_request,
     at_ambient = demo_ambient\<rparr>"

definition demo_second :: Attempt where
  "demo_second = \<lparr>at_client = ''dave'', at_headers = demo_headers,
     at_request = Some \<lparr>ctr_source_account_id = ''4'', ctr_destination_account_id = ''5'', ctr_amount = ''3''\<rparr>,
     at_ambient = \<lparr>tx_time = 1000, new_v4 = (\<lambda>n. of_nat (200 + n))\<rparr>\<rparr>"

lemma demo_two_pairs_ok: "ledger_ok demo_two_pairs"
proof -
  have "nonblank ''alice''" "nonblank ''bob''" "nonblank ''carol''" "nonblank ''dave''" by code_simp+
  moreover have "currency_code_ok ''PLN''" "currency_code_ok ''USD''" by code_simp+
  ultimately show ?thesis
    by (simp add: ledger_ok_def schema_ok_def keys_ok_def checks_ok_def refs_ok_def books_ok_def
        double_entry_def demo_two_pairs_def demo_ledger_def demo_account_def account_check_def rate_check_def
        fee_check_def)
qed

lemma demo_pair_decisions:
  "transfer_request_decision demo_platform demo_headers demo_transfer_request demo_two_pairs =
     Inr (''k1'', 1, 2, \<lparr>pre_source_currency = ''PLN'', pre_source_scale = 2,
        pre_destination_currency = ''PLN'', pre_destination_scale = 2\<rparr>, Operation_Transfer, 1250)"
  "transfer_request_decision demo_platform demo_headers (at_request demo_second) demo_two_pairs =
     Inr (''k1'', 4, 5, \<lparr>pre_source_currency = ''PLN'', pre_source_scale = 2,
        pre_destination_currency = ''PLN'', pre_destination_scale = 2\<rparr>, Operation_Transfer, 300)"
  by code_simp+

theorem independent_transfers_commute_witness:
  "fst (attempt demo_platform demo_state demo_first
       (snd (attempt demo_platform demo_state demo_second demo_two_pairs)))
     = fst (attempt demo_platform demo_state demo_first demo_two_pairs)
   \<and> attempt_locks demo_platform demo_first demo_two_pairs
     = {Key_Lock (''alice'', TRANSFER_OPERATION, ''k1''), Account_Lock 1, Account_Lock 2}"
proof -
  have "nonblank ''alice''" "nonblank ''dave''" by code_simp+
  then have ready: "ready_for demo_state demo_first demo_two_pairs" "ready_for demo_state demo_second demo_two_pairs"
    by (simp_all add: ready_for_def demo_first_def demo_second_def retention_ok_def demo_state_def
        demo_ambient_def i64_max_def timestamptz_end_def fresh_ids_def demo_two_pairs_def demo_ledger_def)
  have apart: "ids_apart (at_ambient demo_first) (at_ambient demo_second)"
    by (simp add: ids_apart_def demo_first_def demo_second_def demo_ambient_def)
  have locks: "attempt_locks demo_platform demo_first demo_two_pairs
      = {Key_Lock (''alice'', TRANSFER_OPERATION, ''k1''), Account_Lock 1, Account_Lock 2}"
    "attempt_locks demo_platform demo_second demo_two_pairs
      = {Key_Lock (''dave'', TRANSFER_OPERATION, ''k1''), Account_Lock 4, Account_Lock 5}"
    using decided_locks(1) [OF demo_pair_decisions(1)] decided_locks(1) [OF demo_pair_decisions(2)]
    by (simp_all add: attempt_locks_def demo_first_def demo_second_def operation_type_def)
  have "list_all (\<lambda>r. sint (acc_version r) < i64_max - 1) (accounts demo_two_pairs)"
    by (simp add: demo_two_pairs_def demo_ledger_def demo_account_def i64_max_def)
  from independent_transfers_commute [OF demo_platform_ok demo_two_pairs_ok this ready apart _
      prod.collapse [symmetric] prod.collapse [symmetric] prod.collapse [symmetric] prod.collapse [symmetric]]
  show ?thesis using locks by simp
qed

end
