(* ===== verification/Write_Statements.thy ===== *)
theory Write_Statements
  imports Independence
begin

text \<open>
  The write handlers statement by statement: account creation, transfer and reversal as jobs that
  move from phase to phase, each statement reading the database as it is when it runs, with the
  lock it waits for and the locks the job holds.
\<close>

section \<open>Requests\<close>

type_synonym Write_Job = "Write_Call \<times> Ambient"

type_synonym Transfer_Data = "string \<times> uuid \<times> uuid \<times> Preliminary \<times> FinancialOperation \<times> i64"

datatype Request =
    Account_Request string Currency i64
  | Transfer_Request Transfer_Data
  | Reversal_Request string uuid

primrec platform_of :: "Write_Call \<Rightarrow> Platform" where
  "platform_of (Open_Account P c headers request) = P"
| "platform_of (Post_Transfer P c headers request) = P"
| "platform_of (Return_Transfer P c headers transfer_id) = P"

primrec client_of :: "Write_Call \<Rightarrow> string" where
  "client_of (Open_Account P c headers request) = c"
| "client_of (Post_Transfer P c headers request) = c"
| "client_of (Return_Transfer P c headers transfer_id) = c"

definition account_request_decision ::
  "Platform \<Rightarrow> HeaderMap \<Rightarrow> CreateAccountRequest option \<Rightarrow> AppError + (string \<times> Currency \<times> i64)" where
  "account_request_decision P headers request =
     (case from_headers P headers of
        Inl e \<Rightarrow> Inl e
      | Inr k \<Rightarrow>
          (case request of
             None \<Rightarrow> Inl invalid_json
           | Some req \<Rightarrow>
               (case currency (car_currency req) of
                  None \<Rightarrow> Inl (Validation ''unsupported_currency'' ''The currency is not supported'')
                | Some cur \<Rightarrow>
                    (case parse_initial_balance (car_initial_balance req) (cur_scale cur) of
                       Inl e \<Rightarrow> Inl (money_error e)
                     | Inr balance \<Rightarrow> Inr (k, cur, balance)))))"

text \<open>What a handler knows before it touches the key; only a transfer reads (the preliminary row).\<close>

primrec decide_request :: "Write_Call \<Rightarrow> Database \<Rightarrow> AppError + Request" where
  "decide_request (Open_Account P c headers request) d =
     map_sum id (\<lambda>(k, cur, balance). Account_Request k cur balance) (account_request_decision P headers request)"
| "decide_request (Post_Transfer P c headers request) d =
     map_sum id Transfer_Request (transfer_request_decision P headers request d)"
| "decide_request (Return_Transfer P c headers transfer_id) d =
     map_sum id (\<lambda>(k, oid). Reversal_Request k oid) (reversal_request P headers transfer_id)"

primrec key_of :: "string \<Rightarrow> Request \<Rightarrow> string \<times> string \<times> string" where
  "key_of c (Account_Request k cur balance) = (c, ACCOUNT_CREATION_OPERATION, k)"
| "key_of c (Transfer_Request x) = (case x of (k, source, destination, p, fin, amount) \<Rightarrow> (c, operation_type fin, k))"
| "key_of c (Reversal_Request k oid) = (c, REVERSAL_OPERATION, k)"

primrec print_of :: "Platform \<Rightarrow> Request \<Rightarrow> string" where
  "print_of P (Account_Request k cur balance) = account_creation_fingerprint P (cur_code cur) balance"
| "print_of P (Transfer_Request x) = (case x of (k, source, destination, p, fin, amount) \<Rightarrow>
     transfer_fingerprint P source destination (pre_source_currency p) amount)"
| "print_of P (Reversal_Request k oid) = reversal_fingerprint P oid"

definition replay_answer :: "Platform \<Rightarrow> i32 \<Rightarrow> Value \<Rightarrow> AppError fault + Response" where
  "replay_answer P status body =
     (case stored_status P status of
        Inl e \<Rightarrow> Inl (Fail e) | Inr n \<Rightarrow> Inr \<lparr>resp_status = n, resp_body = body\<rparr>)"

section \<open>A posting under the row locks\<close>

datatype Plan =
    Transfer_Plan Transfer_Data "(ExchangeRate \<times> FeeRule) option"
  | Reversal_Plan string uuid TransferRow

definition read_configuration :: "Transfer_Data \<Rightarrow> timestamp \<Rightarrow> Database \<Rightarrow> AppError + (ExchangeRate \<times> FeeRule) option" where
  "read_configuration x now d =
     (case x of (k, source, destination, p, fin, amount) \<Rightarrow> fx_decision fin p now d)"

text \<open>The two rows of a plan: the account it debits and the one it credits.\<close>

primrec plan_source :: "Plan \<Rightarrow> uuid" where
  "plan_source (Transfer_Plan x fx) = (case x of (k, source, destination, p, fin, amount) \<Rightarrow> source)"
| "plan_source (Reversal_Plan k oid t) = tr_destination t"

primrec plan_destination :: "Plan \<Rightarrow> uuid" where
  "plan_destination (Transfer_Plan x fx) = (case x of (k, source, destination, p, fin, amount) \<Rightarrow> destination)"
| "plan_destination (Reversal_Plan k oid t) = tr_source t"

primrec plan_request :: "Plan \<Rightarrow> Request" where
  "plan_request (Transfer_Plan x fx) = Transfer_Request x"
| "plan_request (Reversal_Plan k oid t) = Reversal_Request k oid"

text \<open>The new transfer row, the two balances and the body of the answer.\<close>

type_synonym Posting = "TransferRow \<times> i64 \<times> i64 \<times> (AppError fault + Value)"

definition undisturbed_result :: "(AppError, 'a) tx \<Rightarrow> AppError fault + 'a" where
  "undisturbed_result f = fst (f (demo_session empty_database))"

definition decide_transfer ::
  "Platform \<Rightarrow> Ambient \<Rightarrow> string \<Rightarrow> Transfer_Data \<Rightarrow> (ExchangeRate \<times> FeeRule) option
    \<Rightarrow> AccountRow \<Rightarrow> AccountRow \<Rightarrow> AppError + Posting" where
  "decide_transfer P amb c x fx a b =
     (case x of (k, source, destination, p, fin, amount) \<Rightarrow>
       (case check_participants c p (locked_account a) (locked_account b) of
          Inl e \<Rightarrow> Inl e
        | Inr _ \<Rightarrow>
            (case transfer_amounts amount fx (locked_account a) (locked_account b) of
               Inl e \<Rightarrow> Inl e
             | Inr ta \<Rightarrow>
                 (case transfer_balances (locked_account a) (locked_account b) ta of
                    Inl e \<Rightarrow> Inl e
                  | Inr (sb, db) \<Rightarrow>
                      (let t = new_transfer amb c a b amount ta in
                       Inr (t, sb, db, undisturbed_result
                         (transfer_response P t (locked_account a) (locked_account b))))))))"

definition decide_return ::
  "Platform \<Rightarrow> Ambient \<Rightarrow> string \<Rightarrow> uuid \<Rightarrow> TransferRow \<Rightarrow> AccountRow \<Rightarrow> AccountRow \<Rightarrow> AppError + Posting" where
  "decide_return P amb c oid original a b =
     (if acc_status a \<noteq> Active \<or> acc_status b \<noteq> Active then Inl AccountUnavailable
      else if acc_currency a \<noteq> tr_destination_currency original \<or> acc_currency b \<noteq> tr_source_currency original
      then Inl reversal_metadata_mismatch
      else
        (case checked_sub_i64 (balance_minor a) (destination_amount_minor original) of
           None \<Rightarrow> Inl reversal_out_of_range
         | Some sb \<Rightarrow>
             (case checked_add_i64 (balance_minor b) (total_debit_minor original) of
                None \<Rightarrow> Inl reversal_out_of_range
              | Some db \<Rightarrow>
                  (let t = reversal_row amb c oid original in
                   Inr (t, sb, db, undisturbed_result
                     (reversal_response P oid t (reversal_account a) (reversal_account b) sb db))))))"

definition decide_locked :: "Platform \<Rightarrow> Ambient \<Rightarrow> string \<Rightarrow> Plan \<Rightarrow> Database \<Rightarrow> AppError + Posting" where
  "decide_locked P amb c plan d =
     (case (find_by acc_id (plan_source plan) (accounts d), find_by acc_id (plan_destination plan) (accounts d)) of
        (Some a, Some b) \<Rightarrow>
          (case plan of
             Transfer_Plan x fx \<Rightarrow> decide_transfer P amb c x fx a b
           | Reversal_Plan k oid original \<Rightarrow> decide_return P amb c oid original a b)
      | _ \<Rightarrow> Inl AccountUnavailable)"

definition apply_plan ::
  "Platform \<Rightarrow> AppState \<Rightarrow> Ambient \<Rightarrow> string \<Rightarrow> Plan \<Rightarrow> TransferRow \<Rightarrow> i64 \<Rightarrow> i64 \<Rightarrow> Value \<Rightarrow> Database \<Rightarrow> Database" where
  "apply_plan P st amb c plan t sb db body d =
     (let record = completed_row (tx_time amb) (idempotency_retention st) (key_of c (plan_request plan))
            (print_of P (plan_request plan)) 201 body (new_v4 amb 0) in
      case plan of
        Transfer_Plan x fx \<Rightarrow> transfer_applied amb t sb db record d
      | Reversal_Plan k oid original \<Rightarrow> reversal_applied amb t sb db record d)"

section \<open>The statements\<close>

text \<open>
  What a job has done: nothing; validated the request; reserved its key; (a reversal) locked
  the original, checked its owner; locked some rows, with others to come; decided the posting.
\<close>

datatype Phase =
    Waiting
  | Opened Request
  | Reserved Request
  | Found string uuid TransferRow
  | Owned string uuid TransferRow
  | Locking Plan "Lock list" "Lock list"
  | Decided Plan Posting

type_synonym Outcome = "Phase + (AppError fault + Response) \<times> Database"

definition refuse :: "AppError \<Rightarrow> Database \<Rightarrow> Outcome" where
  "refuse e d = Inr (Inl (Fail e), d)"

definition created :: "Value \<Rightarrow> Database \<Rightarrow> Outcome" where
  "created body d = Inr (Inr \<lparr>resp_status = 201, resp_body = body\<rparr>, d)"

definition reserve_statement :: "Platform \<Rightarrow> string \<Rightarrow> Request \<Rightarrow> Database \<Rightarrow> Outcome" where
  "reserve_statement P c x d =
     (case record_store.answer d (key_of c x) (print_of P x) of
        Fresh \<Rightarrow> Inl (Reserved x)
      | Pending \<Rightarrow> Inr (Inl Panicked, d)
      | Replayed (status, body) \<Rightarrow> Inr (replay_answer P status body, d)
      | Conflicting \<Rightarrow> refuse IdempotencyConflict d)"

definition begin_locking :: "Plan \<Rightarrow> Database \<Rightarrow> Phase" where
  "begin_locking plan d = Locking plan [] (row_locks [plan_source plan, plan_destination plan] d)"

text \<open>The first statement under the reserved key; that of an account creation is its insert.\<close>

definition reserved_statement :: "Platform \<Rightarrow> AppState \<Rightarrow> Ambient \<Rightarrow> string \<Rightarrow> Request \<Rightarrow> Database \<Rightarrow> Outcome" where
  "reserved_statement P st amb c x d =
     (case x of
        Account_Request k cur balance \<Rightarrow>
          (case format_minor_units balance (cur_scale cur) of
             None \<Rightarrow> Inr (Inl Panicked, d)
           | Some shown \<Rightarrow>
               created (account_created_response P (new_v4 amb 0) (cur_code cur) shown)
                 (account_created P st amb c k cur balance shown d))
      | Transfer_Request y \<Rightarrow>
          (case read_configuration y (tx_time amb) d of
             Inl e \<Rightarrow> refuse e d
           | Inr fx \<Rightarrow> Inl (begin_locking (Transfer_Plan y fx) d))
      | Reversal_Request k oid \<Rightarrow>
          (case find_by tr_id oid (transfers d) of
             None \<Rightarrow> refuse NotFound d
           | Some t \<Rightarrow> if tr_kind t = Kind_Reversal then refuse reversal_of_reversal d else Inl (Found k oid t)))"

fun write_statement :: "AppState \<Rightarrow> Write_Job \<Rightarrow> Phase \<Rightarrow> Database \<Rightarrow> Outcome" where
  "write_statement st (call, amb) Waiting d =
     (case decide_request call d of Inl e \<Rightarrow> refuse e d | Inr x \<Rightarrow> Inl (Opened x))"
| "write_statement st (call, amb) (Opened x) d = reserve_statement (platform_of call) (client_of call) x d"
| "write_statement st (call, amb) (Reserved x) d =
     reserved_statement (platform_of call) st amb (client_of call) x d"
| "write_statement st (call, amb) (Found k oid t) d =
     (if map_option owner_id (find_by acc_id (tr_destination t) (accounts d)) = Some (client_of call)
      then Inl (Owned k oid t) else refuse NotFound d)"
| "write_statement st (call, amb) (Owned k oid t) d =
     (if list_ex (\<lambda>u. reverses u = Some oid) (transfers d) then refuse transfer_already_reversed d
      else Inl (begin_locking (Reversal_Plan k oid t) d))"
| "write_statement st (call, amb) (Locking plan taken (l # ls)) d = Inl (Locking plan (taken @ [l]) ls)"
| "write_statement st (call, amb) (Locking plan taken []) d =
     (case decide_locked (platform_of call) amb (client_of call) plan d of
        Inl e \<Rightarrow> refuse e d
      | Inr y \<Rightarrow> Inl (Decided plan y))"
| "write_statement st (call, amb) (Decided plan (t, sb, db, result)) d =
     (case result of
        Inl f \<Rightarrow> Inr (Inl f, d)
      | Inr body \<Rightarrow> created body (apply_plan (platform_of call) st amb (client_of call) plan t sb db body d))"

text \<open>The lock a statement waits for, and those the job holds.\<close>

fun write_wants :: "Write_Job \<Rightarrow> Phase \<Rightarrow> Lock option" where
  "write_wants (call, amb) (Opened x) = Some (Key_Lock (key_of (client_of call) x))"
| "write_wants (call, amb) (Reserved (Reversal_Request k oid)) = Some (Transfer_Lock oid)"
| "write_wants (call, amb) (Locking plan taken (l # ls)) = Some l"
| "write_wants _ _ = None"

definition plan_rows :: "Plan \<Rightarrow> Lock set" where
  "plan_rows plan = {Account_Lock (plan_source plan), Account_Lock (plan_destination plan)}"

definition plan_locks :: "string \<Rightarrow> Plan \<Rightarrow> Lock set" where
  "plan_locks c plan = insert (Key_Lock (key_of c (plan_request plan)))
     (case plan of Transfer_Plan x fx \<Rightarrow> {} | Reversal_Plan k oid t \<Rightarrow> {Transfer_Lock oid})"

fun write_holds :: "Write_Job \<Rightarrow> Phase \<Rightarrow> Lock set" where
  "write_holds (call, amb) (Reserved x) = {Key_Lock (key_of (client_of call) x)}"
| "write_holds (call, amb) (Found k oid t) =
     {Key_Lock (key_of (client_of call) (Reversal_Request k oid)), Transfer_Lock oid}"
| "write_holds (call, amb) (Owned k oid t) =
     {Key_Lock (key_of (client_of call) (Reversal_Request k oid)), Transfer_Lock oid}"
| "write_holds (call, amb) (Locking plan taken todo) = plan_locks (client_of call) plan \<union> set taken"
| "write_holds (call, amb) (Decided plan y) = plan_locks (client_of call) plan \<union> plan_rows plan"
| "write_holds _ _ = {}"

fun write_work :: "Phase \<Rightarrow> nat" where
  "write_work Waiting = 8"
| "write_work (Opened x) = 7"
| "write_work (Reserved x) = 6"
| "write_work (Found k oid t) = 5"
| "write_work (Owned k oid t) = 4"
| "write_work (Locking plan taken todo) = 1 + length todo"
| "write_work (Decided plan y) = 0"

definition write_call :: "AppState \<Rightarrow> Write_Job \<Rightarrow> Database \<Rightarrow> (AppError fault + Response) \<times> Database" where
  "write_call st j d =
     (case j of (call, amb) \<Rightarrow> (case perform call st amb (demo_session d) of (r, s') \<Rightarrow> (r, committed s')))"

end
