(* ===== verification/Interleaving.thy ===== *)
theory Interleaving
  imports Main
begin

text \<open>
  Jobs that run statement by statement on one database, under PostgreSQL's \<open>READ COMMITTED\<close>:
  a statement reads what is committed when it runs, may have to wait for a lock, locks are kept
  to the end of the job, and what the job writes appears when it ends.  The interface
  \<open>two_phase\<close> states when such an interleaving cannot be told from a serial run of whole jobs, and
  cannot get stuck.
\<close>

section \<open>Interleaved and serial runs\<close>

datatype ('p, 'a) Progress = Working 'p | Answered 'a | Abandoned

record ('p, 'a, 'db) Shared =
  sh_db :: 'db
  sh_jobs :: "('p, 'a) Progress list"
  sh_ended :: "nat list"

text \<open>
  What the next statement of a job does in its phase: it goes on in another phase, or the job
  ends with an answer and the database it commits.
\<close>

type_synonym ('job, 'p, 'a, 'db) statement = "'job \<Rightarrow> 'p \<Rightarrow> 'db \<Rightarrow> 'p + 'a \<times> 'db"

primrec held :: "('job \<Rightarrow> 'p \<Rightarrow> 'lock set) \<Rightarrow> 'job \<Rightarrow> ('p, 'a) Progress \<Rightarrow> 'lock set" where
  "held holds j (Working p) = holds j p"
| "held holds j (Answered r) = {}"
| "held holds j Abandoned = {}"

definition free_for ::
  "('job \<Rightarrow> 'p \<Rightarrow> 'lock set) \<Rightarrow> 'job list \<Rightarrow> ('p, 'a) Progress list \<Rightarrow> nat \<Rightarrow> 'lock \<Rightarrow> bool" where
  "free_for holds jobs ph i l \<longleftrightarrow> (\<forall>j < length jobs. j \<noteq> i \<longrightarrow> l \<notin> held holds (jobs ! j) (ph ! j))"

text \<open>
  One statement of one job, which waits until the lock it wants is free.  A job may be abandoned
  at any time (a lost connection, a dropped request): it is rolled back.
\<close>

inductive interleaved ::
  "('job, 'p, 'a, 'db) statement \<Rightarrow> ('job \<Rightarrow> 'p \<Rightarrow> 'lock option) \<Rightarrow> ('job \<Rightarrow> 'p \<Rightarrow> 'lock set) \<Rightarrow> 'job list
    \<Rightarrow> ('p, 'a, 'db) Shared \<Rightarrow> ('p, 'a, 'db) Shared \<Rightarrow> bool"
  for advance wants holds jobs where
  go_on: "i < length jobs \<Longrightarrow> sh_jobs s ! i = Working p \<Longrightarrow>
     \<forall>l. wants (jobs ! i) p = Some l \<longrightarrow> free_for holds jobs (sh_jobs s) i l \<Longrightarrow>
     advance (jobs ! i) p (sh_db s) = Inl q \<Longrightarrow>
     interleaved advance wants holds jobs s
       \<lparr>sh_db = sh_db s, sh_jobs = (sh_jobs s)[i := Working q], sh_ended = sh_ended s\<rparr>"
| finish: "i < length jobs \<Longrightarrow> sh_jobs s ! i = Working p \<Longrightarrow>
     \<forall>l. wants (jobs ! i) p = Some l \<longrightarrow> free_for holds jobs (sh_jobs s) i l \<Longrightarrow>
     advance (jobs ! i) p (sh_db s) = Inr (r, d) \<Longrightarrow>
     interleaved advance wants holds jobs s
       \<lparr>sh_db = d, sh_jobs = (sh_jobs s)[i := Answered r], sh_ended = sh_ended s @ [i]\<rparr>"
| abandon: "i < length jobs \<Longrightarrow> sh_jobs s ! i = Working p \<Longrightarrow>
     interleaved advance wants holds jobs s
       \<lparr>sh_db = sh_db s, sh_jobs = (sh_jobs s)[i := Abandoned], sh_ended = sh_ended s\<rparr>"

definition all_waiting :: "('job \<Rightarrow> 'p) \<Rightarrow> 'job list \<Rightarrow> 'db \<Rightarrow> ('p, 'a, 'db) Shared" where
  "all_waiting start jobs d = \<lparr>sh_db = d, sh_jobs = map (\<lambda>j. Working (start j)) jobs, sh_ended = []\<rparr>"

text \<open>The serial run of some jobs, each as one call.\<close>

fun serial :: "('job \<Rightarrow> 'db \<Rightarrow> 'a \<times> 'db) \<Rightarrow> 'job list \<Rightarrow> nat list \<Rightarrow> 'db \<Rightarrow> 'a list \<times> 'db" where
  "serial call jobs [] d = ([], d)"
| "serial call jobs (i # is) d =
     (case call (jobs ! i) d of (r, d1) \<Rightarrow> (case serial call jobs is d1 of (rs, d2) \<Rightarrow> (r # rs, d2)))"

lemma serial_snoc:
  "serial call jobs (is @ [i]) d =
     (case serial call jobs is d of (rs, d1) \<Rightarrow>
        (case call (jobs ! i) d1 of (r, d2) \<Rightarrow> (rs @ [r], d2)))"
  by (induction "is" arbitrary: d) (simp_all split: prod.split)

lemma held_update:
  assumes "\<And>k j. k < n \<Longrightarrow> j < n \<Longrightarrow> k \<noteq> j \<Longrightarrow> H k (ph ! k) \<inter> H j (ph ! j) = {}"
    and "\<And>j. j < n \<Longrightarrow> j \<noteq> i \<Longrightarrow> H i q \<inter> H j (ph ! j) = {}"
    and "k < n" and "j < n" and "k \<noteq> j" and "i < length ph"
  shows "H k (ph[i := q] ! k) \<inter> H j (ph[i := q] ! j) = {}"
  using assms(1) [OF assms(3-5)] assms(2) [of j] assms(2) [of k] assms(3-6)
  by (cases "k = i"; cases "j = i") (simp_all add: Int_commute)

lemma update_eqD: "xs[i := y] ! k = z \<Longrightarrow> y \<noteq> z \<Longrightarrow> xs ! k = z"
  by (cases "i < length xs") (auto simp: nth_list_update list_update_beyond split: if_splits)

lemma sum_list_update_less:
  "i < length xs \<Longrightarrow> (f y :: nat) < f (xs ! i) \<Longrightarrow> sum_list (map f (xs[i := y])) < sum_list (map f xs)"
  by (induction xs arbitrary: i) (auto split: nat.split)

primrec remaining :: "('p \<Rightarrow> nat) \<Rightarrow> ('p, 'a) Progress \<Rightarrow> nat" where
  "remaining work (Working p) = Suc (work p)"
| "remaining work (Answered r) = 0"
| "remaining work Abandoned = 0"

definition total_work :: "('p \<Rightarrow> nat) \<Rightarrow> ('p, 'a, 'db) Shared \<Rightarrow> nat" where
  "total_work work s = sum_list (map (remaining work) (sh_jobs s))"

section \<open>The interface\<close>

text \<open>
  \<open>agree\<close> says that what a job has read is still true, \<open>change\<close> what a job that holds some locks may
  do to the database, \<open>sound n\<close> that \<open>n\<close> more calls are possible.  A job in agreement that goes on
  stays in agreement and takes only the lock it wanted; one that ends answers and commits what
  one undisturbed call does; what others change under other locks leaves it in agreement; and it wants its
  locks in order.
\<close>

locale two_phase =
  fixes start :: "'job \<Rightarrow> 'p" and advance :: "('job, 'p, 'a, 'db) statement"
    and wants :: "'job \<Rightarrow> 'p \<Rightarrow> 'lock :: linorder option" and holds :: "'job \<Rightarrow> 'p \<Rightarrow> 'lock set"
    and work :: "'p \<Rightarrow> nat" and call :: "'job \<Rightarrow> 'db \<Rightarrow> 'a \<times> 'db"
    and sound :: "nat \<Rightarrow> 'db \<Rightarrow> bool" and ready :: "'job \<Rightarrow> 'db \<Rightarrow> bool" and agree :: "'job \<Rightarrow> 'p \<Rightarrow> 'db \<Rightarrow> bool"
    and change :: "'job \<Rightarrow> 'lock set \<Rightarrow> 'db \<Rightarrow> 'db \<Rightarrow> bool" and apart :: "'job \<Rightarrow> 'job \<Rightarrow> bool"
  assumes start_holds: "holds j (start j) = {}"
    and start_agrees: "agree j (start j) d"
    and goes_on: "sound (Suc n) d \<Longrightarrow> ready j d \<Longrightarrow> agree j p d \<Longrightarrow> advance j p d = Inl q \<Longrightarrow>
      agree j q d \<and> holds j q \<subseteq> holds j p \<union> set_option (wants j p) \<and> work q < work p"
    and ends: "sound (Suc n) d \<Longrightarrow> ready j d \<Longrightarrow> agree j p d \<Longrightarrow> advance j p d = Inr (r, d') \<Longrightarrow>
      call j d = (r, d') \<and> change j (holds j p) d d' \<and> sound n d'"
    and others_agree: "agree i p d \<Longrightarrow> change j ls d d' \<Longrightarrow> ls \<inter> holds i p = {} \<Longrightarrow> agree i p d'"
    and others_ready: "ready i d \<Longrightarrow> change j ls d d' \<Longrightarrow> apart i j \<Longrightarrow> ready i d'"
    and in_order: "agree j p d \<Longrightarrow> l \<in> holds j p \<Longrightarrow> wants j p = Some l' \<Longrightarrow> l < l'"
begin

definition good_start :: "'job list \<Rightarrow> 'db \<Rightarrow> bool" where
  "good_start jobs d \<longleftrightarrow> sound (length jobs) d \<and> (\<forall>j \<in> set jobs. ready j d)
     \<and> (\<forall>i < length jobs. \<forall>k < length jobs. i \<noteq> k \<longrightarrow> apart (jobs ! i) (jobs ! k))"

abbreviation step :: "'job list \<Rightarrow> ('p, 'a, 'db) Shared \<Rightarrow> ('p, 'a, 'db) Shared \<Rightarrow> bool" where
  "step \<equiv> interleaved advance wants holds"

text \<open>What the committed database is: that of a serial run of the jobs that have ended.\<close>

definition serial_so_far :: "'job list \<Rightarrow> 'db \<Rightarrow> ('p, 'a, 'db) Shared \<Rightarrow> bool" where
  "serial_so_far jobs d0 s \<longleftrightarrow>
     distinct (sh_ended s) \<and> set (sh_ended s) = {i. i < length jobs \<and> sh_jobs s ! i \<in> range Answered}
     \<and> (\<exists>rs. serial call jobs (sh_ended s) d0 = (rs, sh_db s)
           \<and> map Answered rs = map ((!) (sh_jobs s)) (sh_ended s))"

definition undisturbed :: "'job list \<Rightarrow> ('p, 'a, 'db) Shared \<Rightarrow> bool" where
  "undisturbed jobs s \<longleftrightarrow>
     (\<forall>i < length jobs. \<forall>p. sh_jobs s ! i = Working p \<longrightarrow>
        agree (jobs ! i) p (sh_db s) \<and> ready (jobs ! i) (sh_db s))
     \<and> (\<forall>i < length jobs. \<forall>j < length jobs. i \<noteq> j \<longrightarrow>
          held holds (jobs ! i) (sh_jobs s ! i) \<inter> held holds (jobs ! j) (sh_jobs s ! j) = {})"

definition invariant :: "'job list \<Rightarrow> 'db \<Rightarrow> ('p, 'a, 'db) Shared \<Rightarrow> bool" where
  "invariant jobs d0 s \<longleftrightarrow>
     length (sh_jobs s) = length jobs \<and> serial_so_far jobs d0 s \<and> undisturbed jobs s
     \<and> sound (length jobs - length (sh_ended s)) (sh_db s)"

lemma ended_bound:
  assumes "serial_so_far jobs d0 s" and "i < length jobs" and "sh_jobs s ! i = Working p"
  obtains n where "length jobs - length (sh_ended s) = Suc n" and "length jobs - Suc (length (sh_ended s)) = n"
proof -
  have "distinct (sh_ended s)" using assms(1) by (simp add: serial_so_far_def)
  then have "length (sh_ended s) = card (set (sh_ended s))" by (rule distinct_card [symmetric])
  also have ended: "set (sh_ended s) = {i. i < length jobs \<and> sh_jobs s ! i \<in> range Answered}"
    using assms(1) by (simp only: serial_so_far_def)
  have "i \<notin> set (sh_ended s)" and "set (sh_ended s) \<subseteq> {..<length jobs}"
    using assms(3) unfolding ended by auto
  then have "set (sh_ended s) \<subset> {..<length jobs}" using assms(2) by blast
  then have "card (set (sh_ended s)) < card {..<length jobs}" by (intro psubset_card_mono) simp_all
  finally have "length (sh_ended s) < length jobs" by simp
  then show thesis by (intro that [of "length jobs - Suc (length (sh_ended s))"]) simp_all
qed

lemma working_facts:
  assumes "invariant jobs d0 s" and "i < length jobs" and "sh_jobs s ! i = Working p"
  obtains n where "length jobs - Suc (length (sh_ended s)) = n" and "sound (Suc n) (sh_db s)"
    and "ready (jobs ! i) (sh_db s)" and "agree (jobs ! i) p (sh_db s)"
    and "length (sh_jobs s) = length jobs"
proof -
  have "serial_so_far jobs d0 s" using assms(1) by (simp add: invariant_def)
  then obtain n where n: "length jobs - length (sh_ended s) = Suc n" "length jobs - Suc (length (sh_ended s)) = n"
    by (rule ended_bound [OF _ assms(2,3)])
  show thesis
    by (rule that [OF n(2)]) (use assms n(1) in \<open>simp_all add: invariant_def undisturbed_def\<close>)
qed

lemma serial_so_farI:
  assumes "distinct e" and "set e = {i. i < length jobs \<and> ph ! i \<in> range Answered}"
    and "serial call jobs e d0 = (rs, d)" and "map Answered rs = map ((!) ph) e"
  shows "serial_so_far jobs d0 \<lparr>sh_db = d, sh_jobs = ph, sh_ended = e\<rparr>"
  unfolding serial_so_far_def Shared.simps using assms by blast

lemma held_apart:
  assumes "invariant jobs d0 s" and "i < length jobs" and "j < length jobs" and "j \<noteq> i"
  shows "held holds (jobs ! i) (sh_jobs s ! i) \<inter> held holds (jobs ! j) (sh_jobs s ! j) = {}"
  using assms by (simp add: invariant_def undisturbed_def)

text \<open>Replacing the progress of one job, which has not ended, by one that holds no lock of another.\<close>

lemma undisturbed_update:
  assumes inv: "invariant jobs d0 s" and i: "i < length jobs"
    and mine: "\<And>p. q = Working p \<Longrightarrow> agree (jobs ! i) p d \<and> ready (jobs ! i) d"
    and others: "\<And>j p. j < length jobs \<Longrightarrow> j \<noteq> i \<Longrightarrow> sh_jobs s ! j = Working p \<Longrightarrow>
       agree (jobs ! j) p d \<and> ready (jobs ! j) d"
    and apart: "\<And>j. j < length jobs \<Longrightarrow> j \<noteq> i \<Longrightarrow>
       held holds (jobs ! i) q \<inter> held holds (jobs ! j) (sh_jobs s ! j) = {}"
  shows "undisturbed jobs \<lparr>sh_db = d, sh_jobs = (sh_jobs s)[i := q], sh_ended = e\<rparr>"
proof -
  have len: "length (sh_jobs s) = length jobs" using inv by (simp add: invariant_def)
  have "agree (jobs ! j) p d \<and> ready (jobs ! j) d"
    if "j < length jobs" "(sh_jobs s)[i := q] ! j = Working p" for j p
    using that mine others len by (cases "j = i") simp_all
  moreover have "held holds (jobs ! k) ((sh_jobs s)[i := q] ! k) \<inter> held holds (jobs ! j) ((sh_jobs s)[i := q] ! j) = {}"
    if "k < length jobs" "j < length jobs" "k \<noteq> j" for k j
    by (rule held_update [where H = "\<lambda>k. held holds (jobs ! k)", OF _ apart that])
       (use held_apart [OF inv] i len in simp_all)
  ultimately show ?thesis by (simp add: undisturbed_def)
qed

lemma serial_so_far_update:
  assumes inv: "invariant jobs d0 s" and i: "i < length jobs" "sh_jobs s ! i = Working p" and q: "q \<notin> range Answered"
  shows "serial_so_far jobs d0 \<lparr>sh_db = sh_db s, sh_jobs = (sh_jobs s)[i := q], sh_ended = sh_ended s\<rparr>"
proof -
  have len: "length (sh_jobs s) = length jobs" and old: "serial_so_far jobs d0 s"
    using inv by (simp_all add: invariant_def)
  have ended: "set (sh_ended s) = {j. j < length jobs \<and> sh_jobs s ! j \<in> range Answered}"
    using old by (simp add: serial_so_far_def)
  have "((sh_jobs s)[i := q] ! j \<in> range Answered) = (sh_jobs s ! j \<in> range Answered)" if "j < length jobs" for j
    using i q that len by (cases "j = i") auto
  then have "set (sh_ended s) = {j. j < length jobs \<and> (sh_jobs s)[i := q] ! j \<in> range Answered}"
    unfolding ended by blast
  moreover have "i \<notin> set (sh_ended s)" using i by (auto simp: ended)
  then have "map ((!) ((sh_jobs s)[i := q])) (sh_ended s) = map ((!) (sh_jobs s)) (sh_ended s)"
    by (intro map_cong refl nth_list_update_neq) auto
  moreover obtain rs where "distinct (sh_ended s)" "serial call jobs (sh_ended s) d0 = (rs, sh_db s)"
    and phases: "map Answered rs = map ((!) (sh_jobs s)) (sh_ended s)"
    using old unfolding serial_so_far_def by blast
  ultimately show ?thesis by (intro serial_so_farI) (assumption | simp only: phases)+
qed

lemma serial_so_far_end:
  assumes inv: "invariant jobs d0 s" and i: "i < length jobs" "sh_jobs s ! i = Working p"
    and run: "call (jobs ! i) (sh_db s) = (r, d)"
  shows "serial_so_far jobs d0 \<lparr>sh_db = d, sh_jobs = (sh_jobs s)[i := Answered r], sh_ended = sh_ended s @ [i]\<rparr>"
proof -
  have len: "length (sh_jobs s) = length jobs" and old: "serial_so_far jobs d0 s"
    using inv by (simp_all add: invariant_def)
  from old obtain rs where rs: "serial call jobs (sh_ended s) d0 = (rs, sh_db s)"
    and phases: "map Answered rs = map ((!) (sh_jobs s)) (sh_ended s)" and dist: "distinct (sh_ended s)"
    unfolding serial_so_far_def by blast
  have ended: "set (sh_ended s) = {j. j < length jobs \<and> sh_jobs s ! j \<in> range Answered}"
    using old by (simp add: serial_so_far_def)
  have new: "i \<notin> set (sh_ended s)" using i by (auto simp: ended)
  then have "map ((!) ((sh_jobs s)[i := Answered r])) (sh_ended s) = map ((!) (sh_jobs s)) (sh_ended s)"
    by (intro map_cong refl nth_list_update_neq) auto
  then have "map Answered (rs @ [r]) = map ((!) ((sh_jobs s)[i := Answered r])) (sh_ended s @ [i])"
    using phases i len by simp
  moreover have "set (sh_ended s @ [i]) = {j. j < length jobs \<and> (sh_jobs s)[i := Answered r] ! j \<in> range Answered}"
    unfolding set_append ended using i len by (auto simp: nth_list_update)
  moreover have "serial call jobs (sh_ended s @ [i]) d0 = (rs @ [r], d)"
    by (simp add: serial_snoc rs run)
  moreover have "distinct (sh_ended s @ [i])" using dist new by simp
  ultimately show ?thesis by (intro serial_so_farI) assumption+
qed

lemma apart_update:
  assumes inv: "invariant jobs d0 s" and i: "i < length jobs" "sh_jobs s ! i = Working p"
    and free: "\<forall>l. wants (jobs ! i) p = Some l \<longrightarrow> free_for holds jobs (sh_jobs s) i l"
    and sub: "held holds (jobs ! i) q \<subseteq> holds (jobs ! i) p \<union> set_option (wants (jobs ! i) p)"
    and j: "j < length jobs" "j \<noteq> i"
  shows "held holds (jobs ! i) q \<inter> held holds (jobs ! j) (sh_jobs s ! j) = {}"
  using held_apart [OF inv i(1) j] sub free j unfolding i(2) by (auto simp: free_for_def)

lemma step_invariant:
  assumes inv: "invariant jobs d0 s" and good: "good_start jobs d0" and "step jobs s s'"
  shows "invariant jobs d0 s'"
  using assms(3)
proof cases
  case (go_on i p q)
  obtain n where ready: "ready (jobs ! i) (sh_db s)"
    and new: "agree (jobs ! i) q (sh_db s)" "holds (jobs ! i) q \<subseteq> holds (jobs ! i) p \<union> set_option (wants (jobs ! i) p)"
    using working_facts [OF inv go_on(2,3)] goes_on go_on(5) by metis
  have "undisturbed jobs s'"
    unfolding go_on(1)
    by (rule undisturbed_update [OF inv go_on(2)])
       (use inv new ready apart_update [OF inv go_on(2-4), of "Working q"]
        in \<open>simp_all add: invariant_def undisturbed_def\<close>)
  then show ?thesis
    using inv serial_so_far_update [OF inv go_on(2,3), of "Working q"]
    unfolding invariant_def go_on(1) by auto
next
  case (finish i p r d)
  obtain n where n: "length jobs - Suc (length (sh_ended s)) = n" and call: "call (jobs ! i) (sh_db s) = (r, d)"
    and change: "change (jobs ! i) (holds (jobs ! i) p) (sh_db s) d" and room: "sound n d"
    using working_facts [OF inv finish(2,3)] ends [OF _ _ _ finish(5)] by metis
  have "agree (jobs ! j) q d \<and> ready (jobs ! j) d"
    if j: "j < length jobs" "j \<noteq> i" "sh_jobs s ! j = Working q" for j q
  proof
    have "agree (jobs ! j) q (sh_db s)" "ready (jobs ! j) (sh_db s)"
      using inv j by (simp_all add: invariant_def undisturbed_def)
    moreover have "holds (jobs ! i) p \<inter> holds (jobs ! j) q = {}"
      using held_apart [OF inv finish(2) j(1,2)] by (simp add: finish(3) j(3))
    moreover have "apart (jobs ! j) (jobs ! i)" using good finish(2) j by (simp add: good_start_def)
    ultimately show "agree (jobs ! j) q d" "ready (jobs ! j) d"
      using others_agree [OF _ change] others_ready [OF _ change] by blast+
  qed
  then have "undisturbed jobs s'"
    unfolding finish(1) by (intro undisturbed_update [OF inv finish(2)]) auto
  then show ?thesis
    using inv serial_so_far_end [OF inv finish(2,3) call] room
    unfolding invariant_def finish(1) by (simp add: n)
next
  case (abandon i p)
  have "undisturbed jobs s'"
    unfolding abandon(1)
    by (rule undisturbed_update [OF inv abandon(2)]) (use inv in \<open>simp_all add: invariant_def undisturbed_def\<close>)
  then show ?thesis
    using inv serial_so_far_update [OF inv abandon(2,3), of Abandoned]
    unfolding invariant_def abandon(1) by auto
qed

lemma start_invariant:
  assumes "good_start jobs d"
  shows "invariant jobs d (all_waiting start jobs d)"
  using assms start_holds start_agrees
  by (auto simp: invariant_def good_start_def all_waiting_def serial_so_far_def undisturbed_def)

lemma reachable_invariant:
  assumes good: "good_start jobs d" and "rtranclp (step jobs) (all_waiting start jobs d) s"
  shows "invariant jobs d s"
  using assms(2)
  by (induction rule: rtranclp_induct) (auto intro: start_invariant [OF good] step_invariant [OF _ good])

lemma serializable:
  assumes "good_start jobs d" and "rtranclp (step jobs) (all_waiting start jobs d) s"
  shows "serial_so_far jobs d s" and "sound (length jobs - length (sh_ended s)) (sh_db s)"
  using reachable_invariant [OF assms] by (simp_all add: invariant_def)

text \<open>The job that waits for the last lock would wait for one that wants a later lock.\<close>

lemma some_statement_runs:
  assumes inv: "invariant jobs d0 s" and i: "i < length jobs" "sh_jobs s ! i = Working p"
  shows "\<exists>s'. step jobs s s' \<and> (\<forall>k. sh_jobs s' ! k = Abandoned \<longrightarrow> sh_jobs s ! k = Abandoned)"
proof (rule ccontr)
  assume stuck: "\<not> ?thesis"
  let ?W = "{l. \<exists>j < length jobs. \<exists>q. sh_jobs s ! j = Working q \<and> wants (jobs ! j) q = Some l}"
  have blocked: "\<exists>l. wants (jobs ! j) q = Some l \<and> \<not> free_for holds jobs (sh_jobs s) j l"
    if j: "j < length jobs" "sh_jobs s ! j = Working q" for j q
  proof (rule ccontr)
    assume "\<not> ?thesis"
    then have free: "\<forall>l. wants (jobs ! j) q = Some l \<longrightarrow> free_for holds jobs (sh_jobs s) j l" by blast
    show False
    proof (cases "advance (jobs ! j) q (sh_db s)")
      case (Inl q')
      from go_on [where jobs = jobs and advance = advance and wants = wants and holds = holds, OF j free Inl] stuck show False by (fastforce dest: update_eqD)
    next
      case (Inr x)
      then obtain r d where "advance (jobs ! j) q (sh_db s) = Inr (r, d)" by (cases x) simp
      from finish [where jobs = jobs and advance = advance and wants = wants and holds = holds, OF j free this] stuck show False by (fastforce dest: update_eqD)
    qed
  qed
  have "?W \<subseteq> (\<lambda>j. the (wants (jobs ! j) (THE q. sh_jobs s ! j = Working q))) ` {..<length jobs}"
    by (force simp: image_iff)
  then have fin: "finite ?W" by (rule finite_subset) simp
  have "?W \<noteq> {}" using blocked [OF i] i by blast
  then have "Max ?W \<in> ?W" by (rule Max_in [OF fin])
  then obtain j q where j: "j < length jobs" "sh_jobs s ! j = Working q" "wants (jobs ! j) q = Some (Max ?W)" by blast
  with blocked [OF j(1,2)] obtain k where k: "k < length jobs" "Max ?W \<in> held holds (jobs ! k) (sh_jobs s ! k)"
    by (auto simp: free_for_def)
  then obtain q' where q': "sh_jobs s ! k = Working q'" "Max ?W \<in> holds (jobs ! k) q'"
    by (cases "sh_jobs s ! k") simp_all
  with blocked [OF k(1) q'(1)] obtain l where l: "wants (jobs ! k) q' = Some l" by blast
  have "agree (jobs ! k) q' (sh_db s)"
    using inv k(1) q'(1) by (simp add: invariant_def undisturbed_def)
  from in_order [OF this q'(2) l] have "Max ?W < l" .
  moreover have "l \<in> ?W" using k(1) q'(1) l by blast
  then have "l \<le> Max ?W" by (rule Max_ge [OF fin])
  ultimately show False by simp
qed

lemma step_works:
  assumes inv: "invariant jobs d0 s" and "step jobs s s'"
  shows "total_work work s' < total_work work s"
  using assms(2)
proof cases
  case (go_on i p q)
  have "work q < work p"
    using working_facts [OF inv go_on(2,3)] goes_on go_on(5) by metis
  then show ?thesis
    using go_on inv by (auto simp: total_work_def invariant_def intro!: sum_list_update_less)
qed (use inv in \<open>auto simp: total_work_def invariant_def intro!: sum_list_update_less\<close>)

lemma progress:
  assumes "good_start jobs d" and "rtranclp (step jobs) (all_waiting start jobs d) s"
  shows "i < length jobs \<Longrightarrow> sh_jobs s ! i = Working p \<Longrightarrow>
      \<exists>s'. step jobs s s' \<and> (\<forall>k. sh_jobs s' ! k = Abandoned \<longrightarrow> sh_jobs s ! k = Abandoned)"
    and "step jobs s s' \<Longrightarrow> total_work work s' < total_work work s"
  using reachable_invariant [OF assms] some_statement_runs step_works by blast+

end

end
