(* ===== verification/Serializability.thy ===== *)
theory Serializability
  imports Write_Statements Interleaving
begin

text \<open>
  Concurrent writes are serializable.  Many account creations, transfers and reversals (on any
  number of service instances) interleave statement by statement.  Each is an instance of the
  interface \<open>two_phase\<close>, so the answers and the ledger are those of the handlers of the model
  run one at a time, in the order in which the transactions ended.
\<close>

section \<open>Undisturbed calls\<close>

lemma account_request_decision_Inl:
  assumes "account_request_decision P headers request = Inl e"
  shows "create_account P st amb c headers request s = (Inl (Fail e), s)"
  using assms
  by (auto simp: account_request_decision_def create_account_def tx_bind_def from_result_def ok_or_def
      tx_return_def tx_throw_def split: sum.splits option.splits)

lemma account_request_decision_Inr:
  "account_request_decision P headers request = Inr (k, cur, balance)
     \<longleftrightarrow> account_request_ok P headers request k cur balance"
  by (auto simp: account_request_decision_def account_request_ok_def split: sum.splits option.splits)

definition job_ready :: "AppState \<Rightarrow> Write_Job \<Rightarrow> Database \<Rightarrow> bool" where
  "job_ready st j d \<longleftrightarrow>
     (case j of (call, amb) \<Rightarrow>
        platform_ok (platform_of call) \<and> nonblank (client_of call) \<and> retention_ok st amb
        \<and> fresh_ids amb d \<and> find_by acc_id (new_v4 amb 0) (accounts d) = None)"

definition ledger_room :: "nat \<Rightarrow> Database \<Rightarrow> bool" where
  "ledger_room n d \<longleftrightarrow>
     ledger_ok d \<and> int n \<le> i64_max \<and> list_all (\<lambda>r. sint (acc_version r) \<le> i64_max - int n) (accounts d)"

lemma ledger_room_versions: "ledger_room (Suc n) d \<Longrightarrow> versions_ok d"
  by (auto simp: ledger_room_def versions_ok_def list_all_iff)

text \<open>A call either is refused or reaches its key; the outcome lemmas of the handlers say what then.\<close>

lemma write_call_transfer:
  assumes "job_ready st (Post_Transfer P c headers request, amb) d" and "ledger_room (Suc n) d"
    and "write_call st (Post_Transfer P c headers request, amb) d = (r, d')"
  shows "transfer_outcome P st amb c headers request d r d'"
  using create_transfer_outcome [of "demo_session d" P c st amb headers request] assms
    ledger_room_versions [OF assms(2)]
  by (auto simp: write_call_def demo_answers job_ready_def ledger_room_def split: prod.splits)

lemma write_call_reversal:
  assumes "job_ready st (Return_Transfer P c headers transfer_id, amb) d" and "ledger_room (Suc n) d"
    and "write_call st (Return_Transfer P c headers transfer_id, amb) d = (r, d')"
  shows "reversal_outcome P st amb c headers transfer_id d r d'"
  using reverse_transfer_outcome [of "demo_session d" P c st amb headers transfer_id] assms
    ledger_room_versions [OF assms(2)]
  by (auto simp: write_call_def demo_answers job_ready_def ledger_room_def split: prod.splits)

lemma write_call_refused:
  assumes "job_ready st (call, amb) d" and "ledger_room (Suc n) d" and "decide_request call d = Inl e"
  shows "write_call st (call, amb) d = (Inl (Fail e), d)"
proof (cases call)
  case (Open_Account P c headers request)
  have "account_request_decision P headers request = Inl e"
    using assms(3) by (cases "account_request_decision P headers request") (auto simp: Open_Account)
  then show ?thesis
    by (simp add: write_call_def Open_Account account_request_decision_Inl) (simp add: demo_session_def)
next
  case (Post_Transfer P c headers request)
  have "transfer_request_decision P headers request d = Inl e"
    using assms(3) by (cases "transfer_request_decision P headers request d") (auto simp: Post_Transfer)
  then show ?thesis
    using write_call_transfer [OF assms(1) [unfolded Post_Transfer] assms(2) prod.collapse [symmetric]]
    by (simp add: Post_Transfer transfer_outcome_def prod_eq_iff)
next
  case (Return_Transfer P c headers transfer_id)
  have "reversal_request P headers transfer_id = Inl e"
    using assms(3) by (cases "reversal_request P headers transfer_id") (auto simp: Return_Transfer)
  then show ?thesis
    using write_call_reversal [OF assms(1) [unfolded Return_Transfer] assms(2) prod.collapse [symmetric]]
    by (simp add: Return_Transfer reversal_outcome_def prod_eq_iff)
qed

lemma decided_account:
  assumes "decide_request (Open_Account P c headers request) d = Inr x"
  obtains k cur balance where "x = Account_Request k cur balance" and "account_request_ok P headers request k cur balance"
  using assms
  by (cases "account_request_decision P headers request")
     (auto simp: account_request_decision_Inr [symmetric])

lemma decided_transfer:
  assumes "decide_request (Post_Transfer P c headers request) d = Inr x"
  obtains y where "x = Transfer_Request y" and "transfer_request_decision P headers request d = Inr y"
  using assms by (cases "transfer_request_decision P headers request d") auto

lemma decided_reversal:
  assumes "decide_request (Return_Transfer P c headers transfer_id) d = Inr x"
  obtains k oid where "x = Reversal_Request k oid" and "reversal_request P headers transfer_id = Inr (k, oid)"
  using assms by (cases "reversal_request P headers transfer_id") auto

lemma write_call_known:
  assumes ready: "job_ready st (call, amb) d" and room: "ledger_room (Suc n) d"
    and req: "decide_request call d = Inr x"
    and known: "record_store.answer d (key_of (client_of call) x) (print_of (platform_of call) x) \<noteq> Fresh"
  shows "reserve_statement (platform_of call) (client_of call) x d = Inr (write_call st (call, amb) d)"
proof (cases call)
  case (Open_Account P c headers request)
  obtain k cur balance where x: "x = Account_Request k cur balance"
    and ok: "account_request_ok P headers request k cur balance"
    by (rule decided_account [OF req [unfolded Open_Account]])
  let ?key = "(c, ACCOUNT_CREATION_OPERATION, k)"
  have fine: "platform_ok P" "nonblank c" "retention_ok st amb" "ledger_ok d"
    using ready room by (simp_all add: job_ready_def ledger_room_def Open_Account)
  note finished = create_account_done [of "demo_session d" P c st amb headers request k cur balance,
      unfolded demo_answers, OF refl fine(1-3) ok]
  show ?thesis
  proof (cases "record_store.answer d ?key (account_creation_fingerprint P (cur_code cur) balance)")
    case (Replayed v)
    obtain status body where v: "v = (status, body)" by (cases v)
    have "stored_record d ?key = Some (account_creation_fingerprint P (cur_code cur) balance, Some (status, body))"
      using Replayed by (simp add: v answer_Replayed_iff)
    from finished [OF this] show ?thesis
      using Replayed by (auto simp: v Open_Account x reserve_statement_def replay_answer_def write_call_def
          split: prod.split)
  next
    case Conflicting
    then obtain g r where "stored_record d ?key = Some (g, r)" and ne: "g \<noteq> account_creation_fingerprint P (cur_code cur) balance"
      by (auto simp: answer_Conflicting_iff)
    then show ?thesis
      using Conflicting finished [of g] ledger_never_pending [OF fine(4), of ?key g]
      by (cases r) (auto simp: Open_Account x reserve_statement_def refuse_def write_call_def record_store.answer_def
          split: prod.split)
  qed (use known fine(4) in \<open>simp_all add: Open_Account x ledger_never_pending\<close>)
next
  case (Post_Transfer P c headers request)
  obtain y where x: "x = Transfer_Request y" and y: "transfer_request_decision P headers request d = Inr y"
    by (rule decided_transfer [OF req [unfolded Post_Transfer]])
  obtain r d' where out: "write_call st (Post_Transfer P c headers request, amb) d = (r, d')" by fastforce
  from write_call_transfer [OF ready [unfolded Post_Transfer] room out] known show ?thesis
    by (auto simp: Post_Transfer out x y transfer_outcome_def reserve_statement_def replay_answer_def refuse_def Let_def
        split: prod.splits answer.splits)
next
  case (Return_Transfer P c headers transfer_id)
  obtain k oid where x: "x = Reversal_Request k oid" and y: "reversal_request P headers transfer_id = Inr (k, oid)"
    by (rule decided_reversal [OF req [unfolded Return_Transfer]])
  obtain r d' where out: "write_call st (Return_Transfer P c headers transfer_id, amb) d = (r, d')" by fastforce
  from write_call_reversal [OF ready [unfolded Return_Transfer] room out] known show ?thesis
    by (auto simp: Return_Transfer out x y reversal_outcome_def reserve_statement_def replay_answer_def refuse_def
        split: prod.splits answer.splits)
qed

lemma write_call_account:
  assumes ready: "job_ready st (call, amb) d" and room: "ledger_room (Suc n) d"
    and req: "decide_request call d = Inr (Account_Request k cur balance)"
    and fresh: "record_store.answer d (key_of (client_of call) (Account_Request k cur balance))
      (print_of (platform_of call) (Account_Request k cur balance)) = Fresh"
  shows "\<exists>shown. format_minor_units balance (cur_scale cur) = Some shown
    \<and> reserved_statement (platform_of call) st amb (client_of call) (Account_Request k cur balance) d
        = Inr (write_call st (call, amb) d)
    \<and> write_call st (call, amb) d = (Inr \<lparr>resp_status = 201, resp_body =
          account_created_response (platform_of call) (new_v4 amb 0) (cur_code cur) shown\<rparr>,
        account_created (platform_of call) st amb (client_of call) k cur balance shown d)"
proof -
  obtain P c headers request where call: "call = Open_Account P c headers request"
    using req by (cases call) (auto simp: map_sum_def split: sum.splits)
  have ok: "account_request_ok P headers request k cur balance"
    by (rule decided_account [OF req [unfolded call]]) simp
  have "platform_ok P" "nonblank c" "retention_ok st amb" "find_by acc_id (new_v4 amb 0) (accounts d) = None"
    using ready by (simp_all add: job_ready_def call)
  then obtain shown s' where "format_minor_units balance (cur_scale cur) = Some shown"
    and "create_account P st amb c headers request (demo_session d) =
        (Inr \<lparr>resp_status = 201, resp_body =
            account_created_response P (new_v4 amb 0) (cur_code cur) shown\<rparr>, s')"
    and "committed s' = account_created P st amb c k cur balance shown d"
    using create_account_fresh [of "demo_session d" P c st amb headers request k cur balance, unfolded demo_answers,
        OF refl _ _ _ ok] fresh
    by (auto simp: call answer_Fresh_iff)
  then show ?thesis
    by (simp add: call reserved_statement_def created_def write_call_def)
qed

text \<open>The decision of a posting in steps.\<close>

lemma transfer_decision_stages:
  assumes "x = (k, source, destination, p, fin, amount)"
  shows "read_configuration x now d = Inl e \<Longrightarrow>
      transfer_decision c fin p now source destination amount d = Inl e"
    and "read_configuration x now d = Inr fx \<Longrightarrow> decide_locked P amb c (Transfer_Plan x fx) d = Inl e \<Longrightarrow>
      transfer_decision c fin p now source destination amount d = Inl e"
    and "read_configuration x now d = Inr fx \<Longrightarrow>
      decide_locked P amb c (Transfer_Plan x fx) d = Inr (t, sb, db, result) \<Longrightarrow>
      \<exists>a b ta. transfer_decision c fin p now source destination amount d = Inr (a, b, ta, sb, db)
        \<and> t = new_transfer amb c a b amount ta
        \<and> result = undisturbed_result (transfer_response P t (locked_account a) (locked_account b))"
  unfolding transfer_decision_def read_configuration_def decide_locked_def decide_transfer_def assms
  by (auto simp: Let_def split: option.splits sum.splits prod.splits)

lemma reversal_decision_stages:
  shows "find_by tr_id oid (transfers d) = None \<Longrightarrow> reversal_decision c oid d = Inl NotFound"
    and "find_by tr_id oid (transfers d) = Some t \<Longrightarrow> tr_kind t = Kind_Reversal \<Longrightarrow>
      reversal_decision c oid d = Inl reversal_of_reversal"
    and "find_by tr_id oid (transfers d) = Some t \<Longrightarrow> tr_kind t \<noteq> Kind_Reversal \<Longrightarrow>
      map_option owner_id (find_by acc_id (tr_destination t) (accounts d)) \<noteq> Some c \<Longrightarrow>
      reversal_decision c oid d = Inl NotFound"
    and "find_by tr_id oid (transfers d) = Some t \<Longrightarrow> tr_kind t \<noteq> Kind_Reversal \<Longrightarrow>
      map_option owner_id (find_by acc_id (tr_destination t) (accounts d)) = Some c \<Longrightarrow>
      list_ex (\<lambda>u. reverses u = Some oid) (transfers d) \<Longrightarrow>
      reversal_decision c oid d = Inl transfer_already_reversed"
  by (auto simp: reversal_decision_def split: option.splits)

lemma reversal_decision_posting:
  assumes "find_by tr_id oid (transfers d) = Some t" and "tr_kind t \<noteq> Kind_Reversal"
    and "map_option owner_id (find_by acc_id (tr_destination t) (accounts d)) = Some c"
    and "\<not> list_ex (\<lambda>u. reverses u = Some oid) (transfers d)"
  shows "decide_locked P amb c (Reversal_Plan k oid t) d = Inl e \<Longrightarrow> reversal_decision c oid d = Inl e"
    and "decide_locked P amb c (Reversal_Plan k oid t) d = Inr (u, sb, db, result) \<Longrightarrow>
      \<exists>a b. reversal_decision c oid d = Inr (t, a, b, sb, db) \<and> u = reversal_row amb c oid t
        \<and> result = undisturbed_result (reversal_response P oid u (reversal_account a) (reversal_account b) sb db)"
  using assms
  by (auto simp: reversal_decision_def decide_locked_def decide_return_def Let_def split: option.splits if_splits)

section \<open>What a job has read stays true\<close>

definition key_owned :: "Write_Call \<Rightarrow> Request \<Rightarrow> Database \<Rightarrow> bool" where
  "key_owned call x d \<longleftrightarrow> decide_request call d = Inr x
     \<and> record_store.answer d (key_of (client_of call) x) (print_of (platform_of call) x) = Fresh"

definition original_found :: "Write_Call \<Rightarrow> string \<Rightarrow> uuid \<Rightarrow> TransferRow \<Rightarrow> Database \<Rightarrow> bool" where
  "original_found call k oid t d \<longleftrightarrow> key_owned call (Reversal_Request k oid) d
     \<and> find_by tr_id oid (transfers d) = Some t \<and> tr_kind t \<noteq> Kind_Reversal \<and> tr_source t \<noteq> tr_destination t"

definition original_owned :: "Write_Call \<Rightarrow> string \<Rightarrow> uuid \<Rightarrow> TransferRow \<Rightarrow> Database \<Rightarrow> bool" where
  "original_owned call k oid t d \<longleftrightarrow> original_found call k oid t d
     \<and> map_option owner_id (find_by acc_id (tr_destination t) (accounts d)) = Some (client_of call)"

definition plan_stands :: "Write_Call \<Rightarrow> Ambient \<Rightarrow> Plan \<Rightarrow> Database \<Rightarrow> bool" where
  "plan_stands call amb plan d \<longleftrightarrow>
     (case plan of
        Transfer_Plan x fx \<Rightarrow> key_owned call (Transfer_Request x) d \<and> read_configuration x (tx_time amb) d = Inr fx
      | Reversal_Plan k oid t \<Rightarrow> original_owned call k oid t d
          \<and> \<not> list_ex (\<lambda>u. reverses u = Some oid) (transfers d))"

fun write_agrees :: "Write_Job \<Rightarrow> Phase \<Rightarrow> Database \<Rightarrow> bool" where
  "write_agrees (call, amb) Waiting d = True"
| "write_agrees (call, amb) (Opened x) d = (decide_request call d = Inr x)"
| "write_agrees (call, amb) (Reserved x) d = key_owned call x d"
| "write_agrees (call, amb) (Found k oid t) d = original_found call k oid t d"
| "write_agrees (call, amb) (Owned k oid t) d = original_owned call k oid t d"
| "write_agrees (call, amb) (Locking plan taken todo) d =
     (plan_stands call amb plan d \<and> sorted_wrt (<) (taken @ todo) \<and> set (taken @ todo) = plan_rows plan)"
| "write_agrees (call, amb) (Decided plan y) d =
     (plan_stands call amb plan d \<and> decide_locked (platform_of call) amb (client_of call) plan d = Inr y)"

lemma owned_transfer_call:
  assumes "key_owned call (Transfer_Request x) d"
  obtains P c headers request where "call = Post_Transfer P c headers request"
    and "transfer_request_decision P headers request d = Inr x"
proof (cases call)
  case (Post_Transfer P c headers request)
  show thesis
    by (rule that [OF Post_Transfer])
       (rule decided_transfer [of P c headers request d "Transfer_Request x"],
        use assms in \<open>auto simp: key_owned_def Post_Transfer\<close>)
qed (use assms in \<open>auto simp: key_owned_def map_sum_def split: sum.splits\<close>)

lemma owned_reversal_call:
  assumes "key_owned call (Reversal_Request k oid) d"
  obtains P c headers transfer_id where "call = Return_Transfer P c headers transfer_id"
    and "reversal_request P headers transfer_id = Inr (k, oid)"
proof (cases call)
  case (Return_Transfer P c headers transfer_id)
  show thesis
    by (rule that [OF Return_Transfer])
       (rule decided_reversal [of P c headers transfer_id d "Reversal_Request k oid"],
        use assms in \<open>auto simp: key_owned_def Return_Transfer\<close>)
qed (use assms in \<open>auto simp: key_owned_def map_sum_def split: sum.splits\<close>)

text \<open>A refusal of the decision is the answer of the call.\<close>

lemma write_call_transfer_refused:
  assumes ready: "job_ready st (call, amb) d" and room: "ledger_room (Suc n) d"
    and own: "key_owned call (Transfer_Request x) d"
    and refused: "read_configuration x (tx_time amb) d = Inl e
      \<or> (\<exists>fx. read_configuration x (tx_time amb) d = Inr fx
            \<and> decide_locked (platform_of call) amb (client_of call) (Transfer_Plan x fx) d = Inl e)"
  shows "write_call st (call, amb) d = (Inl (Fail e), d)"
proof -
  obtain P c headers request where call: "call = Post_Transfer P c headers request"
    and req: "transfer_request_decision P headers request d = Inr x" by (rule owned_transfer_call [OF own])
  obtain k source destination p fin amount where x: "x = (k, source, destination, p, fin, amount)" by (cases x)
  have "transfer_decision c fin p (tx_time amb) source destination amount d = Inl e"
    using refused transfer_decision_stages(1,2) [OF x] by (auto simp: call)
  then show ?thesis
    using write_call_transfer [OF ready [unfolded call] room prod.collapse [symmetric]] own
    by (simp add: call key_owned_def x req [unfolded x] transfer_outcome_def Let_def prod_eq_iff)
qed

lemma write_call_reversal_refused:
  assumes ready: "job_ready st (call, amb) d" and room: "ledger_room (Suc n) d"
    and own: "key_owned call (Reversal_Request k oid) d"
    and refused: "reversal_decision (client_of call) oid d = Inl e"
  shows "write_call st (call, amb) d = (Inl (Fail e), d)"
proof -
  obtain P c headers transfer_id where call: "call = Return_Transfer P c headers transfer_id"
    and req: "reversal_request P headers transfer_id = Inr (k, oid)" by (rule owned_reversal_call [OF own])
  show ?thesis
    using write_call_reversal [OF ready [unfolded call] room prod.collapse [symmetric]] own refused
    by (simp add: call key_owned_def req reversal_outcome_def prod_eq_iff)
qed

lemma write_call_posted:
  assumes ready: "job_ready st (call, amb) d" and room: "ledger_room (Suc n) d"
    and stands: "plan_stands call amb plan d"
    and dec: "decide_locked (platform_of call) amb (client_of call) plan d = Inr (t, sb, db, result)"
  shows "\<exists>body. result = Inr body
    \<and> write_call st (call, amb) d = (Inr \<lparr>resp_status = 201, resp_body = body\<rparr>,
        apply_plan (platform_of call) st amb (client_of call) plan t sb db body d)"
proof (cases plan)
  case (Transfer_Plan x fx)
  have own: "key_owned call (Transfer_Request x) d" and fx: "read_configuration x (tx_time amb) d = Inr fx"
    using stands by (simp_all add: plan_stands_def Transfer_Plan)
  obtain P c headers request where call: "call = Post_Transfer P c headers request"
    and req: "transfer_request_decision P headers request d = Inr x" by (rule owned_transfer_call [OF own])
  obtain k source destination p fin amount where x: "x = (k, source, destination, p, fin, amount)" by (cases x)
  from transfer_decision_stages(3) [OF x fx dec [unfolded Transfer_Plan]] obtain a b ta where
    td: "transfer_decision c fin p (tx_time amb) source destination amount d = Inr (a, b, ta, sb, db)"
    and t: "t = new_transfer amb c a b amount ta"
    and res: "result = undisturbed_result (transfer_response P t (locked_account a) (locked_account b))"
    by (auto simp: call)
  show ?thesis
    using write_call_transfer [OF ready [unfolded call] room prod.collapse [symmetric]] own
    by (auto simp: call key_owned_def x req [unfolded x] transfer_outcome_def Let_def td res t undisturbed_result_def
        apply_plan_def Transfer_Plan prod_eq_iff)
next
  case (Reversal_Plan k oid original)
  have owned: "original_owned call k oid original d" and free: "\<not> list_ex (\<lambda>u. reverses u = Some oid) (transfers d)"
    using stands by (simp_all add: plan_stands_def Reversal_Plan)
  have own: "key_owned call (Reversal_Request k oid) d"
    using owned by (simp add: original_owned_def original_found_def)
  obtain P c headers transfer_id where call: "call = Return_Transfer P c headers transfer_id"
    and req: "reversal_request P headers transfer_id = Inr (k, oid)" by (rule owned_reversal_call [OF own])
  have "\<exists>a b. reversal_decision c oid d = Inr (original, a, b, sb, db) \<and> t = reversal_row amb c oid original
      \<and> result = undisturbed_result (reversal_response P oid t (reversal_account a) (reversal_account b) sb db)"
    by (rule reversal_decision_posting(2) [where k = k])
       (use owned free dec in \<open>simp_all add: original_owned_def original_found_def call Reversal_Plan\<close>)
  then obtain a b where td: "reversal_decision c oid d = Inr (original, a, b, sb, db)"
    and t: "t = reversal_row amb c oid original"
    and res: "result = undisturbed_result (reversal_response P oid t (reversal_account a) (reversal_account b) sb db)"
    by blast
  show ?thesis
    using write_call_reversal [OF ready [unfolded call] room prod.collapse [symmetric]] own
    by (auto simp: call key_owned_def req reversal_outcome_def td res t undisturbed_result_def
        apply_plan_def Reversal_Plan prod_eq_iff)
qed

section \<open>What a job changes\<close>

definition same_identity :: "AccountRow \<Rightarrow> AccountRow \<Rightarrow> bool" where
  "same_identity r r' \<longleftrightarrow>
     owner_id r' = owner_id r \<and> acc_currency r' = acc_currency r \<and> currency_scale r' = currency_scale r"

definition changed_accounts :: "Ambient \<Rightarrow> Lock set \<Rightarrow> Database \<Rightarrow> Database \<Rightarrow> bool" where
  "changed_accounts amb ls d d' \<longleftrightarrow>
     (\<forall>u. case find_by acc_id u (accounts d) of
        Some r \<Rightarrow> (\<exists>r'. find_by acc_id u (accounts d') = Some r' \<and> same_identity r r' \<and> (Account_Lock u \<notin> ls \<longrightarrow> r' = r))
      | None \<Rightarrow> u \<noteq> new_v4 amb 0 \<longrightarrow> find_by acc_id u (accounts d') = None)"

definition changed :: "Ambient \<Rightarrow> Lock set \<Rightarrow> Database \<Rightarrow> Database \<Rightarrow> bool" where
  "changed amb ls d d' \<longleftrightarrow> changed_accounts amb ls d d'
     \<and> (\<exists>ts. transfers d' = transfers d @ ts
          \<and> (\<forall>t \<in> set ts. tr_id t = new_v4 amb 0 \<and> (\<forall>u. reverses t = Some u \<longrightarrow> Transfer_Lock u \<in> ls)))
     \<and> (\<exists>es. account_entries d' = account_entries d @ es \<and> (\<forall>e \<in> set es. en_id e \<in> {new_v4 amb 1, new_v4 amb 2}))
     \<and> (\<exists>rs. idempotency_records d' = idempotency_records d @ rs \<and> (\<forall>r \<in> set rs. Key_Lock (idem_row_key r) \<in> ls))
     \<and> exchange_rates d' = exchange_rates d \<and> fx_fee_rules d' = fx_fee_rules d"

lemma same_identity_refl [simp]: "same_identity r r"
  by (simp add: same_identity_def)

lemma changed_refl: "changed amb ls d d"
  by (auto simp: changed_def changed_accounts_def split: option.split)

lemma changed_account:
  assumes "find_by acc_id (new_v4 amb 0) (accounts d) = None"
    and "Key_Lock (c, ACCOUNT_CREATION_OPERATION, k) \<in> ls"
  shows "changed amb ls d (account_created P st amb c k cur balance shown d)"
  using assms
  by (auto simp: changed_def changed_accounts_def account_created_def find_by_append new_account_id
      split: option.split)

lemma changed_accounts_posting:
  assumes "s \<noteq> t" and "accounts d' = write_balances now [(s, sb), (t, db)] (accounts d)"
    and "{Account_Lock s, Account_Lock t} \<subseteq> ls"
  shows "changed_accounts amb ls d d'"
  using assms
  by (auto simp: changed_accounts_def find_write_balances same_identity_def split: option.split)

lemma changed_posting:
  assumes "tr_source t \<noteq> tr_destination t" and "tr_id t = new_v4 amb 0"
    and "{Key_Lock (idem_row_key r), Account_Lock (tr_source t), Account_Lock (tr_destination t)} \<subseteq> ls"
  shows "reverses t = None \<Longrightarrow> changed amb ls d (transfer_applied amb t sb db r d)"
    and "reverses t = Some u \<Longrightarrow> Transfer_Lock u \<in> ls \<Longrightarrow> changed amb ls d (reversal_applied amb t sb db r d)"
  using assms changed_accounts_posting [OF assms(1)]
  by (auto simp: changed_def transfer_entries_def reversal_entries_def Let_def)

lemma changed_row:
  assumes "changed amb ls d d'" and "find_by acc_id u (accounts d) = Some r"
  obtains r' where "find_by acc_id u (accounts d') = Some r'" and "same_identity r r'"
    and "Account_Lock u \<notin> ls \<Longrightarrow> r' = r"
proof -
  have "\<exists>r'. find_by acc_id u (accounts d') = Some r' \<and> same_identity r r' \<and> (Account_Lock u \<notin> ls \<longrightarrow> r' = r)"
    using spec [OF assms(1) [unfolded changed_def changed_accounts_def, THEN conjunct1], of u] by (simp add: assms(2))
  then show thesis using that by blast
qed

lemma changed_no_row:
  assumes "changed amb ls d d'" and "find_by acc_id u (accounts d) = None" and "u \<noteq> new_v4 amb 0"
  shows "find_by acc_id u (accounts d') = None"
  using spec [OF assms(1) [unfolded changed_def changed_accounts_def, THEN conjunct1], of u] assms(2,3) by simp

lemma changed_request:
  assumes ch: "changed amb ls d d'" and req: "decide_request call d = Inr x"
  shows "decide_request call d' = Inr x"
proof (cases call)
  case (Post_Transfer P c headers request)
  obtain y where x: "x = Transfer_Request y" and y: "transfer_request_decision P headers request d = Inr y"
    by (rule decided_transfer [OF req [unfolded Post_Transfer]])
  obtain k source destination p fin amount where y': "y = (k, source, destination, p, fin, amount)" by (cases y)
  obtain req where v: "validate_transfer P headers request = Inr (k, req, source, destination)"
    using y by (auto simp: transfer_request_decision_def y' split: sum.splits option.splits)
  obtain a b where ab: "find_by acc_id source (accounts d) = Some a" "find_by acc_id destination (accounts d) = Some b"
    using y by (auto simp: transfer_request_decision_def v split: option.splits)
  obtain a' where a': "find_by acc_id source (accounts d') = Some a'" "same_identity a a'"
    by (rule changed_row [OF ch ab(1)])
  obtain b' where b': "find_by acc_id destination (accounts d') = Some b'" "same_identity b b'"
    by (rule changed_row [OF ch ab(2)])
  have "preliminary_of a' b' = preliminary_of a b"
    using a'(2) b'(2) by (simp add: preliminary_of_def same_identity_def)
  then have "transfer_request_decision P headers request d' = transfer_request_decision P headers request d"
    by (simp add: transfer_request_decision_def v ab a'(1) b'(1) split: sum.split)
  then show ?thesis by (simp add: Post_Transfer x y)
qed (use req in simp_all)

lemma changed_key:
  assumes ch: "changed amb ls d d'" and own: "key_owned call x d" and free: "Key_Lock (key_of (client_of call) x) \<notin> ls"
  shows "key_owned call x d'"
proof -
  obtain rs where "idempotency_records d' = idempotency_records d @ rs"
    and "\<forall>r \<in> set rs. Key_Lock (idem_row_key r) \<in> ls"
    using ch unfolding changed_def by blast
  moreover from this(2) free have "find_by idem_row_key (key_of (client_of call) x) rs = None"
    by (auto simp: find_by_None_iff)
  ultimately show ?thesis
    using own changed_request [OF ch] by (auto simp: key_owned_def answer_Fresh_iff find_by_append)
qed

lemma changed_found:
  assumes ch: "changed amb ls d d'" and found: "original_found call k oid t d"
    and free: "Key_Lock (key_of (client_of call) (Reversal_Request k oid)) \<notin> ls"
  shows "original_found call k oid t d'"
proof -
  obtain ts where "transfers d' = transfers d @ ts" using ch unfolding changed_def by blast
  then show ?thesis
    using found changed_key [OF ch _ free] by (auto simp: original_found_def find_by_append)
qed

lemma changed_owned:
  assumes ch: "changed amb ls d d'" and owned: "original_owned call k oid t d"
    and free: "Key_Lock (key_of (client_of call) (Reversal_Request k oid)) \<notin> ls"
  shows "original_owned call k oid t d'"
proof -
  obtain r where r: "find_by acc_id (tr_destination t) (accounts d) = Some r" "owner_id r = client_of call"
    using owned by (auto simp: original_owned_def)
  from changed_row [OF ch r(1)] obtain r' where
    "find_by acc_id (tr_destination t) (accounts d') = Some r'" "same_identity r r'" by blast
  then show ?thesis
    using owned r(2) changed_found [OF ch _ free] by (auto simp: original_owned_def same_identity_def)
qed

lemma changed_configuration:
  assumes "changed amb ls d d'"
  shows "read_configuration x now d' = read_configuration x now d"
proof -
  have "exchange_rates d' = exchange_rates d" "fx_fee_rules d' = fx_fee_rules d"
    using assms by (simp_all add: changed_def)
  then have "chosen_rate u v now d' = chosen_rate u v now d" "chosen_fee u v now d' = chosen_fee u v now d" for u v
    by (simp_all add: chosen_rate_def chosen_fee_def Let_def)
  then show ?thesis by (simp add: read_configuration_def fx_decision_def split: prod.split sum.split)
qed

lemma changed_plan:
  assumes ch: "changed amb' ls d d'" and stands: "plan_stands call amb plan d"
    and free: "ls \<inter> plan_locks (client_of call) plan = {}"
  shows "plan_stands call amb plan d'"
proof (cases plan)
  case (Transfer_Plan x fx)
  then show ?thesis
    using stands free changed_key [OF ch] changed_configuration [OF ch]
    by (auto simp: plan_stands_def plan_locks_def)
next
  case (Reversal_Plan k oid t)
  obtain ts where "transfers d' = transfers d @ ts"
    and "\<forall>t \<in> set ts. \<forall>u. reverses t = Some u \<longrightarrow> Transfer_Lock u \<in> ls"
    using ch unfolding changed_def by blast
  then have "list_ex (\<lambda>u. reverses u = Some oid) (transfers d')
      = list_ex (\<lambda>u. reverses u = Some oid) (transfers d)"
    using free by (auto simp: Reversal_Plan plan_locks_def list_ex_iff)
  then show ?thesis
    using stands free changed_owned [OF ch] by (auto simp: plan_stands_def plan_locks_def Reversal_Plan)
qed

lemma changed_decision:
  assumes ch: "changed amb' ls d d'" and dec: "decide_locked P amb c plan d = Inr y" and free: "ls \<inter> plan_rows plan = {}"
  shows "decide_locked P amb c plan d' = Inr y"
proof -
  obtain a b where rows: "find_by acc_id (plan_source plan) (accounts d) = Some a"
    "find_by acc_id (plan_destination plan) (accounts d) = Some b"
    using dec by (auto simp: decide_locked_def split: option.splits)
  have "find_by acc_id (plan_source plan) (accounts d') = Some a"
    by (rule changed_row [OF ch rows(1)]) (use free in \<open>auto simp: plan_rows_def\<close>)
  moreover have "find_by acc_id (plan_destination plan) (accounts d') = Some b"
    by (rule changed_row [OF ch rows(2)]) (use free in \<open>auto simp: plan_rows_def\<close>)
  ultimately show ?thesis using dec by (simp add: decide_locked_def rows)
qed

lemma agrees_changed:
  assumes "write_agrees (call, amb) q d" and "changed amb' ls d d'" and "ls \<inter> write_holds (call, amb) q = {}"
  shows "write_agrees (call, amb) q d'"
  using assms changed_request [OF assms(2)] changed_key [OF assms(2)] changed_found [OF assms(2)]
    changed_owned [OF assms(2)] changed_plan [OF assms(2)] changed_decision [OF assms(2)]
  by (cases q) (auto simp: Int_Un_distrib)

lemma ready_changed:
  assumes "job_ready st (call, amb) d" and "changed amb' ls d d'" and "ids_apart amb amb'"
  shows "job_ready st (call, amb) d'"
proof -
  have no_row: "find_by acc_id (new_v4 amb 0) (accounts d') = None"
    by (rule changed_no_row [OF assms(2)]) (use assms(1,3) in \<open>simp_all add: job_ready_def ids_apart_def\<close>)
  obtain ts es where "transfers d' = transfers d @ ts" "\<forall>t \<in> set ts. tr_id t = new_v4 amb' 0"
    "account_entries d' = account_entries d @ es" "\<forall>e \<in> set es. en_id e \<in> {new_v4 amb' 1, new_v4 amb' 2}"
    using assms(2) unfolding changed_def by blast
  moreover from this(2,4) have "find_by tr_id (new_v4 amb 0) ts = None" "find_by en_id (new_v4 amb 1) es = None"
    "find_by en_id (new_v4 amb 2) es = None"
    using assms(3) by (auto simp: ids_apart_def find_by_None_iff)
  ultimately show ?thesis
    using assms(1) no_row by (simp add: job_ready_def fresh_ids_def find_by_append)
qed

section \<open>The end of a job\<close>

lemma decided_posting:
  assumes stands: "plan_stands call amb plan d" and dec: "decide_locked P amb c plan d = Inr (t, sb, db, result)"
  shows "tr_id t = new_v4 amb 0" and "tr_source t = plan_source plan" and "tr_destination t = plan_destination plan"
    and "reverses t = (case plan of Transfer_Plan x fx \<Rightarrow> None | Reversal_Plan k oid original \<Rightarrow> Some oid)"
    and "plan_source plan \<noteq> plan_destination plan"
proof -
  obtain a b where rows: "find_by acc_id (plan_source plan) (accounts d) = Some a"
    "find_by acc_id (plan_destination plan) (accounts d) = Some b"
    using dec by (auto simp: decide_locked_def split: option.splits)
  have "plan_source plan \<noteq> plan_destination plan \<and> tr_id t = new_v4 amb 0 \<and> tr_source t = plan_source plan
      \<and> tr_destination t = plan_destination plan
      \<and> reverses t = (case plan of Transfer_Plan x fx \<Rightarrow> None | Reversal_Plan k oid original \<Rightarrow> Some oid)"
  proof (cases plan)
    case (Transfer_Plan x fx)
    have own: "key_owned call (Transfer_Request x) d" using stands by (simp add: plan_stands_def Transfer_Plan)
    obtain P' c' headers request where "transfer_request_decision P' headers request d = Inr x"
      by (rule owned_transfer_call [OF own])
    moreover obtain k source destination p fin amount where x: "x = (k, source, destination, p, fin, amount)"
      by (cases x)
    ultimately have "source \<noteq> destination" by (simp add: decided_locks(2))
    moreover have "acc_id a = source" "acc_id b = destination"
      using rows by (auto simp: Transfer_Plan x dest: find_by_SomeD)
    moreover obtain ta where "t = new_transfer amb c a b amount ta"
      using dec rows by (auto simp: decide_locked_def decide_transfer_def Transfer_Plan x Let_def
          split: sum.splits)
    ultimately show ?thesis by (simp add: Transfer_Plan x)
  next
    case (Reversal_Plan k oid original)
    have "t = reversal_row amb c oid original"
      using dec rows by (auto simp: decide_locked_def decide_return_def Reversal_Plan Let_def
          split: option.splits if_splits)
    then show ?thesis
      using stands by (auto simp: Reversal_Plan plan_stands_def original_owned_def original_found_def)
  qed
  then show "tr_id t = new_v4 amb 0" and "tr_source t = plan_source plan" and "tr_destination t = plan_destination plan"
    and "reverses t = (case plan of Transfer_Plan x fx \<Rightarrow> None | Reversal_Plan k oid original \<Rightarrow> Some oid)"
    and "plan_source plan \<noteq> plan_destination plan" by auto
qed

lemma apply_plan_accounts:
  "accounts (apply_plan P st amb c plan t sb db body d) =
     write_balances (tx_time amb) [(tr_source t, sb), (tr_destination t, db)] (accounts d)"
  by (simp add: apply_plan_def Let_def split: Plan.split)

lemma posting_changes:
  assumes "plan_stands call amb plan d"
    and "decide_locked (platform_of call) amb (client_of call) plan d = Inr (t, sb, db, result)"
  shows "changed amb (write_holds (call, amb) (Decided plan y)) d
    (apply_plan (platform_of call) st amb (client_of call) plan t sb db body d)"
  using decided_posting [OF assms] changed_posting
  by (auto simp: apply_plan_def Let_def plan_locks_def plan_rows_def split: Plan.splits)

lemma write_call_ledger:
  assumes "write_call st (call, amb) d = (r, d')" and "ledger_ok d"
  shows "ledger_ok d'"
proof -
  obtain s' where run: "perform call st amb (demo_session d) = (r, s')" and d': "d' = committed s'"
    using assms(1) by (auto simp: write_call_def split: prod.splits)
  have led: "ledger_ok (committed (demo_session d))" using assms(2) by (simp add: demo_answers)
  show ?thesis unfolding d'
  proof (cases call)
    case (Open_Account P c headers request)
    have "create_account P st amb c headers request (demo_session d) = (r, s')"
      using run by (simp add: Open_Account)
    then have "account_creation_change (committed (demo_session d)) (committed s')"
      unfolding account_creation_change_def commits_def by blast
    then show "ledger_ok (committed s')" by (rule account_creation.keeps_ledger [OF led])
  next
    case (Post_Transfer P c headers request)
    show "ledger_ok (committed s')"
      by (rule transfer.keeps_ledger [OF led create_transfer_change]) (use run in \<open>simp add: Post_Transfer\<close>)
  next
    case (Return_Transfer P c headers transfer_id)
    show "ledger_ok (committed s')"
      by (rule reversal.keeps_ledger [OF led reverse_transfer_change]) (use run in \<open>simp add: Return_Transfer\<close>)
  qed
qed

lemma room_unchanged: "ledger_room (Suc n) d \<Longrightarrow> ledger_room n d"
  by (auto simp: ledger_room_def list_all_iff)

lemma room_after_posting:
  assumes room: "ledger_room (Suc n) d" and ne: "s \<noteq> t" and led: "ledger_ok d'"
    and rows: "accounts d' = write_balances now [(s, sb), (t, db)] (accounts d)"
  shows "ledger_room n d'"
proof -
  have "distinct (map acc_id (accounts d))"
    using room by (simp add: ledger_room_def ledger_ok_def schema_ok_def keys_ok_def)
  moreover have "list_all (\<lambda>r. sint (acc_version r) < i64_max - int n) (accounts d)" and "i64_max - int n \<le> i64_max"
    using room by (auto simp: ledger_room_def list_all_iff)
  ultimately have "list_all (\<lambda>r. sint (acc_version r) < i64_max - int n + 1) (accounts d')"
    unfolding rows by (intro write_balances_versions ne)
  then show ?thesis using room led by (auto simp: ledger_room_def list_all_iff)
qed

lemma room_after_account:
  assumes room: "ledger_room (Suc n) d" and led: "ledger_ok (account_created P st amb c k cur balance shown d)"
  shows "ledger_room n (account_created P st amb c k cur balance shown d)"
  using room led by (auto simp: ledger_room_def account_created_def new_account_def list_all_iff)

section \<open>The laws of the interface\<close>

lemma begin_locking_agrees:
  assumes room: "ledger_room n d" and stands: "plan_stands call amb plan d"
  shows "write_agrees (call, amb) (begin_locking plan d) d" and "write_work (begin_locking plan d) \<le> 3"
proof -
  have schema: "schema_ok d" using room by (auto simp: ledger_room_def dest: ledger_okD)
  have "find_by acc_id (plan_source plan) (accounts d) \<noteq> None \<and> find_by acc_id (plan_destination plan) (accounts d) \<noteq> None"
  proof (cases plan)
    case (Transfer_Plan x fx)
    have "key_owned call (Transfer_Request x) d" using stands by (simp add: plan_stands_def Transfer_Plan)
    then obtain P c headers request where "transfer_request_decision P headers request d = Inr x"
      by (rule owned_transfer_call)
    then show ?thesis
      by (auto simp: transfer_request_decision_def Transfer_Plan split: sum.splits option.splits)
  next
    case (Reversal_Plan k oid t)
    have "t \<in> set (transfers d)"
      using stands by (auto simp: plan_stands_def original_owned_def original_found_def Reversal_Plan dest: find_by_SomeD)
    then have "transfer_refs_ok d t" using schema by (simp add: schema_ok_def refs_ok_def list_all_iff)
    then show ?thesis by (simp add: transfer_refs_ok_def Reversal_Plan find_by_None_iff del: not_None_eq)
  qed
  then have "set (row_locks [plan_source plan, plan_destination plan] d) = plan_rows plan"
    by (auto simp: set_row_locks plan_rows_def)
  then show "write_agrees (call, amb) (begin_locking plan d) d"
    using stands sorted_row_locks [OF schema] by (simp add: begin_locking_def)
  show "write_work (begin_locking plan d) \<le> 3"
    using row_locks_length [OF schema, of "[plan_source plan, plan_destination plan]"] by (simp add: begin_locking_def)
qed

lemma begin_locking_holds:
  "write_holds (call, amb) (begin_locking plan d) = plan_locks (client_of call) plan"
  by (simp add: begin_locking_def)

lemma statement_goes_on:
  assumes ready: "job_ready st (call, amb) d" and room: "ledger_room (Suc n) d"
    and agree: "write_agrees (call, amb) p d" and step: "write_statement st (call, amb) p d = Inl q"
  shows "write_agrees (call, amb) q d
    \<and> write_holds (call, amb) q \<subseteq> write_holds (call, amb) p \<union> set_option (write_wants (call, amb) p)
    \<and> write_work q < write_work p"
proof (cases p)
  case Waiting
  then show ?thesis using step by (auto simp: refuse_def split: sum.splits)
next
  case (Opened x)
  have "q = Reserved x \<and> record_store.answer d (key_of (client_of call) x) (print_of (platform_of call) x) = Fresh"
    using step by (auto simp: Opened reserve_statement_def refuse_def split: answer.splits)
  then show ?thesis using agree by (simp add: Opened key_owned_def)
next
  case (Reserved x)
  show ?thesis
  proof (cases x)
    case (Account_Request k cur balance)
    then show ?thesis using step by (auto simp: Reserved reserved_statement_def created_def split: option.splits)
  next
    case (Transfer_Request y)
    obtain fx where fx: "read_configuration y (tx_time amb) d = Inr fx" and q: "q = begin_locking (Transfer_Plan y fx) d"
      using step by (auto simp: Reserved Transfer_Request reserved_statement_def refuse_def split: sum.splits)
    have stands: "plan_stands call amb (Transfer_Plan y fx) d"
      using agree fx by (simp add: plan_stands_def Reserved Transfer_Request)
    show ?thesis
      using begin_locking_agrees [OF room stands]
      by (simp add: q begin_locking_holds) (simp add: Reserved Transfer_Request plan_locks_def)
  next
    case (Reversal_Request k oid)
    obtain t where t: "find_by tr_id oid (transfers d) = Some t" "tr_kind t \<noteq> Kind_Reversal" "q = Found k oid t"
      using step by (auto simp: Reserved Reversal_Request reserved_statement_def refuse_def split: option.splits if_splits)
    have "transfer_check t"
      using room t(1) by (auto simp: ledger_room_def dest: ledger_okD intro: schema_transfer_check)
    then show ?thesis
      using agree t by (simp add: Reserved Reversal_Request original_found_def transfer_check_def)
  qed
next
  case (Found k oid t)
  then show ?thesis using step agree by (auto simp: refuse_def original_owned_def split: if_splits)
next
  case (Owned k oid t)
  have q: "q = begin_locking (Reversal_Plan k oid t) d" and free: "\<not> list_ex (\<lambda>u. reverses u = Some oid) (transfers d)"
    using step by (auto simp: Owned refuse_def split: if_splits)
  have stands: "plan_stands call amb (Reversal_Plan k oid t) d"
    using agree free by (simp add: plan_stands_def Owned)
  show ?thesis
    using begin_locking_agrees [OF room stands]
    by (simp add: q begin_locking_holds) (simp add: Owned plan_locks_def)
next
  case (Locking plan taken todo)
  show ?thesis
  proof (cases todo)
    case Nil
    obtain y where "q = Decided plan y" "decide_locked (platform_of call) amb (client_of call) plan d = Inr y"
      using step by (auto simp: Locking Nil refuse_def split: sum.splits)
    then show ?thesis using agree by (simp add: Locking Nil)
  next
    case (Cons l ls)
    then show ?thesis using step agree by (auto simp: Locking)
  qed
next
  case (Decided plan y)
  then show ?thesis using step by (cases y) (auto simp: created_def split: sum.splits)
qed

lemma refused_ends:
  assumes "ledger_room (Suc n) d" and "write_call st (call, amb) d = (Inl (Fail e), d)"
    and "refuse e d = Inr (r, d')"
  shows "write_call st (call, amb) d = (r, d') \<and> changed amb ls d d' \<and> ledger_room n d'"
  using assms by (auto simp: refuse_def changed_refl room_unchanged)

lemma statement_ends:
  assumes ready: "job_ready st (call, amb) d" and room: "ledger_room (Suc n) d"
    and agree: "write_agrees (call, amb) p d" and step: "write_statement st (call, amb) p d = Inr (r, d')"
  shows "write_call st (call, amb) d = (r, d') \<and> changed amb (write_holds (call, amb) p) d d' \<and> ledger_room n d'"
proof (cases p)
  case Waiting
  then show ?thesis
    using step refused_ends [OF room write_call_refused [OF ready room]] by (auto split: sum.splits)
next
  case (Opened x)
  have req: "decide_request call d = Inr x" using agree by (simp add: Opened)
  have known: "record_store.answer d (key_of (client_of call) x) (print_of (platform_of call) x) \<noteq> Fresh"
    and same: "d' = d"
    using step by (auto simp: Opened reserve_statement_def refuse_def split: answer.splits)
  show ?thesis
    using write_call_known [OF ready room req known] step
    by (simp add: Opened same changed_refl room_unchanged [OF room])
next
  case (Reserved x)
  show ?thesis
  proof (cases x)
    case (Account_Request k cur balance)
    have req: "decide_request call d = Inr (Account_Request k cur balance)"
      and fresh: "record_store.answer d (key_of (client_of call) (Account_Request k cur balance))
          (print_of (platform_of call) (Account_Request k cur balance)) = Fresh"
      using agree by (simp_all add: Reserved Account_Request key_owned_def)
    obtain shown where call: "write_call st (call, amb) d = (r, d')"
      and d': "d' = account_created (platform_of call) st amb (client_of call) k cur balance shown d"
      using write_call_account [OF ready room req fresh] step by (auto simp: Reserved Account_Request)
    have "find_by acc_id (new_v4 amb 0) (accounts d) = None" using ready by (simp add: job_ready_def)
    then have "changed amb (write_holds (call, amb) p) d d'"
      unfolding d' by (rule changed_account) (simp add: Reserved Account_Request)
    moreover have "ledger_ok d'"
      by (rule write_call_ledger [OF call]) (use room in \<open>simp add: ledger_room_def\<close>)
    ultimately show ?thesis using call room_after_account [OF room] by (simp add: d')
  next
    case (Transfer_Request y)
    obtain e where "read_configuration y (tx_time amb) d = Inl e" "refuse e d = Inr (r, d')"
      using step by (auto simp: Reserved Transfer_Request reserved_statement_def split: sum.splits)
    then show ?thesis
      using refused_ends [OF room write_call_transfer_refused [OF ready room]] agree
      by (simp add: Reserved Transfer_Request)
  next
    case (Reversal_Request k oid)
    have own: "key_owned call (Reversal_Request k oid) d" using agree by (simp add: Reserved Reversal_Request)
    obtain e where "reversal_decision (client_of call) oid d = Inl e" "refuse e d = Inr (r, d')"
      using step reversal_decision_stages(1,2)
      by (auto simp: Reserved Reversal_Request reserved_statement_def split: option.splits if_splits)
    then show ?thesis
      using refused_ends [OF room write_call_reversal_refused [OF ready room own]] by blast
  qed
next
  case (Found k oid t)
  have found: "original_found call k oid t d" using agree by (simp add: Found)
  have "reversal_decision (client_of call) oid d = Inl NotFound" "refuse NotFound d = Inr (r, d')"
    using step found reversal_decision_stages(3) [of oid d t "client_of call"]
    by (auto simp: Found original_found_def split: if_splits)
  then show ?thesis
    using refused_ends [OF room write_call_reversal_refused [OF ready room]] found
    unfolding original_found_def by blast
next
  case (Owned k oid t)
  have owned: "original_owned call k oid t d" using agree by (simp add: Owned)
  have "reversal_decision (client_of call) oid d = Inl transfer_already_reversed"
    "refuse transfer_already_reversed d = Inr (r, d')"
    using step owned reversal_decision_stages(4) [of oid d t "client_of call"]
    by (auto simp: Owned original_owned_def original_found_def split: if_splits)
  then show ?thesis
    using refused_ends [OF room write_call_reversal_refused [OF ready room]] owned
    unfolding original_owned_def original_found_def by blast
next
  case (Locking plan taken todo)
  have stands: "plan_stands call amb plan d" using agree by (simp add: Locking)
  obtain e where refused: "decide_locked (platform_of call) amb (client_of call) plan d = Inl e" "refuse e d = Inr (r, d')"
    using step by (cases todo) (auto simp: Locking split: sum.splits)
  have "write_call st (call, amb) d = (Inl (Fail e), d)"
  proof (cases plan)
    case (Transfer_Plan x fx)
    then show ?thesis
      using write_call_transfer_refused [OF ready room, of x e] stands refused(1) by (auto simp: plan_stands_def)
  next
    case (Reversal_Plan k oid t)
    have "reversal_decision (client_of call) oid d = Inl e"
      by (rule reversal_decision_posting(1) [of oid d t _ "platform_of call" amb k])
         (use stands refused(1) in \<open>simp_all add: plan_stands_def Reversal_Plan original_owned_def original_found_def\<close>)
    then show ?thesis
      using write_call_reversal_refused [OF ready room, of k oid e] stands
      by (simp add: plan_stands_def Reversal_Plan original_owned_def original_found_def)
  qed
  from refused_ends [OF room this refused(2)] show ?thesis .
next
  case (Decided plan y)
  obtain t sb db result where y: "y = (t, sb, db, result)" by (cases y)
  have stands: "plan_stands call amb plan d"
    and dec: "decide_locked (platform_of call) amb (client_of call) plan d = Inr (t, sb, db, result)"
    using agree by (simp_all add: Decided y)
  from write_call_posted [OF ready room stands dec] step obtain body where
    call: "write_call st (call, amb) d = (r, d')"
    and d': "d' = apply_plan (platform_of call) st amb (client_of call) plan t sb db body d"
    by (auto simp: Decided y created_def)
  have "ledger_ok d'"
    by (rule write_call_ledger [OF call]) (use room in \<open>simp add: ledger_room_def\<close>)
  moreover have "tr_source t \<noteq> tr_destination t" using decided_posting [OF stands dec] by simp
  ultimately have "ledger_room n d'"
    using room_after_posting [OF room, of "tr_source t" "tr_destination t" d'] by (simp add: d' apply_plan_accounts)
  then show ?thesis using call posting_changes [OF stands dec, of y st body] by (simp add: Decided d')
qed

lemma wanted_in_order:
  assumes "write_agrees (call, amb) p d" and "l \<in> write_holds (call, amb) p" and "write_wants (call, amb) p = Some l'"
  shows "l < l'"
proof (cases p)
  case (Reserved x)
  then show ?thesis using assms(2,3) by (cases x) auto
next
  case (Locking plan taken todo)
  obtain ls where todo: "todo = l' # ls" using assms(3) by (cases todo) (simp_all add: Locking)
  have "l' \<in> plan_rows plan" and "\<forall>m \<in> set taken. m < l'"
    using assms(1) by (auto simp: Locking todo sorted_wrt_append)
  then show ?thesis
    using assms(2) by (auto simp: Locking plan_locks_def plan_rows_def split: Plan.splits)
qed (use assms in simp_all)

interpretation serial_writes: two_phase
  "\<lambda>j. Waiting" "write_statement st" write_wants write_holds write_work "write_call st" ledger_room "job_ready st"
  write_agrees "\<lambda>(call, amb) ls. changed amb ls" "\<lambda>(call, amb) (call', amb'). ids_apart amb amb'" for st
proof unfold_locales
  fix j :: Write_Job and d
  obtain call amb where j: "j = (call, amb)" by (cases j)
  show "write_holds j Waiting = {}" "write_agrees j Waiting d" by (simp_all add: j)
next
  fix n d p q and j :: Write_Job
  assume "ledger_room (Suc n) d" "job_ready st j d" "write_agrees j p d" "write_statement st j p d = Inl q"
  then show "write_agrees j q d \<and> write_holds j q \<subseteq> write_holds j p \<union> set_option (write_wants j p)
      \<and> write_work q < write_work p"
    using statement_goes_on by (cases j) blast
next
  fix n d p r d' and j :: Write_Job
  assume "ledger_room (Suc n) d" "job_ready st j d" "write_agrees j p d" "write_statement st j p d = Inr (r, d')"
  then show "write_call st j d = (r, d') \<and> (case j of (call, amb) \<Rightarrow> changed amb) (write_holds j p) d d'
      \<and> ledger_room n d'"
    using statement_ends by (cases j) auto
next
  fix i j :: Write_Job and p d ls d'
  assume "write_agrees i p d" "(case j of (call, amb) \<Rightarrow> changed amb) ls d d'" "ls \<inter> write_holds i p = {}"
  then show "write_agrees i p d'" by (cases i; cases j) (auto intro: agrees_changed)
next
  fix i j :: Write_Job and d ls d'
  assume "job_ready st i d" "(case j of (call, amb) \<Rightarrow> changed amb) ls d d'"
    "(case i of (call, amb) \<Rightarrow> \<lambda>(call', amb'). ids_apart amb amb') j"
  then show "job_ready st i d'" by (cases i; cases j) (auto intro: ready_changed)
next
  fix j :: Write_Job and p d l l'
  assume "write_agrees j p d" "l \<in> write_holds j p" "write_wants j p = Some l'"
  then show "l < l'" using wanted_in_order by (cases j) blast
qed

section \<open>Serializability and progress\<close>

type_synonym Write_State = "(Phase, AppError fault + Response, Database) Shared"

definition write_step :: "AppState \<Rightarrow> Write_Job list \<Rightarrow> Write_State \<Rightarrow> Write_State \<Rightarrow> bool" where
  "write_step st jobs = interleaved (write_statement st) write_wants write_holds jobs"

definition writes_waiting :: "Write_Job list \<Rightarrow> Database \<Rightarrow> Write_State" where
  "writes_waiting jobs d = all_waiting (\<lambda>j. Waiting) jobs d"

definition concurrent_start :: "AppState \<Rightarrow> Write_Job list \<Rightarrow> Database \<Rightarrow> bool" where
  "concurrent_start st jobs d \<longleftrightarrow>
     ledger_room (length jobs) d \<and> list_all (\<lambda>j. job_ready st j d) jobs
     \<and> sorted_wrt ids_apart (map snd jobs)"

lemma concurrent_good:
  assumes "concurrent_start st jobs d"
  shows "serial_writes.good_start st jobs d"
proof -
  have ordered: "ids_apart (snd (jobs ! i)) (snd (jobs ! k))" if "i < k" "k < length jobs" for i k
    using assms that by (auto simp: concurrent_start_def sorted_wrt_iff_nth_less)
  have "ids_apart (snd (jobs ! i)) (snd (jobs ! k))" if "i < length jobs" "k < length jobs" "i \<noteq> k" for i k
    using ordered [of i k] ordered [of k i] that by (cases "i < k") (auto simp: ids_apart_sym)
  then show ?thesis
    using assms
    by (simp add: serial_writes.good_start_def concurrent_start_def list_all_iff split_beta)
qed

text \<open>
  C3: Concurrent writes are serializable: however the statements of account creations, transfers and
  reversals interleave, and whichever of them are abandoned, at any moment the committed ledger is
  the one the handlers leave when they run once for each request that has ended, one after the
  other in the order in which they ended, each client has been given the answer of that serial run,
  and the ledger is sound.  So no update is lost, no key is posted twice, no transfer is reversed
  twice and no money appears, whatever the interleaving.
\<close>

theorem interleaved_writes_serialize:
  assumes "concurrent_start st jobs d" and "rtranclp (write_step st jobs) (writes_waiting jobs d) s"
  shows "\<exists>rs. serial (write_call st) jobs (sh_ended s) d = (rs, sh_db s)
    \<and> map Answered rs = map ((!) (sh_jobs s)) (sh_ended s)
    \<and> distinct (sh_ended s) \<and> set (sh_ended s) = {i. i < length jobs \<and> sh_jobs s ! i \<in> range Answered}
    \<and> ledger_ok (sh_db s)"
  using serial_writes.serializable [OF concurrent_good [OF assms(1)] assms(2) [unfolded write_step_def writes_waiting_def]]
  unfolding serial_writes.serial_so_far_def ledger_room_def by blast

text \<open>
  C8: Concurrent writes finish: as long as one of them has neither been answered nor been abandoned,
  some write can run its next statement without another one being abandoned, so they never
  all wait for each other's locks; and every statement leaves fewer to run, at most nine for each,
  so after finitely many of them every client has its answer or has given up.
\<close>

theorem concurrent_writes_finish:
  assumes "concurrent_start st jobs d" and "rtranclp (write_step st jobs) (writes_waiting jobs d) s"
  shows "((\<exists>i < length jobs. \<exists>p. sh_jobs s ! i = Working p) \<longrightarrow>
      (\<exists>s'. write_step st jobs s s' \<and> (\<forall>i. sh_jobs s' ! i = Abandoned \<longrightarrow> sh_jobs s ! i = Abandoned)))
    \<and> (\<forall>s'. write_step st jobs s s' \<longrightarrow> total_work write_work s' < total_work write_work s)
    \<and> total_work write_work (writes_waiting jobs d) = 9 * length jobs"
proof -
  note run = concurrent_good [OF assms(1)] assms(2) [unfolded write_step_def writes_waiting_def]
  have "total_work write_work (writes_waiting jobs d) = 9 * length jobs"
    by (simp add: total_work_def writes_waiting_def all_waiting_def comp_def sum_list_triv)
  then show ?thesis
    using serial_writes.progress [OF run] unfolding write_step_def by blast
qed

section \<open>A concrete interleaving\<close>

definition demo_jobs :: "Write_Job list" where
  "demo_jobs =
     [(Post_Transfer demo_platform ''alice'' demo_headers demo_transfer_request, at_ambient demo_first),
      (Post_Transfer demo_platform ''dave'' demo_headers (at_request demo_second), at_ambient demo_second)]"

definition demo_data_first :: Transfer_Data where
  "demo_data_first = (''k1'', 1, 2, \<lparr>pre_source_currency = ''PLN'', pre_source_scale = 2,
     pre_destination_currency = ''PLN'', pre_destination_scale = 2\<rparr>, Operation_Transfer, 1250)"

definition demo_data_second :: Transfer_Data where
  "demo_data_second = (''k1'', 4, 5, \<lparr>pre_source_currency = ''PLN'', pre_source_scale = 2,
     pre_destination_currency = ''PLN'', pre_destination_scale = 2\<rparr>, Operation_Transfer, 300)"

abbreviation demo_plan :: Plan where
  "demo_plan \<equiv> Transfer_Plan demo_data_second None"

lemma demo_concurrent: "concurrent_start demo_state demo_jobs demo_two_pairs"
proof -
  have "nonblank ''alice''" "nonblank ''dave''" by code_simp+
  then have "list_all (\<lambda>j. job_ready demo_state j demo_two_pairs) demo_jobs"
    by (simp add: demo_jobs_def job_ready_def demo_platform_ok demo_first_def demo_second_def retention_ok_def
        demo_state_def demo_ambient_def i64_max_def timestamptz_end_def fresh_ids_def demo_two_pairs_def
        demo_ledger_def demo_account_def)
  moreover have "ids_apart (at_ambient demo_first) (at_ambient demo_second)"
    by (simp add: ids_apart_def demo_first_def demo_second_def demo_ambient_def)
  moreover have "list_all (\<lambda>r. sint (acc_version r) \<le> i64_max - 2) (accounts demo_two_pairs)"
    by (simp add: demo_two_pairs_def demo_ledger_def demo_account_def i64_max_def)
  ultimately show ?thesis
    by (simp add: concurrent_start_def demo_jobs_def ledger_room_def demo_two_pairs_ok i64_max_def)
qed

theorem concurrent_writes_finish_witness:
  "\<exists>s'. write_step demo_state demo_jobs (writes_waiting demo_jobs demo_two_pairs) s'
     \<and> total_work write_work s' < 18"
proof -
  let ?s = "writes_waiting demo_jobs demo_two_pairs"
  have "\<exists>i < length demo_jobs. \<exists>p. sh_jobs ?s ! i = Working p"
    by (intro exI [of _ 0]) (simp add: writes_waiting_def all_waiting_def demo_jobs_def)
  moreover have "length demo_jobs = 2" by (simp add: demo_jobs_def)
  ultimately show ?thesis
    using concurrent_writes_finish [OF demo_concurrent rtranclp.rtrancl_refl] by auto
qed

text \<open>What the statements read.\<close>

lemma demo_requests:
  "decide_request (fst (demo_jobs ! 0)) demo_two_pairs = Inr (Transfer_Request demo_data_first)"
  "decide_request (fst (demo_jobs ! 1)) demo_two_pairs = Inr (Transfer_Request demo_data_second)"
  by (simp_all add: demo_jobs_def demo_pair_decisions demo_data_first_def demo_data_second_def)

lemma demo_reads:
  "record_store.answer demo_two_pairs k f = Fresh"
  "read_configuration demo_data_second now demo_two_pairs = Inr None"
  by (simp_all add: demo_data_second_def record_store.answer_def stored_record_def demo_two_pairs_def demo_ledger_def
      read_configuration_def fx_decision_def)

lemma demo_keys:
  "key_of ''alice'' (Transfer_Request demo_data_first) = (''alice'', TRANSFER_OPERATION, ''k1'')"
  "key_of ''dave'' (Transfer_Request demo_data_second) = (''dave'', TRANSFER_OPERATION, ''k1'')"
  by (simp_all add: demo_data_first_def demo_data_second_def operation_type_def)

lemma demo_rows: "row_locks [4, 5] demo_two_pairs = [Account_Lock 4, Account_Lock 5]"
  by code_simp

lemma demo_posting:
  "\<not> isl (decide_locked demo_platform (at_ambient demo_second) ''dave'' demo_plan demo_two_pairs)"
  by code_simp

lemma write_step_go_on:
  assumes "write_statement st (jobs ! i) p d = Inl q" and "i < length jobs" and "ph ! i = Working p"
    and "\<forall>l. write_wants (jobs ! i) p = Some l \<longrightarrow> free_for write_holds jobs ph i l"
  shows "write_step st jobs \<lparr>sh_db = d, sh_jobs = ph, sh_ended = e\<rparr>
    \<lparr>sh_db = d, sh_jobs = ph[i := Working q], sh_ended = e\<rparr>"
  using interleaved.go_on [where s = "\<lparr>sh_db = d, sh_jobs = ph, sh_ended = e\<rparr>" and advance = "write_statement st"
      and wants = write_wants and holds = write_holds and jobs = jobs and i = i and p = p and q = q] assms
  by (simp add: write_step_def)

lemma write_step_finish:
  assumes "write_statement st (jobs ! i) p d = Inr (r, d')" and "i < length jobs" and "ph ! i = Working p"
    and "\<forall>l. write_wants (jobs ! i) p = Some l \<longrightarrow> free_for write_holds jobs ph i l"
  shows "write_step st jobs \<lparr>sh_db = d, sh_jobs = ph, sh_ended = e\<rparr>
    \<lparr>sh_db = d', sh_jobs = ph[i := Answered r], sh_ended = e @ [i]\<rparr>"
  using interleaved.finish [where s = "\<lparr>sh_db = d, sh_jobs = ph, sh_ended = e\<rparr>" and advance = "write_statement st"
      and wants = write_wants and holds = write_holds and jobs = jobs and i = i and p = p and r = r and d = d'] assms
  by (simp add: write_step_def)

lemma demo_posted_body:
  assumes "decide_locked demo_platform (at_ambient demo_second) ''dave'' demo_plan demo_two_pairs = Inr (t, sb, db, result)"
  shows "\<exists>body. result = Inr body"
proof -
  let ?call = "Post_Transfer demo_platform ''dave'' demo_headers (at_request demo_second)"
  have ready: "job_ready demo_state (?call, at_ambient demo_second) demo_two_pairs" and room: "ledger_room (Suc 1) demo_two_pairs"
    using demo_concurrent by (simp_all add: concurrent_start_def demo_jobs_def)
  have stands: "plan_stands ?call (at_ambient demo_second) demo_plan demo_two_pairs"
    using demo_requests(2) by (simp add: plan_stands_def key_owned_def demo_reads demo_jobs_def)
  show ?thesis
    using write_call_posted [OF ready room stands, of t sb db result] assms by auto
qed

text \<open>The second transfer runs to its commit while the first one owns its key.\<close>

lemma demo_interleaving:
  "\<exists>s r. rtranclp (write_step demo_state demo_jobs) (writes_waiting demo_jobs demo_two_pairs) s
     \<and> sh_jobs s = [Working (Reserved (Transfer_Request demo_data_first)), Answered (Inr r)]
     \<and> sh_ended s = [1] \<and> resp_status r = 201"
proof -
  let ?x = "Transfer_Request demo_data_first" and ?y = "Transfer_Request demo_data_second"
  let ?at = "\<lambda>p q. \<lparr>sh_db = demo_two_pairs, sh_jobs = [Working p, Working q], sh_ended = []\<rparr>"
  let ?run = "write_step demo_state demo_jobs"
  obtain t sb db result where dec:
    "decide_locked demo_platform (at_ambient demo_second) ''dave'' demo_plan demo_two_pairs = Inr (t, sb, db, result)"
    using demo_posting by (cases "decide_locked demo_platform (at_ambient demo_second) ''dave'' demo_plan demo_two_pairs") auto
  note jobs = demo_jobs_def nth_Cons' free_for_def demo_keys demo_reads demo_requests [unfolded demo_jobs_def, simplified]
    reserve_statement_def reserved_statement_def begin_locking_def demo_rows
  have s1: "?run (?at Waiting Waiting) (?at (Opened ?x) Waiting)"
    using write_step_go_on [of demo_state demo_jobs 0 Waiting demo_two_pairs "Opened ?x" "[Working Waiting, Working Waiting]" "[]"]
    by (simp add: jobs)
  have s2: "?run (?at (Opened ?x) Waiting) (?at (Opened ?x) (Opened ?y))"
    using write_step_go_on [of demo_state demo_jobs 1 Waiting demo_two_pairs "Opened ?y" "[Working (Opened ?x), Working Waiting]" "[]"]
    by (simp add: jobs)
  have s3: "?run (?at (Opened ?x) (Opened ?y)) (?at (Opened ?x) (Reserved ?y))"
    using write_step_go_on [of demo_state demo_jobs 1 "Opened ?y" demo_two_pairs "Reserved ?y" "[Working (Opened ?x), Working (Opened ?y)]" "[]"]
    by (simp add: jobs)
  have s4: "?run (?at (Opened ?x) (Reserved ?y)) (?at (Reserved ?x) (Reserved ?y))"
    using write_step_go_on [of demo_state demo_jobs 0 "Opened ?x" demo_two_pairs "Reserved ?x" "[Working (Opened ?x), Working (Reserved ?y)]" "[]"]
    by (simp add: jobs split: prod.split)
  have "plan_source demo_plan = 4" "plan_destination demo_plan = 5" by (simp_all add: demo_data_second_def)
  then have s5: "?run (?at (Reserved ?x) (Reserved ?y)) (?at (Reserved ?x) (Locking demo_plan [] [Account_Lock 4, Account_Lock 5]))"
    using write_step_go_on [of demo_state demo_jobs 1 "Reserved ?y" demo_two_pairs
        "Locking demo_plan [] [Account_Lock 4, Account_Lock 5]" "[Working (Reserved ?x), Working (Reserved ?y)]" "[]"]
    by (simp add: jobs)
  have lock: "?run (?at (Reserved ?x) (Locking demo_plan taken (Account_Lock u # ls)))
      (?at (Reserved ?x) (Locking demo_plan (taken @ [Account_Lock u]) ls))" for taken u ls
    using write_step_go_on [of demo_state demo_jobs 1 "Locking demo_plan taken (Account_Lock u # ls)" demo_two_pairs
        "Locking demo_plan (taken @ [Account_Lock u]) ls"
        "[Working (Reserved ?x), Working (Locking demo_plan taken (Account_Lock u # ls))]" "[]"]
    by (simp add: jobs)
  have s8: "?run (?at (Reserved ?x) (Locking demo_plan taken [])) (?at (Reserved ?x) (Decided demo_plan (t, sb, db, result)))" for taken
    using write_step_go_on [of demo_state demo_jobs 1 "Locking demo_plan taken []" demo_two_pairs
        "Decided demo_plan (t, sb, db, result)" "[Working (Reserved ?x), Working (Locking demo_plan taken [])]" "[]"] dec
    by (simp add: jobs)
  have "rtranclp ?run (?at Waiting Waiting) (?at (Reserved ?x) (Decided demo_plan (t, sb, db, result)))"
    using s1 s2 s3 s4 s5 lock [of "[]" 4 "[Account_Lock 5]"] lock [of "[Account_Lock 4]" 5 "[]"] s8 [of "[Account_Lock 4, Account_Lock 5]"]
    by (auto intro: converse_rtranclp_into_rtranclp)
  moreover obtain body where "result = Inr body"
    using demo_posted_body [OF dec] by blast
  then have "write_step demo_state demo_jobs (?at (Reserved ?x) (Decided demo_plan (t, sb, db, result)))
      \<lparr>sh_db = apply_plan demo_platform demo_state (at_ambient demo_second) ''dave'' demo_plan t sb db body demo_two_pairs,
       sh_jobs = [Working (Reserved ?x), Answered (Inr \<lparr>resp_status = 201, resp_body = body\<rparr>)], sh_ended = [1]\<rparr>"
    using write_step_finish [of demo_state demo_jobs 1 "Decided demo_plan (t, sb, db, result)" demo_two_pairs _ _
        "[Working (Reserved ?x), Working (Decided demo_plan (t, sb, db, result))]" "[]"]
    by (simp add: jobs created_def)
  ultimately have "rtranclp ?run (?at Waiting Waiting)
      \<lparr>sh_db = apply_plan demo_platform demo_state (at_ambient demo_second) ''dave'' demo_plan t sb db body demo_two_pairs,
       sh_jobs = [Working (Reserved ?x), Answered (Inr \<lparr>resp_status = 201, resp_body = body\<rparr>)], sh_ended = [1]\<rparr>"
    by (rule rtranclp.rtrancl_into_rtrancl)
  moreover have "writes_waiting demo_jobs demo_two_pairs = ?at Waiting Waiting"
    by (simp add: writes_waiting_def all_waiting_def demo_jobs_def)
  ultimately show ?thesis by (intro exI conjI) (assumption | simp)+
qed

theorem interleaved_writes_serialize_witness:
  "\<exists>(s :: Write_State) r.
     sh_jobs s = [Working (Reserved (Transfer_Request demo_data_first)), Answered (Inr r)] \<and> resp_status r = 201
     \<and> serial (write_call demo_state) demo_jobs [1] demo_two_pairs = ([Inr r], sh_db s) \<and> ledger_ok (sh_db s)"
proof -
  obtain s r where "rtranclp (write_step demo_state demo_jobs) (writes_waiting demo_jobs demo_two_pairs) s"
    and s: "sh_jobs s = [Working (Reserved (Transfer_Request demo_data_first)), Answered (Inr r)]"
      "sh_ended s = [1]" "resp_status r = 201"
    using demo_interleaving by blast
  from interleaved_writes_serialize [OF demo_concurrent this(1)] obtain rs where
    rs: "serial (write_call demo_state) demo_jobs [1] demo_two_pairs = (rs, sh_db s)"
    and phases: "map Answered rs = map ((!) (sh_jobs s)) [1]" and ok: "ledger_ok (sh_db s)"
    unfolding s(2) by blast
  have "rs = [Inr r]" using phases by (auto simp: s(1))
  with rs have "serial (write_call demo_state) demo_jobs [1] demo_two_pairs = ([Inr r], sh_db s)" by simp
  with ok s(1,3) show ?thesis by blast
qed

end
