(* ===== verification/Openapi.thy ===== *)
theory Openapi
  imports Startup
begin

text \<open>
  Component \<open>openapi\<close> (\<open>src/openapi.rs\<close>, \<open>src/bin/generate-openapi.rs\<close>, the \<open>ToSchema\<close> structs and
  the \<open>#[utoipa::path]\<close> annotations of \<open>src/api/*.rs\<close>): the schemas of the bodies, the documented
  operations with their parameters, security and responses, and the generator that keeps the
  tracked document up to date.  Printing the document is \<open>utoipa\<close>'s, a parameter.
\<close>

section \<open>Schemas\<close>

text \<open>
  The schemas the derived \<open>ToSchema\<close> impls give (references resolved, examples left out): a \<open>Uuid\<close>
  is a string of format \<open>uuid\<close>, an \<open>iN\<close> an integer of format \<open>intN\<close>, a field of type \<open>Option\<close> is
  nullable and not required, an enum tagged by \<open>kind\<close> one of its variants.
\<close>

datatype Schema =
    S_String | S_Uuid | S_Enum "string list" | S_Integer nat | S_Any | S_Nullable Schema
  | S_Array Schema | S_Object "(string \<times> bool \<times> Schema) list" | S_One_Of "Schema list"

definition required :: "string \<Rightarrow> Schema \<Rightarrow> string \<times> bool \<times> Schema" where
  "required name s = (name, True, s)"

definition optional :: "string \<Rightarrow> Schema \<Rightarrow> string \<times> bool \<times> Schema" where
  "optional name s = (name, False, S_Nullable s)"

fun conforms :: "Platform \<Rightarrow> Schema \<Rightarrow> Value \<Rightarrow> bool" where
  "conforms P S_String v \<longleftrightarrow> (case v of JString _ \<Rightarrow> True | _ \<Rightarrow> False)"
| "conforms P S_Uuid v \<longleftrightarrow> (case v of JString t \<Rightarrow> parse_uuid P t \<noteq> None | _ \<Rightarrow> False)"
| "conforms P (S_Enum ts) v \<longleftrightarrow> (case v of JString t \<Rightarrow> t \<in> set ts | _ \<Rightarrow> False)"
| "conforms P (S_Integer n) v \<longleftrightarrow>
     (case v of JNumber i \<Rightarrow> - (2 ^ (n - 1)) \<le> i \<and> i < 2 ^ (n - 1) | _ \<Rightarrow> False)"
| "conforms P S_Any v \<longleftrightarrow> True"
| "conforms P (S_Nullable s) v \<longleftrightarrow> v = JNull \<or> conforms P s v"
| "conforms P (S_Array s) v \<longleftrightarrow> (case v of JArray vs \<Rightarrow> list_all (conforms P s) vs | _ \<Rightarrow> False)"
| "conforms P (S_Object fs) v \<longleftrightarrow>
     (case v of JObject _ \<Rightarrow> True | _ \<Rightarrow> False)
     \<and> list_all (\<lambda>(name, req, s). case json_get name v of None \<Rightarrow> \<not> req | Some x \<Rightarrow> conforms P s x) fs"
| "conforms P (S_One_Of ss) v \<longleftrightarrow> length (filter (\<lambda>s. conforms P s v) ss) = 1"

subsection \<open>Bodies\<close>

definition status_schema :: Schema where
  "status_schema = S_Object [required ''status'' S_String]"

definition create_account_request_schema :: Schema where
  "create_account_request_schema =
     S_Object [required ''currency'' S_String, required ''initial_balance'' S_String]"

definition account_created_schema :: Schema where
  "account_created_schema =
     S_Object [required ''id'' S_Uuid, required ''currency'' S_String, required ''balance'' S_String]"

definition account_balance_schema :: Schema where
  "account_balance_schema =
     S_Object [required ''id'' S_Uuid, required ''currency'' S_String, required ''balance'' S_String,
       required ''version'' (S_Integer 64)]"

definition account_entry_schema :: Schema where
  "account_entry_schema =
     S_Object [required ''entry_id'' S_Uuid, required ''transfer_id'' S_Uuid,
       required ''account_id'' S_Uuid, required ''counterparty_account_id'' S_Uuid,
       required ''direction'' S_String, required ''operation_kind'' S_String,
       required ''amount'' S_String, required ''currency'' S_String,
       optional ''principal_amount'' S_String, optional ''fee_amount'' S_String,
       required ''created_at'' S_String]"

definition account_history_schema :: Schema where
  "account_history_schema =
     S_Object [required ''items'' (S_Array account_entry_schema), optional ''next_cursor'' S_String]"

definition create_transfer_request_schema :: Schema where
  "create_transfer_request_schema =
     S_Object [required ''source_account_id'' S_String, required ''destination_account_id'' S_String,
       required ''amount'' S_String]"

definition transfer_created_schema :: Schema where
  "transfer_created_schema = S_One_Of
     [S_Object [required ''kind'' (S_Enum [''transfer'']), required ''id'' S_Uuid,
        required ''status'' S_String, required ''source_account_id'' S_Uuid,
        required ''destination_account_id'' S_Uuid, required ''currency'' S_String,
        required ''amount'' S_String, required ''created_at'' S_String],
      S_Object [required ''kind'' (S_Enum [''fx_transfer'']), required ''id'' S_Uuid,
        required ''status'' S_String, required ''source_account_id'' S_Uuid,
        required ''destination_account_id'' S_Uuid, required ''source_currency'' S_String,
        required ''source_amount'' S_String, required ''destination_currency'' S_String,
        required ''destination_amount'' S_String, required ''fee_amount'' S_String,
        required ''total_source_debit'' S_String, required ''created_at'' S_String]]"

definition transfer_details_schema :: Schema where
  "transfer_details_schema =
     S_Object [required ''id'' S_Uuid, required ''source_account_id'' S_Uuid,
       required ''destination_account_id'' S_Uuid, required ''source_currency'' S_String,
       required ''destination_currency'' S_String, required ''source_amount'' S_String,
       required ''destination_amount'' S_String, required ''fee_amount'' S_String,
       required ''total_source_debit'' S_String, optional ''fee_bps'' (S_Integer 32),
       optional ''exchange_rate'' S_String, optional ''exchange_rate_id'' S_Uuid,
       required ''kind'' S_String, optional ''reverses_transfer_id'' S_Uuid,
       required ''created_at'' S_String]"

definition reversal_created_schema :: Schema where
  "reversal_created_schema =
     S_Object [required ''id'' S_Uuid, required ''original_transfer_id'' S_Uuid,
       required ''source_account_id'' S_Uuid, required ''destination_account_id'' S_Uuid,
       required ''source_currency'' S_String, required ''destination_currency'' S_String,
       required ''source_amount'' S_String, required ''destination_amount'' S_String,
       required ''original_fee_amount'' S_String, required ''total_source_debit'' S_String,
       required ''kind'' S_String, required ''status'' S_String,
       required ''resulting_source_balance'' S_String,
       required ''resulting_destination_balance'' S_String, required ''created_at'' S_String]"

definition api_error_body_schema :: Schema where
  "api_error_body_schema =
     S_Object [required ''code'' S_String, required ''message'' S_String,
       optional ''details'' S_Any, optional ''request_id'' S_String]"

definition error_envelope_schema :: Schema where
  "error_envelope_schema = S_Object [required ''error'' api_error_body_schema]"

lemmas schema_defs =
  status_schema_def create_account_request_schema_def account_created_schema_def
  account_balance_schema_def account_entry_schema_def account_history_schema_def
  create_transfer_request_schema_def transfer_created_schema_def transfer_details_schema_def
  reversal_created_schema_def api_error_body_schema_def error_envelope_schema_def

section \<open>Operations\<close>

datatype Location = In_Path | In_Query | In_Header

text \<open>An integer parameter has a minimum, a maximum and a default.\<close>

datatype ParameterType = Text_Parameter | Uuid_Parameter | Integer_Parameter int int int

record ParameterDoc =
  par_name :: string
  par_in :: Location
  par_required :: bool
  par_type :: ParameterType

definition path_parameter :: "string \<Rightarrow> ParameterDoc" where
  "path_parameter name =
     \<lparr>par_name = name, par_in = In_Path, par_required = True, par_type = Text_Parameter\<rparr>"

definition idempotency_key_parameter :: ParameterDoc where
  "idempotency_key_parameter =
     \<lparr>par_name = ''Idempotency-Key'', par_in = In_Header, par_required = True, par_type = Text_Parameter\<rparr>"

definition history_query_docs :: "ParameterDoc list" where
  "history_query_docs =
     [\<lparr>par_name = ''counterparty_account_id'', par_in = In_Query, par_required = False,
       par_type = Uuid_Parameter\<rparr>,
      \<lparr>par_name = ''limit'', par_in = In_Query, par_required = False,
       par_type = Integer_Parameter 1 100 50\<rparr>,
      \<lparr>par_name = ''cursor'', par_in = In_Query, par_required = False, par_type = Text_Parameter\<rparr>]"

text \<open>
  An annotated handler, with the name of the handler as operation id; \<open>security\<close> lists the schemes
  a caller must satisfy.
\<close>

record OperationDoc =
  doc_handler :: Endpoint
  doc_method :: string
  doc_path :: string
  doc_parameters :: "ParameterDoc list"
  doc_request :: "Schema option"
  doc_security :: "string list"
  doc_responses :: "(nat \<times> string \<times> Schema) list"

definition health_doc :: OperationDoc where
  "health_doc =
     \<lparr>doc_handler = Health, doc_method = ''GET'', doc_path = ''/health'', doc_parameters = [],
      doc_request = None, doc_security = [],
      doc_responses = [(200, ''Process is healthy'', status_schema)]\<rparr>"

definition ready_doc :: OperationDoc where
  "ready_doc =
     \<lparr>doc_handler = Ready, doc_method = ''GET'', doc_path = ''/ready'', doc_parameters = [],
      doc_request = None, doc_security = [],
      doc_responses =
        [(200, ''Database is reachable'', status_schema),
         (503, ''Database is unavailable'', error_envelope_schema)]\<rparr>"

definition create_account_doc :: OperationDoc where
  "create_account_doc =
     \<lparr>doc_handler = Create_Account, doc_method = ''POST'', doc_path = ''/accounts'',
      doc_parameters = [idempotency_key_parameter],
      doc_request = Some create_account_request_schema, doc_security = [''bearerAuth''],
      doc_responses =
        [(201, ''Account created or stored successful replay'', account_created_schema),
         (400, ''Invalid currency, initial balance, or Idempotency-Key'', error_envelope_schema),
         (401, ''Authentication is required'', error_envelope_schema),
         (409, ''Idempotency key was previously used with a different request'', error_envelope_schema),
         (500, ''Internal failure'', error_envelope_schema)]\<rparr>"

definition get_balance_doc :: OperationDoc where
  "get_balance_doc =
     \<lparr>doc_handler = Get_Balance, doc_method = ''GET'', doc_path = ''/accounts/{account_id}/balance'',
      doc_parameters = [path_parameter ''account_id''],
      doc_request = None, doc_security = [''bearerAuth''],
      doc_responses =
        [(200, ''Current account balance'', account_balance_schema),
         (400, ''Invalid account ID'', error_envelope_schema),
         (401, ''Authentication is required'', error_envelope_schema),
         (404, ''Account not found'', error_envelope_schema),
         (500, ''Internal failure'', error_envelope_schema)]\<rparr>"

definition get_account_history_doc :: OperationDoc where
  "get_account_history_doc =
     \<lparr>doc_handler = Get_Account_History, doc_method = ''GET'',
      doc_path = ''/accounts/{account_id}/entries'',
      doc_parameters = path_parameter ''account_id'' # history_query_docs,
      doc_request = None, doc_security = [''bearerAuth''],
      doc_responses =
        [(200, ''Account-relative immutable ledger entries'', account_history_schema),
         (400, ''Invalid account ID or pagination query'', error_envelope_schema),
         (401, ''Authentication is required'', error_envelope_schema),
         (404, ''Account not found'', error_envelope_schema),
         (500, ''Internal failure'', error_envelope_schema)]\<rparr>"

definition create_transfer_doc :: OperationDoc where
  "create_transfer_doc =
     \<lparr>doc_handler = Create_Transfer, doc_method = ''POST'', doc_path = ''/transfers'',
      doc_parameters = [idempotency_key_parameter],
      doc_request = Some create_transfer_request_schema, doc_security = [''bearerAuth''],
      doc_responses =
        [(201, ''Transfer created or stored successful replay'', transfer_created_schema),
         (400, ''Invalid transfer request or Idempotency-Key'', error_envelope_schema),
         (401, ''Authentication is required'', error_envelope_schema),
         (404, ''A requested account is unavailable'', error_envelope_schema),
         (409, ''Idempotency key was previously used with a different request'', error_envelope_schema),
         (422, ''Transfer cannot be completed'', error_envelope_schema),
         (500, ''Internal failure'', error_envelope_schema)]\<rparr>"

definition get_transfer_doc :: OperationDoc where
  "get_transfer_doc =
     \<lparr>doc_handler = Get_Transfer, doc_method = ''GET'', doc_path = ''/transfers/{transfer_id}'',
      doc_parameters = [path_parameter ''transfer_id''],
      doc_request = None, doc_security = [''bearerAuth''],
      doc_responses =
        [(200, ''Immutable transfer snapshot'', transfer_details_schema),
         (400, ''Invalid transfer ID'', error_envelope_schema),
         (401, ''Authentication is required'', error_envelope_schema),
         (404, ''Transfer not found'', error_envelope_schema),
         (500, ''Internal failure'', error_envelope_schema)]\<rparr>"

definition reverse_transfer_doc :: OperationDoc where
  "reverse_transfer_doc =
     \<lparr>doc_handler = Reverse_Transfer, doc_method = ''POST'',
      doc_path = ''/transfers/{transfer_id}/reversal'',
      doc_parameters = [path_parameter ''transfer_id'', idempotency_key_parameter],
      doc_request = None, doc_security = [''bearerAuth''],
      doc_responses =
        [(201, ''Reversal created or stored successful replay'', reversal_created_schema),
         (400, ''Invalid transfer ID or Idempotency-Key'', error_envelope_schema),
         (401, ''Authentication is required'', error_envelope_schema),
         (404, ''Original transfer or a participating account is unavailable'', error_envelope_schema),
         (409, ''Idempotency key was previously used with a different request'', error_envelope_schema),
         (422, ''Transfer cannot be reversed'', error_envelope_schema),
         (500, ''Internal failure'', error_envelope_schema)]\<rparr>"

lemmas doc_defs =
  health_doc_def ready_doc_def create_account_doc_def get_balance_doc_def get_account_history_doc_def
  create_transfer_doc_def get_transfer_doc_def reverse_transfer_doc_def

section \<open>The document and its generator\<close>

record SecurityScheme =
  http_scheme :: string
  bearer_format :: string

record Components =
  doc_schemas :: "(string \<times> Schema) list"
  doc_schemes :: "(string \<times> SecurityScheme) list"

record Document =
  doc_title :: string
  doc_version :: string
  doc_operations :: "OperationDoc list"
  doc_components :: "Components option"

definition SERVICE_TITLE :: string where
  "SERVICE_TITLE = ''High-Performance Ledger Service''"

text \<open>\<open>CARGO_PKG_VERSION\<close> is the version in \<open>Cargo.toml\<close>.\<close>

definition SERVICE_VERSION :: string where
  "SERVICE_VERSION = ''0.1.0''"

text \<open>\<open>ApiDoc\<close>, before its modifier.\<close>

definition api_doc :: Document where
  "api_doc =
     \<lparr>doc_title = SERVICE_TITLE, doc_version = SERVICE_VERSION,
      doc_operations =
        [health_doc, ready_doc, create_account_doc, get_balance_doc, get_account_history_doc,
         create_transfer_doc, get_transfer_doc, reverse_transfer_doc],
      doc_components = Some
        \<lparr>doc_schemas =
           [(''StatusResponse'', status_schema),
            (''CreateAccountRequest'', create_account_request_schema),
            (''AccountCreatedResponse'', account_created_schema),
            (''AccountBalanceResponse'', account_balance_schema),
            (''AccountEntryResponse'', account_entry_schema),
            (''AccountHistoryResponse'', account_history_schema),
            (''CreateTransferRequest'', create_transfer_request_schema),
            (''TransferCreatedResponse'', transfer_created_schema),
            (''TransferDetailsResponse'', transfer_details_schema),
            (''ReversalCreatedResponse'', reversal_created_schema),
            (''ErrorEnvelope'', error_envelope_schema),
            (''ApiErrorBody'', api_error_body_schema)],
         doc_schemes = []\<rparr>\<rparr>"

text \<open>The modifier: \<open>expect\<close> panics on a document without components.\<close>

definition modify :: "Document \<Rightarrow> Document option" where
  "modify doc =
     (case doc_components doc of
        None \<Rightarrow> None
      | Some c \<Rightarrow> Some (doc\<lparr>doc_components := Some (c\<lparr>doc_schemes := doc_schemes c @
          [(''bearerAuth'', \<lparr>http_scheme = ''bearer'', bearer_format = ''JWT''\<rparr>)]\<rparr>)\<rparr>))"

definition document :: "Document option" where
  "document = modify api_doc"

text \<open>
  The printed document with its newline, by the parameter \<open>print\<close> (\<open>serde_json::to_string_pretty\<close>,
  \<open>None\<close> its error).  A panic of the modifier is \<open>None\<close> as well.
\<close>

definition generated_document :: "(Document \<Rightarrow> string option) \<Rightarrow> string option" where
  "generated_document print =
     (case document of
        None \<Rightarrow> None
      | Some doc \<Rightarrow> (case print doc of None \<Rightarrow> None | Some t \<Rightarrow> Some (t @ [CHR 0x0A])))"

definition matches_generated_document :: "(Document \<Rightarrow> string option) \<Rightarrow> string \<Rightarrow> bool option" where
  "matches_generated_document print tracked =
     map_option (\<lambda>generated. tracked = generated) (generated_document print)"

text \<open>
  The generator: \<open>tracked\<close> is the text of \<open>openapi.json\<close>, \<open>None\<close> when it cannot be read; the
  parameter \<open>fs_write\<close> is what a write of a text answers and what the file reads as afterwards.
\<close>

definition OPENAPI_PATH :: string where "OPENAPI_PATH = ''openapi.json''"

definition generator_main ::
  "(Document \<Rightarrow> string option) \<Rightarrow> (string \<Rightarrow> bool \<times> string option) \<Rightarrow> string list \<Rightarrow> string option
    \<Rightarrow> (string + unit) \<times> string option" where
  "generator_main print fs_write args tracked =
     (case (case drop 1 args of [] \<Rightarrow> Some False | [a] \<Rightarrow> if a = ''--check'' then Some True else None
            | _ \<Rightarrow> None) of
        None \<Rightarrow> (Inl ''usage: cargo run --bin generate-openapi [-- --check]'', tracked)
      | Some True \<Rightarrow>
          (case tracked of
             None \<Rightarrow> (Inl (''failed to read '' @ OPENAPI_PATH), tracked)
           | Some t \<Rightarrow>
               (case matches_generated_document print t of
                  None \<Rightarrow> (Inl ''failed to serialize generated OpenAPI document'', tracked)
                | Some False \<Rightarrow>
                    (Inl (OPENAPI_PATH @ '' is out of date; run `cargo run --bin generate-openapi` to regenerate it''),
                     tracked)
                | Some True \<Rightarrow> (Inr (), tracked)))
      | Some False \<Rightarrow>
          (case generated_document print of
             None \<Rightarrow> (Inl ''failed to serialize generated OpenAPI document'', tracked)
           | Some t \<Rightarrow>
               (case fs_write t of
                  (True, now) \<Rightarrow> (Inr (), now)
                | (False, now) \<Rightarrow> (Inl (''failed to write '' @ OPENAPI_PATH), now))))"

section \<open>Properties of the generator\<close>

lemma generator_check:
  "snd (generator_main print fs_write [program, ''--check''] tracked) = tracked"
  "fst (generator_main print fs_write [program, ''--check''] tracked) = Inr () \<longleftrightarrow>
     tracked \<noteq> None \<and> tracked = generated_document print"
  by (auto simp: generator_main_def matches_generated_document_def split: option.splits bool.splits)

lemma generator_writes:
  assumes "generator_main print fs_write [program] tracked = (Inr (), now)"
    and "\<And>t. fst (fs_write t) \<Longrightarrow> snd (fs_write t) = Some t"
  shows "now \<noteq> None \<and> now = generated_document print"
proof -
  from assms(1) obtain t where "generated_document print = Some t" "fs_write t = (True, now)"
    by (auto simp: generator_main_def split: option.splits prod.splits bool.splits)
  then show ?thesis using assms(2) [of t] by simp
qed

text \<open>
  C35: The tracked document cannot drift: the check never writes and succeeds exactly when the file
  can be read and is the generated document, byte for byte; whenever the generator reports
  success on a file system that keeps what it stores, the check succeeds afterwards; any other
  arguments fail and write nothing.
\<close>

theorem generator_roundtrip:
  assumes "\<And>t. fst (fs_write t) \<Longrightarrow> snd (fs_write t) = Some t"
  shows "snd (generator_main print fs_write [program, ''--check''] tracked) = tracked
    \<and> (fst (generator_main print fs_write [program, ''--check''] tracked) = Inr () \<longleftrightarrow>
         tracked \<noteq> None \<and> tracked = generated_document print)
    \<and> (generator_main print fs_write [program] tracked = (Inr (), now) \<longrightarrow>
         fst (generator_main print fs_write [program, ''--check''] now) = Inr ())
    \<and> (drop 1 args \<notin> {[], [''--check'']} \<longrightarrow>
         snd (generator_main print fs_write args tracked) = tracked
         \<and> fst (generator_main print fs_write args tracked) \<noteq> Inr ())"
proof (intro conjI impI)
  assume "generator_main print fs_write [program] tracked = (Inr (), now)"
  from generator_writes [OF this assms] show "fst (generator_main print fs_write [program, ''--check''] now) = Inr ()"
    by (auto simp: generator_check)
qed (simp_all add: generator_check, auto simp: generator_main_def split: list.splits if_splits)

theorem generator_roundtrip_witness:
  "fst (generator_main (\<lambda>d. Some (doc_title d)) (\<lambda>t. (True, Some t)) [''generate-openapi'', ''--check'']
     (snd (generator_main (\<lambda>d. Some (doc_title d)) (\<lambda>t. (True, Some t)) [''generate-openapi''] (Some ''{}''))))
   = Inr ()"
proof -
  have "generator_main (\<lambda>d. Some (doc_title d)) (\<lambda>t. (True, Some t)) [''generate-openapi''] (Some ''{}'')
      = (Inr (), Some (SERVICE_TITLE @ [CHR 0x0A]))"
    by (simp add: generator_main_def generated_document_def document_def modify_def api_doc_def)
  then show ?thesis
    using generator_roundtrip [of "\<lambda>t. (True, Some t)" "\<lambda>d. Some (doc_title d)" "''generate-openapi''"
        "Some ''{}''" "Some (SERVICE_TITLE @ [CHR 0x0A])" "[]"]
    by simp
qed

end
