(* ===== verification/Openapi_Properties.thy ===== *)
theory Openapi_Properties
  imports Openapi Service
begin

text \<open>
  What the service answers against what it documents: the documented statuses cover those an
  endpoint can fail with (\<open>Attempts\<close>), every body has its documented shape, and so has every stored
  body that a replay returns.
\<close>

section \<open>Shapes of bodies\<close>

text \<open>
  A serialised struct conforms to the schema of its fields, in the order of their declaration.
\<close>

declare conforms.simps [simp del]

lemma conforms_struct:
  assumes "list_all2 (\<lambda>(n, v) (n', req, s). n' = n \<and> conforms P s v) fs ss"
    and "distinct (map fst fs)"
  shows "conforms P (S_Object ss) (to_value fs)"
proof -
  have "case json_get n (to_value fs) of None \<Rightarrow> \<not> req | Some x \<Rightarrow> conforms P s x"
    if "(n, req, s) \<in> set ss" for n req s
  proof -
    from that obtain i where i: "i < length ss" "ss ! i = (n, req, s)" by (auto simp: in_set_conv_nth)
    moreover obtain m v where fi: "fs ! i = (m, v)" by fastforce
    ultimately have "fs ! i = (n, v)" "conforms P s v"
      using list_all2_nthD2 [OF assms(1) i(1)] by simp_all
    moreover have "i < length fs" using assms(1) i by (auto dest: list_all2_lengthD)
    ultimately have "map_of fs n = Some v" "conforms P s v"
      using assms(2) by (auto simp: in_set_conv_nth intro!: map_of_is_SomeI)
    then show ?thesis using assms(2) by (simp add: json_get_to_value)
  qed
  then show ?thesis by (auto simp: list_all_iff to_value_def conforms.simps)
qed

lemma conforms_uuid [simp]: "uuid_text_ok P \<Longrightarrow> conforms P S_Uuid (uuid_value P u)"
  by (simp add: conforms.simps uuid_value_def uuid_text_ok_def)

lemma conforms_string [simp]: "conforms P S_String (JString t)"
  by (simp add: conforms.simps)

lemma conforms_enum [simp]: "conforms P (S_Enum ts) (JString t) \<longleftrightarrow> t \<in> set ts"
  by (simp add: conforms.simps)

lemma conforms_any [simp]: "conforms P S_Any v"
  by (simp add: conforms.simps)

lemma conforms_optional [simp]:
  "(\<And>a. conforms P s (f a)) \<Longrightarrow> conforms P (S_Nullable s) (opt_value f x)"
  by (cases x) (simp_all add: opt_value_def conforms.simps)

lemma conforms_i64 [simp]: "conforms P (S_Integer 64) (JNumber (sint (v :: i64)))"
  using sint_ge [of v] sint_lt [of v] by (simp add: conforms.simps)

lemma conforms_i32 [simp]: "conforms P (S_Integer 32) (JNumber (sint (v :: i32)))"
  using sint_ge [of v] sint_lt [of v] by (simp add: conforms.simps)

lemmas field_defs = required_def optional_def

lemma account_created_conforms:
  "uuid_text_ok P \<Longrightarrow> conforms P account_created_schema (account_created_response P u cur shown)"
  unfolding account_created_schema_def account_created_response_def
  by (rule conforms_struct) (simp_all add: field_defs)

lemma account_balance_conforms:
  "uuid_text_ok P \<Longrightarrow> conforms P account_balance_schema (account_balance_response P u cur shown v)"
  unfolding account_balance_schema_def account_balance_response_def
  by (rule conforms_struct) (simp_all add: field_defs)

lemma error_envelope_conforms: "conforms P error_envelope_schema (error_envelope b)"
  by (simp add: error_envelope_schema_def api_error_body_schema_def error_envelope_def json_get_def field_defs
      conforms.simps(8))

lemma status_conforms: "conforms P status_schema (status_response t)"
  by (simp add: status_schema_def status_response_def json_get_def field_defs conforms.simps(8))

text \<open>The variants of an enum tagged by \<open>kind\<close> exclude each other.\<close>

lemma conforms_tagged:
  assumes "conforms P (S_Object (required ''kind'' (S_Enum [t]) # ss)) v"
  shows "json_get ''kind'' v = Some (JString t)"
  using assms
  by (cases "json_get ''kind'' v"; cases "the (json_get ''kind'' v)")
     (auto simp: conforms.simps required_def)

lemma conforms_variant:
  assumes "t \<noteq> t'"
    and "conforms P (S_Object (required ''kind'' (S_Enum [t]) # ss)) v
       \<or> conforms P (S_Object (required ''kind'' (S_Enum [t']) # ss')) v"
  shows "conforms P (S_One_Of [S_Object (required ''kind'' (S_Enum [t]) # ss),
       S_Object (required ''kind'' (S_Enum [t']) # ss')]) v"
proof -
  have "\<not> (conforms P (S_Object (required ''kind'' (S_Enum [t]) # ss)) v
      \<and> conforms P (S_Object (required ''kind'' (S_Enum [t']) # ss')) v)"
    using assms(1) by (auto dest!: conforms_tagged)
  then show ?thesis using assms(2) by (auto simp: conforms.simps(9))
qed

lemma format_amount_Inr [stmt_simps]:
  "format_amount a scale s = (Inr t, s') \<longleftrightarrow> format_minor_units a scale = Some t \<and> s' = s"
  by (simp add: format_amount_def stmt_simps)

lemma transfer_response_conforms:
  assumes "uuid_text_ok P" and "transfer_response P t src dst s = (Inr v, s')"
  shows "conforms P transfer_created_schema v"
  unfolding transfer_created_schema_def
proof (rule conforms_variant)
  show "conforms P (S_Object [required ''kind'' (S_Enum [''transfer'']), required ''id'' S_Uuid,
        required ''status'' S_String, required ''source_account_id'' S_Uuid,
        required ''destination_account_id'' S_Uuid, required ''currency'' S_String,
        required ''amount'' S_String, required ''created_at'' S_String]) v
    \<or> conforms P (S_Object [required ''kind'' (S_Enum [''fx_transfer'']), required ''id'' S_Uuid,
        required ''status'' S_String, required ''source_account_id'' S_Uuid,
        required ''destination_account_id'' S_Uuid, required ''source_currency'' S_String,
        required ''source_amount'' S_String, required ''destination_currency'' S_String,
        required ''destination_amount'' S_String, required ''fee_amount'' S_String,
        required ''total_source_debit'' S_String, required ''created_at'' S_String]) v"
  proof (cases "tr_kind t = Kind_FxTransfer")
    case True
    then show ?thesis
      using assms(2)
      by (auto simp: transfer_response_def Let_def stmt_simps field_defs assms(1)
          intro!: disjI2 conforms_struct)
  next
    case False
    then show ?thesis
      using assms(2)
      by (auto simp: transfer_response_def Let_def stmt_simps field_defs assms(1)
          intro!: disjI1 conforms_struct)
  qed
qed simp

lemma reversal_response_conforms:
  assumes "uuid_text_ok P" and "reversal_response P oid t src dst sb db s = (Inr v, s')"
  shows "conforms P reversal_created_schema v"
  using assms(2) unfolding reversal_created_schema_def
  by (auto simp: reversal_response_def Let_def stmt_simps field_defs assms(1) intro!: conforms_struct)

lemma get_balance_answers:
  assumes "uuid_text_ok P" and "get_balance P c account_id s = (Inr resp, s')"
  shows "resp_status resp = 200 \<and> conforms P account_balance_schema (resp_body resp)"
  using assms(2)
  by (auto simp: get_balance_def stmt_simps account_balance_conforms [OF assms(1)])

lemma get_transfer_answers:
  assumes "uuid_text_ok P" and "get_transfer P c transfer_id s = (Inr resp, s')"
  shows "resp_status resp = 200 \<and> conforms P transfer_details_schema (resp_body resp)"
  using assms(2) unfolding transfer_details_schema_def
  by (auto simp: get_transfer_def Let_def stmt_simps field_defs assms(1) intro!: conforms_struct
      split: prod.splits)

lemma account_entry_conforms:
  assumes "uuid_text_ok P" and "account_entry_response P account_id scale e s = (Inr v, s')"
  shows "conforms P account_entry_schema v \<and> s' = s"
proof -
  have shown: "conforms P (S_Nullable S_String) x \<and> s2 = s1"
    if "format_option m scale s1 = (Inr x, s2)" for m x s1 s2
    using that by (cases m) (auto simp: format_option_def stmt_simps conforms.simps)
  show ?thesis
    using assms(2) unfolding account_entry_schema_def
    by (auto simp: account_entry_response_def stmt_simps field_defs assms(1) intro!: conforms_struct
        dest: shown)
qed

lemma account_entries_conform:
  assumes "uuid_text_ok P"
    and "tx_map_list (account_entry_response P account_id scale) es s = (Inr vs, s')"
  shows "list_all (conforms P account_entry_schema) vs"
  using assms(2)
  by (induction es arbitrary: s vs)
     (auto simp: stmt_simps dest!: account_entry_conforms [OF assms(1)])

lemma get_account_history_answers:
  assumes "uuid_text_ok P" and "get_account_history P J c account raw s = (Inr resp, s')"
  shows "resp_status resp = 200 \<and> conforms P account_history_schema (resp_body resp)"
proof -
  from assms(2) obtain items scale es s1 s2 u next_page where
    items: "tx_map_list (account_entry_response P u scale) es s1 = (Inr items, s2)" and
    resp: "resp = \<lparr>resp_status = 200, resp_body = to_value
       [(''items'', JArray items), (''next_cursor'', opt_value JString next_page)]\<rparr>"
    by (auto simp: get_account_history_def Let_def stmt_simps)
  have "conforms P (S_Array account_entry_schema) (JArray items)"
    using account_entries_conform [OF assms(1) items] by (simp add: conforms.simps)
  then show ?thesis
    unfolding resp account_history_schema_def by (simp add: field_defs conforms_struct)
qed

section \<open>Stored answers\<close>

text \<open>A completed record holds status 201 and a body of the schema of its operation.\<close>

definition operation_schema :: "string \<Rightarrow> Schema" where
  "operation_schema op =
     (if op = ACCOUNT_CREATION_OPERATION then account_created_schema
      else if op = REVERSAL_OPERATION then reversal_created_schema
      else transfer_created_schema)"

definition record_documented :: "Platform \<Rightarrow> IdempotencyRow \<Rightarrow> bool" where
  "record_documented P r \<longleftrightarrow>
     (case (http_status r, response_body r) of
        (Some st, Some b) \<Rightarrow> st = 201 \<and> conforms P (operation_schema (operation r)) b
      | _ \<Rightarrow> True)"

definition records_documented :: "Platform \<Rightarrow> Database \<Rightarrow> bool" where
  "records_documented P d \<longleftrightarrow> list_all (record_documented P) (idempotency_records d)"

lemma operation_schemas [simp]:
  "operation_schema ACCOUNT_CREATION_OPERATION = account_created_schema"
  "operation_schema REVERSAL_OPERATION = reversal_created_schema"
  "operation_schema TRANSFER_OPERATION = transfer_created_schema"
  "operation_schema FX_TRANSFER_OPERATION = transfer_created_schema"
  using operations_distinct by (auto simp: operation_schema_def)

lemma completed_documented [simp]:
  "record_documented P (completed_row now retention (c, op, k) fp 201 b u)
     \<longleftrightarrow> conforms P (operation_schema op) b"
  by (simp add: record_documented_def completed_row_def set_response_def reservation_row_def)

lemma records_documented_cong:
  "idempotency_records d' = idempotency_records d \<Longrightarrow> records_documented P d' = records_documented P d"
  by (simp add: records_documented_def)

lemma stored_documented:
  assumes "records_documented P d" and "stored_record d (c, op, k) = Some (fp, Some (st, b))"
  shows "st = 201 \<and> conforms P (operation_schema op) b"
proof -
  from assms(2) obtain r where r: "find_by idem_row_key (c, op, k) (idempotency_records d) = Some r"
    "http_status r = Some st" "response_body r = Some b"
    by (auto simp: stored_record_def split: option.splits)
  then have "record_documented P r" "operation r = op"
    using find_by_SomeD [OF r(1)] assms(1)
    by (auto simp: records_documented_def list_all_iff idem_row_key_def)
  then show ?thesis using r by (simp add: record_documented_def)
qed

lemma replay_documented:
  assumes "platform_ok P" and "records_documented P d" and "replayed_from P d (c, op, k) fp resp"
  shows "resp_status resp = 201 \<and> conforms P (operation_schema op) (resp_body resp)"
proof -
  obtain st where st: "stored_record d (c, op, k) = Some (fp, Some (st, resp_body resp))"
    "stored_status P st = Inr (resp_status resp)"
    using assms(3) by (auto simp: replayed_from_def answer_Replayed_iff)
  then show ?thesis
    using stored_documented [OF assms(2) st(1)] stored_status_2xx [OF assms(1), of 201] by simp
qed

text \<open>
  What a write answers and stores: a successful answer is a documented 201, and the record it
  stores is one that replays so.
\<close>

definition write_documented ::
  "Platform \<Rightarrow> Schema \<Rightarrow> AppError fault + Response \<Rightarrow> Database \<Rightarrow> bool" where
  "write_documented P schema r d' \<longleftrightarrow>
     records_documented P d'
     \<and> (\<forall>resp. r = Inr resp \<longrightarrow> resp_status resp = 201 \<and> conforms P schema (resp_body resp))"

lemma create_account_documented:
  assumes "platform_ok P" and "uuid_text_ok P" and "records_documented P (committed s)"
    and "create_account P st amb c headers request s = (r, s')"
  shows "write_documented P account_created_schema r (committed s')"
  using create_account_cases [OF assms(4)]
proof (elim disjE exE conjE)
  assume same: "committed s' = committed s"
    and ans: "\<forall>resp. r = Inr resp \<longrightarrow> (\<exists>k cur balance status.
                account_request_ok P headers request k cur balance
                \<and> record_store.answer (committed s) (c, ACCOUNT_CREATION_OPERATION, k)
                    (account_creation_fingerprint P (cur_code cur) balance)
                  = Replayed (status, resp_body resp)
                \<and> stored_status P status = Inr (resp_status resp))"
  have "resp_status resp = 201 \<and> conforms P account_created_schema (resp_body resp)"
    if "r = Inr resp" for resp
  proof -
    from ans that obtain k fp where "replayed_from P (committed s) (c, ACCOUNT_CREATION_OPERATION, k) fp resp"
      unfolding replayed_from_def by blast
    from replay_documented [OF assms(1,3) this] show ?thesis by simp
  qed
  then show ?thesis using assms(3) by (simp add: write_documented_def same)
next
  fix k cur balance shown
  assume d': "committed s' = account_created P st amb c k cur balance shown (committed s)"
    and r: "\<forall>resp. r = Inr resp \<longrightarrow> resp = \<lparr>resp_status = 201, resp_body =
               account_created_response P (new_v4 amb 0) (cur_code cur) shown\<rparr>"
  show ?thesis
    using assms(3) r
    by (auto simp: write_documented_def d' account_created_def records_documented_def
        account_created_conforms [OF assms(2)])
qed

lemma create_transfer_documented:
  assumes "platform_ok P" and "uuid_text_ok P" and "schema_ok (committed s)"
    and "records_documented P (committed s)"
    and "create_transfer P st amb c headers request s = (r, s')"
  shows "write_documented P transfer_created_schema r (committed s')"
proof -
  have keys: "distinct (map acc_id (accounts (committed s)))"
    using assms(3) by (simp add: schema_ok_def keys_ok_def)
  have op: "operation_schema (operation_type fin) = transfer_created_schema"
    if "fin \<noteq> Operation_Reversal" for fin
    using that by (cases fin) (simp_all add: operation_type_def)
  have fin: "fin \<noteq> Operation_Reversal"
    if "transfer_request_ok P headers request (committed s) k source destination p fin amount"
    for k source destination p fin amount
    using that by (auto simp: transfer_request_ok_def classify_transfer_def split: if_splits)
  from create_transfer_cases [OF assms(5) keys] show ?thesis
  proof (elim disjE exE conjE)
    assume same: "committed s' = committed s"
      and ans: "\<forall>resp. r = Inr resp \<longrightarrow> (\<exists>k source destination p fin amount.
               transfer_request_ok P headers request (committed s) k source destination p fin amount
               \<and> replayed_from P (committed s) (c, operation_type fin, k)
                   (transfer_fingerprint P source destination (pre_source_currency p) amount) resp)"
    have "resp_status resp = 201 \<and> conforms P transfer_created_schema (resp_body resp)"
      if "r = Inr resp" for resp
      using ans that replay_documented [OF assms(1,4)] op fin by metis
    then show ?thesis using assms(4) by (simp add: write_documented_def same)
  next
    fix k source destination p fin amount resp
    assume ok: "transfer_request_ok P headers request (committed s) k source destination p fin amount"
      and post: "transfer_posted P st amb c k fin p source destination amount
               (committed s) (committed s') resp"
      and r: "r \<in> {Inr resp, Inl (Fail lost), Inl Cancelled}"
    from post obtain t src dst sb db fp body where
      body: "\<forall>s. fst (transfer_response P t src dst s) = Inr body" and
      resp: "resp = \<lparr>resp_status = 201, resp_body = body\<rparr>" and
      d': "committed s' = transfer_applied amb t sb db
               (completed_row (tx_time amb) (idempotency_retention st) (c, operation_type fin, k)
                  fp 201 body (new_v4 amb 0)) (committed s)"
      unfolding transfer_posted_def by blast
    have "conforms P transfer_created_schema body"
      using body transfer_response_conforms [OF assms(2)] by (metis prod.collapse)
    then show ?thesis
      using assms(4) r resp op [OF fin [OF ok]]
      by (auto simp: write_documented_def d' records_documented_def)
  qed
qed

lemma reverse_transfer_documented:
  assumes "platform_ok P" and "uuid_text_ok P" and "schema_ok (committed s)"
    and "records_documented P (committed s)"
    and "reverse_transfer P st amb c headers transfer_id s = (r, s')"
  shows "write_documented P reversal_created_schema r (committed s')"
proof -
  from reverse_transfer_cases [OF assms(5,3)] show ?thesis
  proof (elim disjE exE conjE)
    assume same: "committed s' = committed s"
      and ans: "\<forall>resp. r = Inr resp \<longrightarrow> (\<exists>k oid. reversal_request P headers transfer_id = Inr (k, oid)
               \<and> replayed_from P (committed s) (c, REVERSAL_OPERATION, k) (reversal_fingerprint P oid) resp)"
    have "resp_status resp = 201 \<and> conforms P reversal_created_schema (resp_body resp)"
      if "r = Inr resp" for resp
      using ans that replay_documented [OF assms(1,4)] operation_schemas(2) by metis
    then show ?thesis using assms(4) by (simp add: write_documented_def same)
  next
    fix k oid resp
    assume post: "reversal_posted P st amb c k oid (committed s) (committed s') resp"
      and r: "r \<in> {Inr resp, Inl (Fail lost), Inl Cancelled}"
    from post obtain t src dst sb db fp body where
      body: "\<forall>s. fst (reversal_response P oid t src dst sb db s) = Inr body" and
      resp: "resp = \<lparr>resp_status = 201, resp_body = body\<rparr>" and
      d': "committed s' = reversal_applied amb t sb db
               (completed_row (tx_time amb) (idempotency_retention st) (c, REVERSAL_OPERATION, k)
                  fp 201 body (new_v4 amb 0)) (committed s)"
      unfolding reversal_posted_def by blast
    have "conforms P reversal_created_schema body"
      using body reversal_response_conforms [OF assms(2)] by (metis prod.collapse)
    then show ?thesis
      using assms(4) r resp by (auto simp: write_documented_def d' records_documented_def)
  qed
qed

section \<open>Replies\<close>

text \<open>A reply is one of the documented responses: its status, and a JSON body of its schema.\<close>

definition allows :: "Platform \<Rightarrow> (nat \<times> string \<times> Schema) list \<Rightarrow> nat \<times> Body \<Rightarrow> bool" where
  "allows P responses reply \<longleftrightarrow>
     list_ex (\<lambda>(status, description, schema). status = fst reply
       \<and> (case snd reply of Body_Json v \<Rightarrow> conforms P schema v | _ \<Rightarrow> False)) responses"

definition documents :: "(nat \<times> Body \<Rightarrow> bool) \<Rightarrow> (AppError, nat \<times> Body) tx \<Rightarrow> Session \<Rightarrow> bool" where
  "documents Q m s \<longleftrightarrow> (\<forall>x. reply_of (fst (m s)) = Some x \<longrightarrow> Q x)"

lemma allowsI:
  "(status, description, schema) \<in> set responses \<Longrightarrow> conforms P schema v \<Longrightarrow>
   allows P responses (status, Body_Json v)"
  by (force simp: allows_def list_ex_iff)

lemma allows_error:
  assumes "(error_status e, description, error_envelope_schema) \<in> set responses"
  shows "allows P responses (into_response e)"
proof -
  have "into_response e = (error_status e, Body_Json (error_envelope (snd (response_parts e))))"
    by (simp add: into_response_def error_status_def split: prod.split)
  then show ?thesis using allowsI [OF assms error_envelope_conforms] by simp
qed

lemma documents_json:
  assumes "raises (status_in N) m" and "N \<subseteq> {n. \<exists>d. (n, d, error_envelope_schema) \<in> set responses}"
    and "\<And>resp s'. m s = (Inr resp, s') \<Longrightarrow>
      (\<exists>d. (resp_status resp, d, schema) \<in> set responses) \<and> conforms P schema (resp_body resp)"
  shows "documents (allows P responses) (json_reply m) s"
  unfolding documents_def
proof (intro allI impI)
  fix x assume x: "reply_of (fst (json_reply m s)) = Some x"
  obtain r0 s' where m: "m s = (r0, s')" by fastforce
  show "allows P responses x"
  proof (cases r0)
    case (Inr resp)
    then have "x = (resp_status resp, Body_Json (resp_body resp))"
      using x m by (simp add: json_reply_def tx_bind_def tx_return_def reply_of_def)
    then show ?thesis using assms(3) [of resp s'] m Inr allowsI by blast
  next
    case (Inl f)
    with x m obtain e where f: "f = Fail e" "x = into_response e"
      by (cases f) (auto simp: json_reply_def tx_bind_def reply_of_def)
    then obtain d where "(error_status e, d, error_envelope_schema) \<in> set responses"
      using raisesD [OF assms(1), unfolded status_in_def] m Inl assms(2) by blast
    then show ?thesis unfolding f(2) by (rule allows_error)
  qed
qed

text \<open>
  The one reply no annotation covers: the text with which axum's \<open>Path\<close> extractor answers a client
  whose path segment it cannot decode.
\<close>

definition undecodable :: "'key Server \<Rightarrow> OperationDoc \<Rightarrow> HttpCall \<Rightarrow> string list \<Rightarrow> (nat \<times> string) option" where
  "undecodable S op req captures =
     (if In_Path \<in> par_in ` set (doc_parameters op) then
        case (from_request_parts (sv_platform S) (sv_jwt S) (app_auth S) (http_headers req),
              path_param S (hd captures)) of
          (Inr _, Inl rejection) \<Rightarrow> Some rejection
        | _ \<Rightarrow> None
      else None)"

definition documented_reply :: "'key Server \<Rightarrow> OperationDoc \<Rightarrow> HttpCall \<Rightarrow> string list \<Rightarrow> nat \<times> Body \<Rightarrow> bool" where
  "documented_reply S op req captures reply \<longleftrightarrow>
     (case undecodable S op req captures of
        None \<Rightarrow> allows (sv_platform S) (doc_responses op) reply
      | Some (status, message) \<Rightarrow> reply = (status, Body_Text message))"

abbreviation answers :: "'key Server \<Rightarrow> OperationDoc \<Rightarrow> (AppError, nat \<times> Body) tx \<Rightarrow> Session \<Rightarrow> bool" where
  "answers S op \<equiv> documents (allows (sv_platform S) (doc_responses op))"

lemma documents_public:
  "answers S op m s \<Longrightarrow> In_Path \<notin> par_in ` set (doc_parameters op) \<Longrightarrow>
   documents (documented_reply S op req cs) m s"
  by (simp add: documents_def documented_reply_def undecodable_def)

lemma documents_refused:
  assumes "from_request_parts (sv_platform S) (sv_jwt S) (app_auth S) (http_headers req) = Inl e"
    and "(401, description, error_envelope_schema) \<in> set (doc_responses op)"
  shows "documents (documented_reply S op req cs) (authenticated S req f) s"
proof -
  have "authenticated S req f s = (Inl (Fail Unauthorized), s)"
    using assms(1) from_request_parts_Inl [OF assms(1)]
    by (simp add: authenticated_def tx_bind_def from_result_def tx_throw_def)
  moreover have "undecodable S op req cs = None" using assms(1) by (simp add: undecodable_def)
  ultimately show ?thesis
    using allows_error [of Unauthorized description] assms(2)
    by (simp add: documents_def reply_of_def documented_reply_def)
qed

lemma authenticated_Inr:
  "from_request_parts (sv_platform S) (sv_jwt S) (app_auth S) (http_headers req) = Inr c \<Longrightarrow>
   authenticated S req f s = f c s"
  by (simp add: authenticated_def tx_bind_def from_result_def tx_return_def)

lemma documents_client:
  assumes "\<And>c. answers S op (f c) s"
    and "(401, description, error_envelope_schema) \<in> set (doc_responses op)"
    and "In_Path \<notin> par_in ` set (doc_parameters op)"
  shows "documents (documented_reply S op req cs) (authenticated S req f) s"
proof (cases "from_request_parts (sv_platform S) (sv_jwt S) (app_auth S) (http_headers req)")
  case (Inl e)
  then show ?thesis using assms(2) by (rule documents_refused)
next
  case (Inr c)
  then show ?thesis
    using documents_public [OF assms(1,3)] by (simp add: documents_def authenticated_Inr)
qed

lemma documents_client_path:
  assumes "\<And>c x. answers S op (f c x) s"
    and "(401, description, error_envelope_schema) \<in> set (doc_responses op)"
    and "In_Path \<in> par_in ` set (doc_parameters op)"
  shows "documents (documented_reply S op req cs) (authenticated S req (\<lambda>c. with_path S cs (f c))) s"
proof (cases "from_request_parts (sv_platform S) (sv_jwt S) (app_auth S) (http_headers req)")
  case (Inl e)
  then show ?thesis using assms(2) by (rule documents_refused)
next
  case (Inr c)
  then show ?thesis
    using assms(1,3)
    by (cases "path_param S (hd cs)")
       (auto simp: documents_def authenticated_Inr with_path_def documented_reply_def undecodable_def
          tx_return_def reply_of_def)
qed

text \<open>The conditions under which a request is served: documented crates, a sound database.\<close>

definition serving :: "Platform \<Rightarrow> Session \<Rightarrow> bool" where
  "serving P s \<longleftrightarrow> platform_ok P \<and> uuid_text_ok P \<and> schema_ok (committed s) \<and> records_documented P (committed s)"

lemma ready_answers:
  "raises (status_in {503}) ready" "ready s = (Inr resp, s') \<Longrightarrow> resp = \<lparr>resp_status = 200, resp_body = status_response ''ready''\<rparr>"
  by (auto simp: raises_def ready_def map_fault_def split: prod.splits sum.splits fault.splits)

lemma health_endpoints:
  "answers S health_doc (json_reply health) s"
  "answers S ready_doc (json_reply ready) s"
proof -
  show "answers S health_doc (json_reply health) s"
    by (rule documents_json [where N = "{}" and schema = status_schema])
       (auto simp: health_def health_doc_def raises_basic stmt_simps status_conforms)
  show "answers S ready_doc (json_reply ready) s"
    by (rule documents_json [OF ready_answers(1), where schema = status_schema])
       (auto simp: ready_doc_def status_conforms dest!: ready_answers(2))
qed

lemma read_endpoints:
  assumes "uuid_text_ok (sv_platform S)"
  shows "answers S get_balance_doc (json_reply (get_balance (sv_platform S) c a)) s"
    and "answers S get_account_history_doc
      (json_reply (get_account_history (sv_platform S) J c a raw)) s"
    and "answers S get_transfer_doc (json_reply (get_transfer (sv_platform S) c a)) s"
proof -
  show "answers S get_balance_doc (json_reply (get_balance (sv_platform S) c a)) s"
    by (rule documents_json [OF raises_get_balance, where schema = account_balance_schema])
       (auto simp: get_balance_doc_def dest!: get_balance_answers [OF assms])
  show "answers S get_account_history_doc
      (json_reply (get_account_history (sv_platform S) J c a raw)) s"
    by (rule documents_json [OF raises_get_account_history, where schema = account_history_schema])
       (auto simp: get_account_history_doc_def dest!: get_account_history_answers [OF assms])
  show "answers S get_transfer_doc (json_reply (get_transfer (sv_platform S) c a)) s"
    by (rule documents_json [OF raises_get_transfer, where schema = transfer_details_schema])
       (auto simp: get_transfer_doc_def dest!: get_transfer_answers [OF assms])
qed

lemma documents_write:
  assumes "raises (status_in N) m" and "N \<subseteq> {n. \<exists>d. (n, d, error_envelope_schema) \<in> set (doc_responses op)}"
    and "\<exists>d. (201, d, schema) \<in> set (doc_responses op)"
    and "\<And>r s'. m s = (r, s') \<Longrightarrow> write_documented (sv_platform S) schema r (committed s')"
  shows "answers S op (json_reply m) s"
  by (rule documents_json [OF assms(1,2), where schema = schema])
     (use assms(3,4) in \<open>auto simp: write_documented_def\<close>)

lemma write_endpoints:
  assumes "serving (sv_platform S) s"
  shows "answers S create_account_doc
      (json_reply (create_account (sv_platform S) st amb c headers request)) s"
    and "answers S create_transfer_doc
      (json_reply (create_transfer (sv_platform S) st amb c headers request')) s"
    and "answers S reverse_transfer_doc
      (json_reply (reverse_transfer (sv_platform S) st amb c headers transfer_id)) s"
proof -
  from assms have ok: "platform_ok (sv_platform S)" "uuid_text_ok (sv_platform S)"
    "schema_ok (committed s)" "records_documented (sv_platform S) (committed s)"
    by (simp_all add: serving_def)
  show "answers S create_account_doc
      (json_reply (create_account (sv_platform S) st amb c headers request)) s"
    by (rule documents_write [OF raises_create_account _ _ create_account_documented [OF ok(1,2,4)]])
       (simp_all add: create_account_doc_def)
  show "answers S create_transfer_doc
      (json_reply (create_transfer (sv_platform S) st amb c headers request')) s"
    by (rule documents_write [OF raises_create_transfer _ _ create_transfer_documented [OF ok]])
       (simp_all add: create_transfer_doc_def write_failures_def)
  show "answers S reverse_transfer_doc
      (json_reply (reverse_transfer (sv_platform S) st amb c headers transfer_id)) s"
    by (rule documents_write [OF raises_reverse_transfer _ _ reverse_transfer_documented [OF ok]])
       (simp_all add: reverse_transfer_doc_def write_failures_def)
qed

lemma doc_handlers [simp]:
  "doc_handler health_doc = Health" "doc_handler ready_doc = Ready"
  "doc_handler create_account_doc = Create_Account" "doc_handler get_balance_doc = Get_Balance"
  "doc_handler get_account_history_doc = Get_Account_History"
  "doc_handler create_transfer_doc = Create_Transfer" "doc_handler get_transfer_doc = Get_Transfer"
  "doc_handler reverse_transfer_doc = Reverse_Transfer"
  by (simp_all add: doc_defs)

lemma doc_clients:
  "list_all (\<lambda>op. (401, ''Authentication is required'', error_envelope_schema) \<in> set (doc_responses op))
     [create_account_doc, get_balance_doc, get_account_history_doc, create_transfer_doc,
      get_transfer_doc, reverse_transfer_doc]"
  by (simp add: doc_defs)

lemma doc_paths:
  "list_all (\<lambda>op. In_Path \<in> par_in ` set (doc_parameters op))
     [get_balance_doc, get_account_history_doc, get_transfer_doc, reverse_transfer_doc]"
  "list_all (\<lambda>op. In_Path \<notin> par_in ` set (doc_parameters op))
     [health_doc, ready_doc, create_account_doc, create_transfer_doc]"
  by (simp_all add: doc_defs path_parameter_def idempotency_key_parameter_def)

lemma handle_documented:
  assumes "serving (sv_platform S) s" and "op \<in> set (doc_operations api_doc)"
  shows "documents (documented_reply S op req cs) (handle S amb req (doc_handler op) cs) s"
proof -
  have uuid: "uuid_text_ok (sv_platform S)" using assms(1) by (simp add: serving_def)
  note client = documents_client [where description = "''Authentication is required''"]
    documents_client_path [where description = "''Authentication is required''"]
  from assms(2) consider "op = health_doc" | "op = ready_doc" | "op = create_account_doc"
    | "op = get_balance_doc" | "op = get_account_history_doc" | "op = create_transfer_doc"
    | "op = get_transfer_doc" | "op = reverse_transfer_doc"
    by (auto simp: api_doc_def)
  then show ?thesis
    unfolding handle_def Let_def
    by (cases; simp only: doc_handlers Endpoint.case)
       ((rule documents_public, rule health_endpoints
          | (rule client, rule write_endpoints [OF assms(1)] read_endpoints [OF uuid])),
        insert doc_clients doc_paths, simp_all only: list.pred_inject simp_thms)+
qed

lemma handle_writes:
  assumes "handle S amb req e cs s = (r, s')" and "committed s' \<noteq> committed s"
  obtains (account) c request r0 where
      "create_account (sv_platform S) (app_state S) amb c (http_headers req) request s = (r0, s')"
    | (transfer) c request r0 where
      "create_transfer (sv_platform S) (app_state S) amb c (http_headers req) request s = (r0, s')"
    | (reversal) c transfer_id r0 where
      "reverse_transfer (sv_platform S) (app_state S) amb c (http_headers req) transfer_id s = (r0, s')"
proof (cases "e \<in> {Create_Account, Create_Transfer, Reverse_Transfer}")
  case False
  then have "reads_only (handle S amb req e cs)"
    by (cases e) (auto simp: handle_def Let_def intro!: reads_intros)
  from reads_onlyD [OF this assms(1)] assms(2) show ?thesis by simp
next
  case True
  then show ?thesis
    using assms(1) [unfolded handle_def Let_def] account transfer reversal
    by (elim insertE emptyE; simp only: Endpoint.case)
      (erule authenticated_change [OF _ assms(2)]; (erule with_path_change [OF _ assms(2)])?;
        erule json_reply_result; blast)+
qed

lemma handle_keeps_records:
  assumes "serving (sv_platform S) s" and "handle S amb req e cs s = (r, s')"
  shows "records_documented (sv_platform S) (committed s')"
proof (cases "committed s' = committed s")
  case True
  then show ?thesis using assms(1) by (simp add: serving_def)
next
  case False
  from assms(1) have ok: "platform_ok (sv_platform S)" "uuid_text_ok (sv_platform S)"
    "schema_ok (committed s)" "records_documented (sv_platform S) (committed s)"
    by (simp_all add: serving_def)
  from handle_writes [OF assms(2) False] show ?thesis
    using create_account_documented [OF ok(1,2,4)] create_transfer_documented [OF ok]
      reverse_transfer_documented [OF ok]
    by cases (simp_all add: write_documented_def)
qed

section \<open>The service keeps its documentation\<close>

lemma step_documented:
  assumes "service_step S d d'" and "platform_ok (sv_platform S)" and "uuid_text_ok (sv_platform S)"
    and "schema_ok d" and "records_documented (sv_platform S) d"
  shows "records_documented (sv_platform S) d'"
  using assms(1)
proof (cases rule: service_step.cases)
  case (request amb fresh_id req s reply s')
  from assms request(1) have ok: "serving (sv_platform S) s" by (simp add: serving_def)
  from serve_committed [OF request(3)] obtain route handler r s1 where
    d: "dispatch S amb req = (route, handler)" and h: "handler s = (r, s1)" and
    s1: "committed s' = committed s1"
    by (rule serve_committed [OF request(3)], rule that)
  show ?thesis
    using d
  proof (cases rule: dispatch_cases)
    case unrouted
    then show ?thesis using h s1 ok by (auto simp: tx_return_def serving_def request(2))
  next
    case routed
    then show ?thesis using handle_keeps_records [OF ok] h s1 request(2) by simp
  qed
next
  case (configure rs fs)
  then show ?thesis using assms(5) by (simp add: records_documented_def)
next
  case (set_status k status)
  then show ?thesis using assms(5) by (simp add: records_documented_def)
qed

lemma steps_documented:
  assumes "(service_step S)\<^sup>*\<^sup>* d d'" and "platform_ok (sv_platform S)" and "uuid_text_ok (sv_platform S)"
    and "ledger_ok d" and "records_documented (sv_platform S) d"
  shows "schema_ok d' \<and> records_documented (sv_platform S) d'"
proof -
  have "ledger_ok d' \<and> records_documented (sv_platform S) d'"
    using assms(1)
  proof (induction rule: rtranclp_induct)
    case base
    then show ?case using assms(4,5) by simp
  next
    case (step y z)
    then show ?case
      using step_documented [OF step(2) assms(2,3)] service_step_keeps [OF step(2)] ledger_okD(1) by blast
  qed
  then show ?thesis using ledger_okD(1) by blast
qed

text \<open>
  C16: The service keeps its published contract but for one reply: after any history, every reply to
  a documented operation, errors and replays included, has a documented status and a JSON body of
  the schema documented for it, except that a client with an accepted token whose path segment
  axum cannot decode gets exactly axum's own rejection, a plain text that the document omits.
\<close>

theorem replies_documented:
  assumes "platform_ok (sv_platform S)" and "uuid_text_ok (sv_platform S)"
    and "ledger_ok d" and "idempotency_records d = []"
    and "(service_step S)\<^sup>*\<^sup>* d (committed s)"
    and "op \<in> set (doc_operations api_doc)" and "http_method req = doc_method op"
    and "find_route (http_path req) = Some (doc_path op, doc_method op, doc_handler op, captures)"
    and "serve S amb fresh_id req s = (Some reply, s')"
  shows "case undecodable S op req captures of
      None \<Rightarrow> allows (sv_platform S) (doc_responses op) (reply_status reply, reply_body reply)
    | Some (status, message) \<Rightarrow> reply_status reply = status \<and> reply_body reply = Body_Text message"
proof -
  have "records_documented (sv_platform S) d" using assms(4) by (simp add: records_documented_def)
  from steps_documented [OF assms(5,1,2,3) this] assms(1,2) have ok: "serving (sv_platform S) s"
    by (simp add: serving_def)
  have d: "dispatch S amb req = (Some (doc_path op), handle S amb req (doc_handler op) captures)"
    using assms(7,8) by (simp add: dispatch_def accepts_method_def)
  obtain r s1 where h: "handle S amb req (doc_handler op) captures s = (r, s1)" by fastforce
  have "http_method req \<noteq> ''HEAD''" using assms(6,7) by (auto simp: api_doc_def doc_defs)
  then have "reply_of r = Some (reply_status reply, reply_body reply)"
    using assms(9) serve_eq [OF d h, of fresh_id] by (auto simp: body_for_def split: option.splits)
  then show ?thesis
    using handle_documented [OF ok assms(6), of req captures amb] h
    by (auto simp: documents_def documented_reply_def split: option.split)
qed

theorem replies_documented_witness:
  "\<exists>reply s'. serve demo_server demo_ambient ''id-1'' demo_call (demo_session demo_ledger) = (Some reply, s')
    \<and> reply_status reply = 201
    \<and> allows demo_platform (doc_responses create_transfer_doc) (201, reply_body reply)"
proof -
  obtain reply s' where
    run: "serve demo_server demo_ambient ''id-1'' demo_call (demo_session demo_ledger) = (Some reply, s')"
    and st: "reply_status reply = 201"
    by (rule demo_serve) (rule that)
  have P: "sv_platform demo_server = demo_platform" "path_param demo_server = Inr"
    by (simp_all add: demo_server_def)
  have "platform_ok (sv_platform demo_server)" "uuid_text_ok (sv_platform demo_server)"
    "idempotency_records demo_ledger = []" "create_transfer_doc \<in> set (doc_operations api_doc)"
    "http_method demo_call = doc_method create_transfer_doc"
    "find_route (http_path demo_call) =
       Some (doc_path create_transfer_doc, doc_method create_transfer_doc, doc_handler create_transfer_doc, [])"
    "(service_step demo_server)\<^sup>*\<^sup>* demo_ledger (committed (demo_session demo_ledger))"
    using demo_route
    by (simp_all add: P demo_ledger_def api_doc_def demo_call_def create_transfer_doc_def demo_session_def)
  note facts = this
  have "undecodable demo_server create_transfer_doc demo_call [] = None"
    using doc_paths(2) by (simp add: undecodable_def)
  with replies_documented [OF facts(1,2) demo_ledger_ok facts(3,7,4,5,6) run] run st show ?thesis
    by (simp add: P)
qed

section \<open>The documented operations\<close>

definition demands_client :: "'key Server \<Rightarrow> Endpoint \<Rightarrow> bool" where
  "demands_client S e \<longleftrightarrow>
     (\<forall>amb req cs s err.
        from_request_parts (sv_platform S) (sv_jwt S) (app_auth S) (http_headers req) = Inl err \<longrightarrow>
        handle S amb req e cs s = (Inl (Fail Unauthorized), s))"

definition demands_key :: "'key Server \<Rightarrow> Endpoint \<Rightarrow> bool" where
  "demands_key S e \<longleftrightarrow>
     (\<forall>amb req cs s c segment.
        from_request_parts (sv_platform S) (sv_jwt S) (app_auth S) (http_headers req) = Inr c
        \<and> path_param S (hd cs) = Inr segment
        \<and> get_all IDEMPOTENCY_KEY_HEADER (http_headers req) = [] \<longrightarrow>
        handle S amb req e cs s =
          (Inl (Fail (Validation ''missing_idempotency_key'' ''The Idempotency-Key header is required'')), s))"

text \<open>Of the headers, such an endpoint reads at most those that authenticate the client.\<close>

definition reads_client_only :: "'key Server \<Rightarrow> Endpoint \<Rightarrow> bool" where
  "reads_client_only S e \<longleftrightarrow>
     (\<forall>amb req hs cs.
        from_request_parts (sv_platform S) (sv_jwt S) (app_auth S) hs
          = from_request_parts (sv_platform S) (sv_jwt S) (app_auth S) (http_headers req) \<longrightarrow>
        handle S amb (req\<lparr>http_headers := hs\<rparr>) e cs = handle S amb req e cs)"

definition reads_no_header :: "'key Server \<Rightarrow> Endpoint \<Rightarrow> bool" where
  "reads_no_header S e \<longleftrightarrow>
     (\<forall>amb req hs cs. handle S amb (req\<lparr>http_headers := hs\<rparr>) e cs = handle S amb req e cs)"

lemma clients_demanded:
  "e \<notin> {Metrics, Health, Ready, Openapi} \<Longrightarrow> demands_client S e"
  "e \<in> {Health, Ready} \<Longrightarrow> reads_no_header S e"
proof -
  assume "e \<notin> {Metrics, Health, Ready, Openapi}"
  then show "demands_client S e"
    using from_request_parts_Inl
    by (cases e) (auto simp: demands_client_def handle_def Let_def authenticated_def tx_bind_def
        from_result_def tx_throw_def)
next
  assume "e \<in> {Health, Ready}"
  then show "reads_no_header S e" by (auto simp: reads_no_header_def handle_def Let_def)
qed

lemma keys_demanded:
  "e \<in> {Create_Account, Create_Transfer, Reverse_Transfer} \<Longrightarrow> demands_key S e"
  "e \<in> {Get_Balance, Get_Account_History, Get_Transfer} \<Longrightarrow> reads_client_only S e"
proof -
  have missing: "from_headers P hs
      = Inl (Validation ''missing_idempotency_key'' ''The Idempotency-Key header is required'')"
    if "get_all IDEMPOTENCY_KEY_HEADER hs = []" for P hs
    using that by (simp add: from_headers_def)
  assume "e \<in> {Create_Account, Create_Transfer, Reverse_Transfer}"
  then show "demands_key S e"
    by (elim insertE emptyE)
       (auto simp: demands_key_def handle_def Let_def authenticated_def json_reply_def with_path_def
          create_account_def create_transfer_def reverse_transfer_def validate_transfer_def missing
          tx_bind_def from_result_def tx_throw_def tx_return_def)
next
  assume "e \<in> {Get_Balance, Get_Account_History, Get_Transfer}"
  then show "reads_client_only S e"
    by (auto simp: reads_client_only_def handle_def Let_def authenticated_def)
qed

text \<open>What the annotations say, operation by operation.\<close>

definition path_placeholders :: "string \<Rightarrow> string list" where
  "path_placeholders path =
     map (\<lambda>segment. butlast (tl segment)) (filter is_param (split_char CHR ''/'' path))"

lemma annotations:
  "map (\<lambda>d. (doc_path d, doc_method d, doc_handler d)) (doc_operations api_doc)
     = filter (\<lambda>r. snd (snd r) \<notin> {Metrics, Openapi}) routes"
  "list_all (\<lambda>d. map par_name (filter (\<lambda>p. par_in p = In_Path) (doc_parameters d))
     = path_placeholders (doc_path d)) (doc_operations api_doc)"
  "list_all (\<lambda>d. if doc_security d = [''bearerAuth''] then doc_handler d \<notin> {Metrics, Health, Ready, Openapi}
     else doc_security d = [] \<and> doc_handler d \<in> {Health, Ready}) (doc_operations api_doc)"
  "list_all (\<lambda>d. if idempotency_key_parameter \<in> set (doc_parameters d)
     then doc_handler d \<in> {Create_Account, Create_Transfer, Reverse_Transfer}
     else doc_handler d \<in> {Health, Ready} \<union> {Get_Balance, Get_Account_History, Get_Transfer})
     (doc_operations api_doc)"
  "list_all (\<lambda>d. list_all (\<lambda>p. par_name p = ''limit'' \<longrightarrow> par_type p = Integer_Parameter 1 100 50)
     (doc_parameters d)) (doc_operations api_doc)"
  by (simp_all add: api_doc_def doc_defs routes_def path_parameter_def idempotency_key_parameter_def
      history_query_docs_def path_placeholders_def params)

lemma limit_range:
  "parse_limit None = Inr (word_of_int 50)"
  "(\<exists>n. parse_limit (Some t) = Inr n) \<longleftrightarrow> (\<exists>n. parse_i64 t = Some n \<and> 1 \<le> n \<and> n \<le> 100)"
  by (auto simp: parse_limit_def split: option.splits)

text \<open>
  C29: The published operations are the operations: the document lists exactly the routes but
  \<open>/metrics\<close> and \<open>/openapi.json\<close>; each operation documents the path parameters of its route, asks
  for the bearer token exactly when its handler refuses every client without one (the others read
  no header), asks for the \<open>Idempotency-Key\<close> exactly when its handler refuses requests without
  one (the others read no header but the client's), and its \<open>limit\<close> parameter has the range and
  the default that the parser enforces.
\<close>

theorem documented_operations:
  assumes "op \<in> set (doc_operations api_doc)"
  shows "map (\<lambda>d. (doc_path d, doc_method d, doc_handler d)) (doc_operations api_doc)
      = filter (\<lambda>r. snd (snd r) \<notin> {Metrics, Openapi}) routes
    \<and> map par_name (filter (\<lambda>p. par_in p = In_Path) (doc_parameters op)) = path_placeholders (doc_path op)
    \<and> (if doc_security op = [''bearerAuth''] then demands_client S (doc_handler op)
       else doc_security op = [] \<and> reads_no_header S (doc_handler op))
    \<and> (if idempotency_key_parameter \<in> set (doc_parameters op) then demands_key S (doc_handler op)
       else reads_no_header S (doc_handler op) \<or> reads_client_only S (doc_handler op))
    \<and> (p \<in> set (doc_parameters op) \<and> par_name p = ''limit'' \<longrightarrow>
        (\<exists>lo hi preset. par_type p = Integer_Parameter lo hi preset
          \<and> parse_limit None = Inr (word_of_int preset)
          \<and> ((\<exists>n. parse_limit (Some t) = Inr n) \<longleftrightarrow> (\<exists>n. parse_i64 t = Some n \<and> lo \<le> n \<and> n \<le> hi))))"
proof (intro conjI impI)
  note a = annotations(2-5) [unfolded list_all_iff, THEN bspec, OF assms]
  show "map par_name (filter (\<lambda>p. par_in p = In_Path) (doc_parameters op)) = path_placeholders (doc_path op)"
    by (rule a)
  show "if doc_security op = [''bearerAuth''] then demands_client S (doc_handler op)
       else doc_security op = [] \<and> reads_no_header S (doc_handler op)"
    using a(2) clients_demanded [where S = S] by presburger
  show "if idempotency_key_parameter \<in> set (doc_parameters op) then demands_key S (doc_handler op)
       else reads_no_header S (doc_handler op) \<or> reads_client_only S (doc_handler op)"
    using a(3) clients_demanded(2) [where S = S] keys_demanded [where S = S] by (metis Un_iff)
  assume "p \<in> set (doc_parameters op) \<and> par_name p = ''limit''"
  then have "par_type p = Integer_Parameter 1 100 50" using a(4) by blast
  then show "\<exists>lo hi preset. par_type p = Integer_Parameter lo hi preset
          \<and> parse_limit None = Inr (word_of_int preset)
          \<and> ((\<exists>n. parse_limit (Some t) = Inr n) \<longleftrightarrow> (\<exists>n. parse_i64 t = Some n \<and> lo \<le> n \<and> n \<le> hi))"
    using limit_range(1) limit_range(2) [of t] by blast
qed (rule annotations)

theorem documented_operations_witness:
  "demands_client demo_server Create_Transfer \<and> demands_key demo_server Create_Transfer
    \<and> path_placeholders ''/transfers'' = []"
proof -
  have "create_transfer_doc \<in> set (doc_operations api_doc)" by (simp add: api_doc_def)
  from documented_operations [OF this, of demo_server] show ?thesis
    by (simp add: create_transfer_doc_def idempotency_key_parameter_def)
qed

end
