(* ===== verification/Spec2Isabelle.thy ===== *)
theory Spec2Isabelle
  imports Serializability Openapi_Properties
begin

text \<open>
  A verification development of the ledger service, a Rust program on PostgreSQL (\<open>src/\<close>): clients
  open accounts, transfer money between them (in one currency or across currencies with a fee),
  reverse transfers and read balances, transfers and histories, over HTTP with bearer tokens and
  idempotency keys.

  \<^bold>\<open>The program and the theories.\<close>
  A request enters the router (\<open>app.rs\<close>), passes the client extractor (\<open>auth.rs\<close>) and reaches a
  handler (\<open>api/*.rs\<close>), which drives one database transaction; the middleware
  (\<open>observability.rs\<close>) records it and echoes its request id.

  \<^item> \<open>Ledger_Prelude\<close>: machine integers as words with Rust's checked and wrapping operations,
    strings as UTF-8 bytes, decimal numerals; the shared collections of rewrite rules.
    \<open>Ledger_Table\<close>: tables as lists of rows, with the interface \<open>keyed_table\<close>.  \<open>Ledger_Codec\<close>:
    big-endian bytes and hexadecimal, with the interfaces \<open>codec\<close> and \<open>fixed_codec\<close>.  \<open>Json\<close>:
    response bodies.
  \<^item> \<open>Money\<close> (\<open>money.rs\<close>) and \<open>Fx\<close> (\<open>fx.rs\<close>, arithmetic): parsing and printing of minor units,
    exact rates, fees and conversions.  \<open>Fx_Configuration\<close> (\<open>fx.rs\<close>, queries): the one rate and
    the one fee rule that apply.
  \<^item> \<open>Observability\<close> (\<open>observability.rs\<close>): the label enumerations, the metrics, request ids, the
    middleware.  \<open>Api_Error\<close> (\<open>api_error.rs\<close>): errors, their answers and their metric labels.
  \<^item> \<open>Database\<close>: the schema of \<open>migrations/*.sql\<close> (rows as records, \<open>CHECK\<close>, \<open>UNIQUE\<close> and foreign
    keys) and one definition for each SQL statement the service executes.  \<open>Txn\<close>: transactions as
    the handlers drive them, with a fate for every awaited call, and \<open>TransactionObservation\<close>.
    \<open>Platform\<close>: what the handlers take from other crates, as parameters, and the times and
    identifiers drawn during a request (\<open>Ambient\<close>).
  \<^item> \<open>Idempotency\<close> (\<open>idempotency.rs\<close>), \<open>Accounts\<close> (\<open>api/accounts.rs\<close>), \<open>Ledger_Posting\<close> and
    \<open>Transfers\<close> (\<open>api/transfers.rs\<close>), \<open>Reversals\<close> (\<open>api/reversals.rs\<close>), \<open>History\<close>
    (\<open>api/history.rs\<close>), \<open>Health\<close> (\<open>api/health.rs\<close>): the handlers, each a function of the session
    built from the stages of the Rust function in their order.  \<open>Telemetry\<close>: what they record.
    \<open>Attempts\<close>: the errors they can answer, and which attempts are counted under what.
  \<^item> \<open>Jwt\<close>, \<open>Auth\<close> (\<open>auth.rs\<close>), \<open>Socket_Addr\<close>, \<open>Config\<close> (\<open>config.rs\<close>), \<open>App\<close> (\<open>app.rs\<close>, and the
    extractors at the head of every handler), \<open>Startup\<close> (\<open>main.rs\<close>, \<open>db/mod.rs\<close>).  \<open>Openapi\<close>
    (\<open>openapi.rs\<close>, \<open>bin/generate-openapi.rs\<close>, the \<open>ToSchema\<close> structs and the annotations of the
    handlers): the published contract.
  \<^item> \<open>Transfer_Properties\<close>, \<open>Reversal_Properties\<close>, \<open>App_Properties\<close>: properties of a call and of a
    whole request.  \<open>Service\<close>: the service over time, as a step relation.  \<open>Locks\<close>,
    \<open>Concurrency\<close>, \<open>Independence\<close>, \<open>Write_Statements\<close>, \<open>Interleaving\<close>,
    \<open>Serializability\<close>: concurrent writes.  \<open>Openapi_Properties\<close>: the service against its contract.

  \<^bold>\<open>State and operations.\<close>
  A \<open>Database\<close> is the six tables.  A \<open>Session\<close> holds the committed database, the view of the open
  transaction, the fates of the calls to come and the metrics recorded.  A handler is a
  \<open>(AppError, _) tx\<close>: it ends in a result, an error (\<open>Fail\<close>), a panic (\<open>Panicked\<close>, from \<open>expect\<close>)
  or a cancellation (\<open>Cancelled\<close>, the client went away and the future was dropped); \<open>tx_bind\<close> is
  the \<open>?\<close> operator.  A fate lets a call run, loses its connection, loses only the acknowledgement of
  a commit, or drops the future there, so a theorem about every session is a theorem about every
  interruption.  With no fate left a run is undisturbed.

  \<^bold>\<open>What is shown.\<close>
  \<^item> Over any history of requests, interruptions and operator changes (\<open>Service\<close>): the ledger stays
    sound (the interface \<open>ledger_operation\<close>, interpreted for account creation, transfers, reversals
    and the service), recorded rows never change, balances move by exactly the recorded entries,
    a transfer is reversed at most once and then cancels out, only a reversal can overdraw an
    account, and a write that took effect is answered from its record for ever after.
  \<^item> For each write: whatever interrupts it, nothing or one complete authorised change is committed;
    undisturbed, it does exactly what a pure decision function says, on every branch (the
    refinement of the effectful handler by \<open>transfer_outcome\<close> and \<open>reversal_outcome\<close>); money is
    conserved; a reversal restores every balance, fee and conversion included.
  \<^item> Concurrent writes: what a write changes it has locked; transfers without a common lock commute.
    When the statements of account creations, transfers and reversals interleave, each reading
    what is committed when it runs (\<open>Write_Statements\<close>), answers and ledger are those of the
    handlers run serially in the order in which the transactions ended, and some statement can
    always run, since all take their locks in one order.  Both are proved once in the interface
    \<open>two_phase\<close> (\<open>Interleaving\<close>), interpreted on the three handlers (\<open>Serializability\<close>).
  \<^item> Money and FX: parsing is exact and total on the stated syntax, printing round-trips, fees and
    conversions are rounded half up once with exact error conditions, and ambiguous
    configuration is refused.
  \<^item> HTTP: routes are unambiguous, only an authenticated write route changes anything, a request
    without a token touches nothing, every reply is counted once under labels that its route, its
    method and its status determine, and carries the client's request id when that is usable.
  \<^item> Outcomes (\<open>Attempts\<close>): exactly which attempts of a transfer or a reversal are counted (not a
    transfer that fails before its accounts are classified, nor a reversal dropped at its
    \<open>BEGIN\<close>), as which operation and under which outcome; the pairs of status and code a failure
    can answer, each counted under the very code the client reads.  An error is a property of a
    computation by the rules \<open>raises_intros\<close>, for statuses (\<open>status_in\<close>) and codes (\<open>refusal\<close>) alike.
  \<^item> History: following \<open>next_cursor\<close> reads every entry once, newest first, and ends; cursors and
    query strings read back; a cursor cannot be used on another account or filter.
  \<^item> The published contract: after any history every reply to a documented operation, replays and
    errors included, has a documented status and a body of its schema (that stored bodies conform
    is an invariant of the service), but for axum's rejection of an authenticated client's path
    segment that does not decode, which the document omits; the document lists the public routes with the path parameters,
    token, key and limits that the handlers demand; the tracked document cannot drift.
  \<^item> Configuration and startup: validation, redaction, and the exact events of a process whose steps
    all succeed and of one with a failing step: only the former serves, the latter ends with the
    fixed message and exit code 1.  A readiness check answers and records what its query meets.

  \<^bold>\<open>Parameters and hypotheses.\<close>
  Crates outside the repository are parameters: UUID parsing and printing, SHA-256, header text,
  timestamps (\<open>Platform\<close>, with \<open>platform_ok\<close> and \<open>uuid_text_ok\<close>), the JWT library (\<open>Jwt\<close>), JSON of
  bodies and cursors (\<open>Server\<close>, \<open>CursorJson\<close>), the operating system (\<open>Host\<close>).  Every hypothesis on
  them is met by the concrete instances \<open>demo_platform\<close>, \<open>demo_jwt\<close>, \<open>demo_cursor_json\<close>,
  \<open>demo_server\<close>, \<open>demo_host\<close>, on which the witnesses evaluate the properties.  Successful inserts
  need fresh identifiers (\<open>fresh_ids\<close>) and versions below the \<open>bigint\<close> bound (\<open>versions_ok\<close>);
  the retention must keep the expiry a timestamp (\<open>retention_ok\<close>).  No other bound is assumed:
  \<open>i64\<close> amounts are words throughout, and the intermediate products of \<open>fx.rs\<close> are unbounded
  integers as in the code (\<open>BigInt\<close>).

  \<^bold>\<open>Fuel and termination.\<close>
  Every definition is total.  Only the client of the paged history, which is not the service's
  code, has fuel; more fuel than entries of the account is proved to be enough.

  \<^bold>\<open>Not modelled.\<close>
  Log lines and spans (only what is logged at startup is); the text of the metrics endpoint; the
  JSON text of the OpenAPI document, which its crates print; durations in histograms; index definitions; the benchmarks.  In the handlers of the model a
  transaction's statements read one database, its own view; \<open>Serializability\<close> justifies this for
  concurrent writes.  There the two queries of the FX configuration count as one statement, since
  no request writes those tables; the unlocked read of a completed record
  (\<open>completed_success\<close>) and the \<open>INSERT\<close> and \<open>SELECT\<close> of \<open>reserve\<close> count as one statement
  (\<open>reserve_statement\<close>), which loses no interleaving because records are never deleted and a
  completed one never changes; the writes of a transaction appear with its commit, and a
  commit succeeds or is abandoned; operator changes do not interleave.
\<close>

end
